(* ===== verification/Prelude.thy ===== *)
theory Prelude
  imports Complex_Main "HOL-Library.Multiset" "HOL-Library.AList"
begin

text \<open>
  Shared ground of the development: Python strings as lists of code points, the exceptions
  that escape the code's own handlers, dictionaries that keep insertion order, and the
  generic notion of a reachable state with its invariant rule.
\<close>

named_theorems tame_rules \<open>what signals, exits and reaping do to a process table\<close>

subsection \<open>Strings\<close>

text \<open>
  A Python \<open>str\<close> is a sequence of code points, so it is a list of numbers here; \<open>us\<close> writes
  an ASCII literal as one.
\<close>

type_synonym ustring = "nat list"

definition us :: "string \<Rightarrow> ustring" where
  "us s = map of_char s"

lemma us_eq_iff [simp]: "us s = us t \<longleftrightarrow> s = t"
proof -
  have "inj (of_char :: char \<Rightarrow> nat)" by (rule injI) simp
  then show ?thesis by (simp add: us_def inj_map_eq_map)
qed

lemma us_Nil [simp]: "us [] = []"
  by (simp add: us_def)

lemma us_eq_Nil_iff [simp]: "us s = [] \<longleftrightarrow> s = []"
  by (simp add: us_def)

lemma Nil_eq_us_iff [simp]: "[] = us s \<longleftrightarrow> s = []"
  by (auto simp: us_def)

subsection \<open>Exceptions\<close>

text \<open>
  The exceptions the code raises on purpose and catches are constructors of the result types
  of the operations that raise them. \<open>Exn\<close> is any other one: its class and its message.
\<close>

datatype exn = Exn (exn_class: ustring) (exn_message: ustring)

type_synonym 'a outcome_of = "exn + 'a"

subsection \<open>Dictionaries\<close>

text \<open>
  A Python dict keeps the order in which its keys were first inserted, and storing under a key
  it has keeps that key's place: this is an association list with the library's \<open>AList.update\<close>.
  \<open>keyed_store\<close> is what the components rely on.
\<close>

locale keyed_store =
  fixes get :: "'m \<Rightarrow> 'k \<Rightarrow> 'v option"
    and put :: "'k \<Rightarrow> 'v \<Rightarrow> 'm \<Rightarrow> 'm"
    and del :: "'k \<Rightarrow> 'm \<Rightarrow> 'm"
    and ok :: "'m \<Rightarrow> bool"
  assumes get_put: "get (put k v m) = (get m)(k \<mapsto> v)"
    and get_del: "get (del k m) = (get m)(k := None)"
    and ok_put: "ok m \<Longrightarrow> ok (put k v m)"
    and ok_del: "ok m \<Longrightarrow> ok (del k m)"
begin

lemma get_put_same: "get (put k v m) k = Some v"
  by (simp add: get_put)

lemma get_put_other: "k' \<noteq> k \<Longrightarrow> get (put k v m) k' = get m k'"
  by (simp add: get_put)

lemma get_del_same: "get (del k m) k = None"
  by (simp add: get_del)

lemma get_del_other: "k' \<noteq> k \<Longrightarrow> get (del k m) k' = get m k'"
  by (simp add: get_del)

lemma get_dels: "get (fold del ks m) k = (if k \<in> set ks then None else get m k)"
  by (induction ks arbitrary: m) (auto simp: get_del)

lemma ok_dels: "ok m \<Longrightarrow> ok (fold del ks m)"
  by (induction ks arbitrary: m) (auto simp: ok_del)

end

type_synonym ('k, 'v) dict = "('k \<times> 'v) list"

abbreviation dict_ok :: "('k, 'v) dict \<Rightarrow> bool" where
  "dict_ok d \<equiv> distinct (map fst d)"

interpretation dict: keyed_store map_of AList.update AList.delete dict_ok
  by unfold_locales
    (auto simp: AList.update_conv' AList.delete_conv' AList.distinct_update AList.distinct_delete)

text \<open>Deleting several keys, and changing one value, as list operations.\<close>

lemma dict_dels: "fold AList.delete ks d = filter (\<lambda>(k, v). k \<notin> set ks) d"
proof (induction ks arbitrary: d)
  case (Cons k ks)
  then show ?case by (auto simp: AList.delete_eq intro!: filter_cong)
qed simp

lemma map_of_filter_snd:
  "dict_ok d \<Longrightarrow> map_of (filter (\<lambda>(k, v). P k v) d) k =
     (case map_of d k of None \<Rightarrow> None | Some v \<Rightarrow> if P k v then Some v else None)"
proof (induction d)
  case (Cons x d)
  obtain k' v where x: "x = (k', v)" by (cases x)
  have "map_of d k' = None" using Cons.prems by (simp add: x map_of_eq_None_iff)
  with Cons show ?case by (cases "k = k'") (simp_all add: x)
qed simp

lemma map_of_map_entry [simp]:
  "map_of (AList.map_entry k f d) k' = (if k = k' then map_option f (map_of d k) else map_of d k')"
  by (induction d) (auto split: if_splits)

lemma keys_map_entry [simp]: "map fst (AList.map_entry k f d) = map fst d"
  by (induction d) auto

lemma dict_ok_filter: "dict_ok d \<Longrightarrow> dict_ok (filter P d)"
  by (simp add: distinct_map_filter)

lemma dict_in_iff: "dict_ok d \<Longrightarrow> (k, v) \<in> set d \<longleftrightarrow> map_of d k = Some v"
  by (simp add: map_of_eq_Some_iff)

subsection \<open>Reachable states and invariants\<close>

inductive reach :: "('s \<Rightarrow> bool) \<Rightarrow> ('s \<Rightarrow> 's \<Rightarrow> bool) \<Rightarrow> 's \<Rightarrow> bool"
  for init :: "'s \<Rightarrow> bool" and step :: "'s \<Rightarrow> 's \<Rightarrow> bool" where
  reach_init: "init s \<Longrightarrow> reach init step s"
| reach_step: "reach init step s \<Longrightarrow> step s t \<Longrightarrow> reach init step t"

text \<open>
  The contract of an invariant: it holds at the start and every step from a reachable state
  keeps it. A component that provides the two facts gets the invariant in every reachable
  state.
\<close>

locale invariant_of =
  fixes init :: "'s \<Rightarrow> bool"
    and step :: "'s \<Rightarrow> 's \<Rightarrow> bool"
    and inv :: "'s \<Rightarrow> bool"
  assumes inv_init: "init s \<Longrightarrow> inv s"
    and inv_step: "inv s \<Longrightarrow> step s t \<Longrightarrow> inv t"
begin

lemma inv_reach: "reach init step s \<Longrightarrow> inv s"
  by (induction rule: reach.induct) (auto intro: inv_init inv_step)

lemma inv_steps: "step\<^sup>*\<^sup>* s t \<Longrightarrow> inv s \<Longrightarrow> inv t"
  by (induction rule: rtranclp_induct) (auto intro: inv_step)

end

text \<open>
  A functional refinement: under an invariant, every step is, seen through \<open>abs\<close>, a step of the
  abstract system or none at all.
\<close>

locale simulation = invariant_of init step inv
  for init :: "'s \<Rightarrow> bool" and step :: "'s \<Rightarrow> 's \<Rightarrow> bool" and inv :: "'s \<Rightarrow> bool" +
  fixes spec :: "'a \<Rightarrow> 'a \<Rightarrow> bool"
    and abs :: "'s \<Rightarrow> 'a"
  assumes sim_step: "inv s \<Longrightarrow> step s t \<Longrightarrow> abs t = abs s \<or> spec (abs s) (abs t)"
begin

lemma sim_steps:
  assumes "step\<^sup>*\<^sup>* s t" "inv s"
  shows "spec\<^sup>*\<^sup>* (abs s) (abs t)"
  using assms(1)
proof (induction rule: rtranclp_induct)
  case (step t u)
  from inv_steps [OF step.hyps(1) assms(2)] have "abs u = abs t \<or> spec (abs t) (abs u)"
    using step.hyps(2) by (rule sim_step)
  with step.IH show ?case by (auto intro: rtranclp.rtrancl_into_rtrancl)
qed simp

lemma sim_reach: "reach init step s \<Longrightarrow> step\<^sup>*\<^sup>* s t \<Longrightarrow> spec\<^sup>*\<^sup>* (abs s) (abs t)"
  by (rule sim_steps) (auto intro: inv_reach)

end

lemma reach_steps: "step\<^sup>*\<^sup>* s t \<Longrightarrow> reach init step s \<Longrightarrow> reach init step t"
  by (induction rule: rtranclp_induct) (auto intro: reach_step)

subsection \<open>Loops with fuel\<close>

text \<open>
  The contract of a polling loop: turn \<open>i\<close> ends it with a result or goes on to turn \<open>Suc i\<close>, and
  \<open>stuck\<close>, which no turn gives, tells that the fuel ran out.
\<close>

locale fuelled_loop =
  fixes loop :: "nat \<Rightarrow> nat \<Rightarrow> 'r"
    and stuck :: 'r
    and turn :: "nat \<Rightarrow> 'r option"
  assumes loop_0: "loop 0 i = stuck"
    and loop_Suc: "loop (Suc n) i = (case turn i of Some r \<Rightarrow> r | None \<Rightarrow> loop n (Suc i))"
    and turn_ends: "turn i = Some r \<Longrightarrow> r \<noteq> stuck"
begin

lemma loop_settles:
  "turn (i + n) = Some r \<Longrightarrow> \<forall>m < n. turn (i + m) = None \<Longrightarrow> loop (Suc n) i = r"
proof (induction n arbitrary: i)
  case (Suc n)
  have "turn i = None" using Suc.prems(2) by (metis add_0_right zero_less_Suc)
  moreover have "loop (Suc n) (Suc i) = r" using Suc.prems by (intro Suc.IH) auto
  ultimately show ?case using loop_Suc [of "Suc n" i] by simp
qed (simp add: loop_Suc)

lemma loop_ends: "turn (i + n) \<noteq> None \<Longrightarrow> loop (Suc n) i \<noteq> stuck"
proof (induction n arbitrary: i)
  case (Suc n)
  then have "loop (Suc n) (Suc i) \<noteq> stuck" by simp
  then show ?case using loop_Suc [of "Suc n" i] turn_ends [of i] by (simp split: option.split)
qed (auto simp: loop_Suc dest: turn_ends)

lemma loop_from:
  "loop n i \<noteq> stuck \<Longrightarrow> \<exists>m < n. turn (i + m) = Some (loop n i) \<and> (\<forall>k < m. turn (i + k) = None)"
proof (induction n arbitrary: i)
  case (Suc n)
  show ?case
  proof (cases "turn i")
    case None
    with Suc.prems have "loop n (Suc i) \<noteq> stuck" by (simp add: loop_Suc)
    from Suc.IH [OF this] obtain m where "m < n" "turn (Suc i + m) = Some (loop n (Suc i))"
      "\<forall>k < m. turn (Suc i + k) = None" by blast
    then show ?thesis using None
      by (intro exI [of _ "Suc m"]) (auto simp: loop_Suc less_Suc_eq_0_disj)
  qed (auto simp: loop_Suc intro!: exI [of _ 0])
qed (simp add: loop_0)

lemma loop_more: "loop n i \<noteq> stuck \<Longrightarrow> loop (n + k) i = loop n i"
proof (induction n arbitrary: i)
  case (Suc n)
  then show ?case by (cases "turn i") (simp_all add: loop_Suc)
qed (simp add: loop_0)

end

end
