(* ===== verification/PyText.thy ===== *)
theory PyText
  imports Prelude "HOL-Library.Word"
begin

text \<open>
  The text operations of the Python standard library the code calls: \<open>str.strip\<close>,
  \<open>str.splitlines\<close>, \<open>str.rpartition\<close>, \<open>str.find\<close>, \<open>str.isdigit\<close>, \<open>int\<close> and \<open>float\<close> of a
  string, and UTF-8 with \<open>errors="replace"\<close>. The character classes are those of the Unicode
  database of CPython 3.11 (14.0).
\<close>

subsection \<open>Character classes\<close>

definition space_points :: "nat list" where
  "space_points = [9, 10, 11, 12, 13, 28, 29, 30, 31, 32, 133, 160, 5760, 8192, 8193, 8194, 8195,
     8196, 8197, 8198, 8199, 8200, 8201, 8202, 8232, 8233, 8239, 8287, 12288]"

definition is_space :: "nat \<Rightarrow> bool" where
  "is_space c = List.member space_points c"

definition is_linebreak :: "nat \<Rightarrow> bool" where
  "is_linebreak c = List.member [10, 11, 12, 13, 28, 29, 30, 133, 8232, 8233] c"

text \<open>The zeros of the blocks of ten decimal digits, and the other code points that are digits.\<close>

definition decimal_zeros :: "nat list" where
  "decimal_zeros = [48, 1632, 1776, 1984, 2406, 2534, 2662, 2790, 2918, 3046, 3174, 3302, 3430,
     3558, 3664, 3792, 3872, 4160, 4240, 6112, 6160, 6470, 6608, 6784, 6800, 6992, 7088, 7232,
     7248, 42528, 43216, 43264, 43472, 43504, 43600, 44016, 65296, 66720, 68912, 69734, 69872,
     69942, 70096, 70384, 70736, 70864, 71248, 71360, 71472, 71904, 72016, 72784, 73040, 73120,
     92768, 92864, 93008, 120782, 120792, 120802, 120812, 120822, 123200, 123632, 125264, 130032]"

definition other_digits :: "(nat \<times> nat) list" where
  "other_digits = [(178, 179), (185, 185), (4969, 4977), (6618, 6618), (8304, 8304), (8308, 8313),
     (8320, 8329), (9312, 9320), (9332, 9340), (9352, 9360), (9450, 9450), (9461, 9469),
     (9471, 9471), (10102, 10110), (10112, 10120), (10122, 10130), (68160, 68163),
     (69216, 69224), (69714, 69722), (127232, 127242)]"

definition decimal_of :: "nat \<Rightarrow> nat option" where
  "decimal_of c = map_option (\<lambda>z. c - z) (List.find (\<lambda>z. z \<le> c \<and> c < z + 10) decimal_zeros)"

definition is_decimal :: "nat \<Rightarrow> bool" where
  "is_decimal c = (decimal_of c \<noteq> None)"

definition is_digit :: "nat \<Rightarrow> bool" where
  "is_digit c = (is_decimal c \<or> list_ex (\<lambda>(lo, hi). lo \<le> c \<and> c \<le> hi) other_digits)"

definition ascii_digit :: "nat \<Rightarrow> bool" where
  "ascii_digit c = (48 \<le> c \<and> c \<le> 57)"

definition isdigit :: "ustring \<Rightarrow> bool" where
  "isdigit s = (s \<noteq> [] \<and> list_all is_digit s)"

lemmas char_class_defs = is_space_def space_points_def is_linebreak_def

lemma ascii_digit_is_digit: "ascii_digit c \<Longrightarrow> is_digit c"
  by (simp add: is_digit_def is_decimal_def decimal_of_def decimal_zeros_def ascii_digit_def)

lemma ascii_digit_isdigit: "s \<noteq> [] \<Longrightarrow> list_all ascii_digit s \<Longrightarrow> isdigit s"
  by (auto simp: isdigit_def list_all_iff ascii_digit_is_digit)

subsection \<open>Stripping and splitting\<close>

definition lstrip :: "ustring \<Rightarrow> ustring" where
  "lstrip s = dropWhile is_space s"

definition strip :: "ustring \<Rightarrow> ustring" where
  "strip s = rev (lstrip (rev (lstrip s)))"

lemma lstrip_id: "s = [] \<or> \<not> is_space (hd s) \<Longrightarrow> lstrip s = s"
  by (cases s) (auto simp: lstrip_def)

lemma strip_id: "s = [] \<or> (\<not> is_space (hd s) \<and> \<not> is_space (last s)) \<Longrightarrow> strip s = s"
  by (cases "s = []") (simp_all add: strip_def lstrip_id hd_rev)

text \<open>One line break: \<open>\r\n\<close> counts as one.\<close>

fun skip_break :: "ustring \<Rightarrow> ustring" where
  "skip_break [] = []"
| "skip_break (c # cs) = (if c = 13 \<and> cs \<noteq> [] \<and> hd cs = 10 then tl cs else cs)"

lemma length_skip_break: "length (skip_break s) \<le> length s - 1"
  by (cases s) auto

function splitlines :: "ustring \<Rightarrow> ustring list" where
  "splitlines s = (if s = [] then [] else
     takeWhile (\<lambda>c. \<not> is_linebreak c) s #
     splitlines (skip_break (dropWhile (\<lambda>c. \<not> is_linebreak c) s)))"
  by pat_completeness auto
termination
proof (relation "measure length")
  fix s :: ustring
  assume "s \<noteq> []"
  have "length (skip_break (dropWhile (\<lambda>c. \<not> is_linebreak c) s))
      \<le> length (dropWhile (\<lambda>c. \<not> is_linebreak c) s) - 1"
    by (rule length_skip_break)
  also have "\<dots> \<le> length s - 1"
    by (simp add: length_dropWhile_le diff_le_mono)
  also have "\<dots> < length s" using \<open>s \<noteq> []\<close> by simp
  finally show "(skip_break (dropWhile (\<lambda>c. \<not> is_linebreak c) s), s) \<in> measure length" by simp
qed simp

declare splitlines.simps [simp del]

lemma splitlines_Nil [simp]: "splitlines [] = []"
  by (simp add: splitlines.simps)

lemma splitlines_line:
  assumes "list_all (\<lambda>c. \<not> is_linebreak c) l"
  shows "splitlines (l @ 10 # r) = l # splitlines r"
proof -
  have "is_linebreak 10" by (simp add: char_class_defs)
  with assms have "takeWhile (\<lambda>c. \<not> is_linebreak c) (l @ 10 # r) = l"
    and "dropWhile (\<lambda>c. \<not> is_linebreak c) (l @ 10 # r) = 10 # r"
    by (auto simp: list_all_iff)
  then show ?thesis by (subst splitlines.simps) simp
qed

definition join_lines :: "ustring list \<Rightarrow> ustring" where
  "join_lines ls = concat (map (\<lambda>l. l @ [10]) ls)"

lemma splitlines_join_lines:
  "list_all (list_all (\<lambda>c. \<not> is_linebreak c)) ls \<Longrightarrow> splitlines (join_lines ls) = ls"
  by (induction ls) (simp_all add: join_lines_def splitlines_line)

lemma splitlines_join_lines_append:
  "list_all (list_all (\<lambda>c. \<not> is_linebreak c)) ls \<Longrightarrow>
     splitlines (join_lines ls @ r) = ls @ splitlines r"
  by (induction ls) (simp_all add: join_lines_def splitlines_line)

subsection \<open>Searching\<close>

text \<open>\<open>s.rpartition(sep)\<close> for a one-character separator: head, whether it was found, tail.\<close>

definition rpartition :: "nat \<Rightarrow> ustring \<Rightarrow> ustring \<times> bool \<times> ustring" where
  "rpartition sep s =
     (if List.member s sep
      then (rev (tl (dropWhile (\<lambda>c. c \<noteq> sep) (rev s))), True, rev (takeWhile (\<lambda>c. c \<noteq> sep) (rev s)))
      else ([], False, s))"

lemma rpartition_found:
  assumes "sep \<notin> set t"
  shows "rpartition sep (h @ sep # t) = (h, True, t)"
proof -
  have "takeWhile (\<lambda>c. c \<noteq> sep) (rev t @ sep # rev h) = rev t"
    and "dropWhile (\<lambda>c. c \<noteq> sep) (rev t @ sep # rev h) = sep # rev h"
    using assms by (auto simp: takeWhile_append dropWhile_append)
  then show ?thesis by (simp add: rpartition_def)
qed

lemma rpartition_missing: "sep \<notin> set s \<Longrightarrow> rpartition sep s = ([], False, s)"
  by (simp add: rpartition_def)

fun find_char :: "nat \<Rightarrow> ustring \<Rightarrow> nat option" where
  "find_char c [] = None"
| "find_char c (x # xs) = (if x = c then Some 0 else map_option Suc (find_char c xs))"

lemma find_char_append: "c \<notin> set h \<Longrightarrow> find_char c (h @ c # t) = Some (length h)"
  by (induction h) auto

fun split_on :: "nat \<Rightarrow> ustring \<Rightarrow> ustring list" where
  "split_on sep [] = [[]]"
| "split_on sep (c # cs) =
     (if c = sep then [] # split_on sep cs
      else (case split_on sep cs of [] \<Rightarrow> [[c]] | w # ws \<Rightarrow> (c # w) # ws))"

lemma split_on_nonempty [simp]: "split_on sep s \<noteq> []"
  by (induction s) (auto split: list.splits)

lemma split_on_none: "sep \<notin> set s \<Longrightarrow> split_on sep s = [s]"
  by (induction s) auto

lemma split_on_cons: "sep \<notin> set h \<Longrightarrow> split_on sep (h @ sep # t) = h # split_on sep t"
  by (induction h) auto

text \<open>\<open>s.split()\<close>: the runs of characters between white space.\<close>

function split_space :: "ustring \<Rightarrow> ustring list" where
  "split_space s =
     (let t = lstrip s
      in if t = [] then []
         else takeWhile (\<lambda>c. \<not> is_space c) t # split_space (dropWhile (\<lambda>c. \<not> is_space c) t))"
  by pat_completeness auto
termination
proof (relation "measure length")
  fix s t :: ustring
  assume t: "t = lstrip s" "t \<noteq> []"
  then have "\<not> is_space (hd t)" by (metis hd_dropWhile lstrip_def)
  with t(2) have "dropWhile (\<lambda>c. \<not> is_space c) t = dropWhile (\<lambda>c. \<not> is_space c) (tl t)"
    by (cases t) auto
  also have "length \<dots> \<le> length (tl t)" by (rule length_dropWhile_le)
  also have "\<dots> < length t" using t(2) by simp
  also have "\<dots> \<le> length s" by (simp add: t(1) lstrip_def length_dropWhile_le)
  finally show "(dropWhile (\<lambda>c. \<not> is_space c) t, s) \<in> measure length" by simp
qed simp

declare split_space.simps [simp del]

lemma split_space_Nil [simp]: "split_space [] = []"
  by (subst split_space.simps) (simp add: lstrip_def)

end
