(* ===== verification/PyNumber.thy ===== *)
theory PyNumber
  imports PyText
begin

text \<open>
  Python numbers as the code reads them from text: \<open>int(s)\<close>, \<open>float(s)\<close>, \<open>float(n)\<close>. An int
  is a HOL \<open>int\<close>. A float is an exact rational or one of the three special values: rounding
  to 53 bits is not modelled, the overflow to infinity is.
\<close>

datatype pyfloat = Finite rat | PosInf | NegInf | NaN

text \<open>Comparisons with a finite number, as IEEE 754 has them: every comparison with NaN fails.\<close>

fun exceeds :: "rat \<Rightarrow> pyfloat \<Rightarrow> bool" where
  "exceeds t (Finite q) = (t > q)"
| "exceeds t PosInf = False"
| "exceeds t NegInf = True"
| "exceeds t NaN = False"

fun positive :: "pyfloat \<Rightarrow> bool" where
  "positive (Finite q) = (q > 0)"
| "positive PosInf = True"
| "positive NegInf = False"
| "positive NaN = False"

subsection \<open>Digits\<close>

definition digits_value :: "nat list \<Rightarrow> int" where
  "digits_value ds = foldl (\<lambda>n d. 10 * n + int d) 0 ds"

lemma digits_value_Nil [simp]: "digits_value [] = 0"
  by (simp add: digits_value_def)

lemma digits_value_snoc [simp]: "digits_value (ds @ [d]) = 10 * digits_value ds + int d"
  by (simp add: digits_value_def)

fun show_nat :: "nat \<Rightarrow> ustring" where
  "show_nat n = (if n < 10 then [48 + n] else show_nat (n div 10) @ [48 + n mod 10])"

declare show_nat.simps [simp del]

definition show_int :: "int \<Rightarrow> ustring" where
  "show_int i = (if i < 0 then 45 # show_nat (nat (- i)) else show_nat (nat i))"

lemma show_nat_digits: "list_all ascii_digit (show_nat n)"
proof (induction n rule: show_nat.induct)
  case (1 n)
  then show ?case
    by (cases "n < 10") (auto simp: show_nat.simps [of n] ascii_digit_def)
qed

lemma show_nat_nonempty: "show_nat n \<noteq> []"
  by (subst show_nat.simps) simp

lemma digits_value_show_nat: "digits_value (map (\<lambda>c. c - 48) (show_nat n)) = int n"
proof (induction n rule: show_nat.induct)
  case (1 n)
  show ?case
  proof (cases "n < 10")
    case True
    then show ?thesis by (simp add: show_nat.simps [of n] digits_value_def)
  next
    case False
    then have "digits_value (map (\<lambda>c. c - 48) (show_nat n)) = 10 * int (n div 10) + int (n mod 10)"
      using 1 by (simp add: show_nat.simps [of n])
    also have "\<dots> = int n" by presburger
    finally show ?thesis .
  qed
qed

lemma show_nat_no_leading_zero: "0 < n \<Longrightarrow> hd (show_nat n) \<noteq> 48"
proof (induction n rule: show_nat.induct)
  case (1 n)
  show ?case
  proof (cases "n < 10")
    case False
    then have "hd (show_nat (n div 10)) \<noteq> 48" using 1 by simp
    with False show ?thesis by (simp add: show_nat.simps [of n] hd_append show_nat_nonempty)
  qed (use "1.prems" in \<open>simp add: show_nat.simps [of n]\<close>)
qed

text \<open>More than 4300 digits are refused by \<open>int\<close> (\<open>sys.get_int_max_str_digits\<close>).\<close>

definition int_max_str_digits :: nat where
  "int_max_str_digits = 4300"

text \<open>Underscores are legal between two digits only; \<open>None\<close> when one stands elsewhere.\<close>

fun drop_underscores :: "bool \<Rightarrow> ustring \<Rightarrow> ustring option" where
  "drop_underscores after_digit [] = Some []"
| "drop_underscores after_digit (c # cs) =
     (if c = 95
      then (if after_digit \<and> cs \<noteq> [] \<and> is_decimal (hd cs) then drop_underscores False cs else None)
      else map_option ((#) c) (drop_underscores (is_decimal c) cs))"

fun take_sign :: "ustring \<Rightarrow> bool \<times> ustring" where
  "take_sign [] = (False, [])"
| "take_sign (c # cs) = (if c = 45 then (True, cs) else if c = 43 then (False, cs) else (False, c # cs))"

definition py_int :: "ustring \<Rightarrow> int option" where
  "py_int s =
     (let (neg, body) = take_sign (strip s)
      in case drop_underscores False body of
           None \<Rightarrow> None
         | Some ds \<Rightarrow>
             (if ds \<noteq> [] \<and> list_all is_decimal ds \<and> length ds \<le> int_max_str_digits
              then (let v = digits_value (map (\<lambda>c. the (decimal_of c)) ds)
                    in Some (if neg then - v else v))
              else None))"

subsection \<open>Floats\<close>

text \<open>The smallest magnitude that rounds to infinity in binary64.\<close>

definition float_overflow :: rat where
  "float_overflow = 2 ^ 1024 - 2 ^ 970"

definition to_float :: "bool \<Rightarrow> rat \<Rightarrow> pyfloat" where
  "to_float neg q =
     (if float_overflow \<le> q then (if neg then NegInf else PosInf)
      else Finite (if neg then - q else q))"

definition scale10 :: "int \<Rightarrow> int \<Rightarrow> rat" where
  "scale10 m e = (if 0 \<le> e then of_int m * 10 ^ nat e else of_int m / 10 ^ nat (- e))"

text \<open>\<open>float(n)\<close> of an int: \<open>None\<close> is OverflowError.\<close>

definition float_of_int :: "int \<Rightarrow> pyfloat option" where
  "float_of_int n = (if float_overflow \<le> of_int \<bar>n\<bar> then None else Some (Finite (of_int n)))"

definition lower_ascii :: "nat \<Rightarrow> nat" where
  "lower_ascii c = (if 65 \<le> c \<and> c \<le> 90 then c + 32 else c)"

definition dec_digits :: "ustring \<Rightarrow> nat list" where
  "dec_digits ds = map (\<lambda>c. the (decimal_of c)) ds"

text \<open>The exponent part after the mantissa; \<open>None\<close> when the rest is not one.\<close>

definition float_exponent :: "ustring \<Rightarrow> int option" where
  "float_exponent s =
     (case s of [] \<Rightarrow> Some 0
      | c # r \<Rightarrow>
          (if c = 101 \<or> c = 69
           then (let (neg, ds) = take_sign r
                 in if ds \<noteq> [] \<and> list_all is_decimal ds
                    then Some (if neg then - digits_value (dec_digits ds) else digits_value (dec_digits ds))
                    else None)
           else None))"

text \<open>\<open>float(s)\<close> of a string: \<open>None\<close> is ValueError.\<close>

definition py_float :: "ustring \<Rightarrow> pyfloat option" where
  "py_float s =
     (case drop_underscores False (strip s) of
        None \<Rightarrow> None
      | Some t \<Rightarrow>
          (let (neg, body) = take_sign t; word = map lower_ascii body
           in if word = us ''inf'' \<or> word = us ''infinity'' then Some (if neg then NegInf else PosInf)
              else if word = us ''nan'' then Some NaN
              else (let ip = takeWhile is_decimal body;
                        r = dropWhile is_decimal body;
                        fp = (if r \<noteq> [] \<and> hd r = 46 then takeWhile is_decimal (tl r) else []);
                        r' = (if r \<noteq> [] \<and> hd r = 46 then dropWhile is_decimal (tl r) else r)
                    in if ip @ fp = [] then None
                       else map_option
                              (\<lambda>e. to_float neg
                                     (scale10 (digits_value (dec_digits (ip @ fp))) (e - int (length fp))))
                              (float_exponent r'))))"

lemma ascii_digit_decimal_of: "ascii_digit c \<Longrightarrow> decimal_of c = Some (c - 48)"
  by (simp add: decimal_of_def decimal_zeros_def ascii_digit_def)

lemma drop_underscores_id: "95 \<notin> set s \<Longrightarrow> drop_underscores b s = Some s"
  by (induction s arbitrary: b) auto

lemma ascii_digit_not_space: "ascii_digit c \<Longrightarrow> \<not> is_space c"
  by (auto simp: ascii_digit_def char_class_defs)

lemma ascii_digits_strip: "list_all ascii_digit s \<Longrightarrow> strip s = s"
  by (cases "s = []") (auto simp: strip_id list_all_iff ascii_digit_not_space intro!: strip_id)

text \<open>Reading back what \<open>str(n)\<close> wrote, as \<open>CLAUDE_POOL_PORT\<close> and the pid file do.\<close>

lemma py_int_show_nat:
  assumes "length (show_nat n) \<le> int_max_str_digits"
  shows "py_int (show_nat n) = Some (int n)"
proof -
  have dig: "list_all ascii_digit (show_nat n)" by (rule show_nat_digits)
  obtain c cs where cs: "show_nat n = c # cs" using show_nat_nonempty by (cases "show_nat n") auto
  have "take_sign (show_nat n) = (False, show_nat n)"
    using dig by (auto simp: cs ascii_digit_def)
  moreover have "drop_underscores False (show_nat n) = Some (show_nat n)"
    using dig by (intro drop_underscores_id) (auto simp: list_all_iff ascii_digit_def)
  moreover have "list_all is_decimal (show_nat n)"
    using dig by (auto simp: list_all_iff is_decimal_def ascii_digit_decimal_of)
  moreover have "map (\<lambda>c. the (decimal_of c)) (show_nat n) = map (\<lambda>c. c - 48) (show_nat n)"
    using dig by (intro map_cong) (auto simp: list_all_iff ascii_digit_decimal_of)
  then have "digits_value (map (\<lambda>c. the (decimal_of c)) (show_nat n)) = int n"
    by (simp only: digits_value_show_nat)
  ultimately show ?thesis
    using dig assms show_nat_nonempty [of n] by (simp add: py_int_def ascii_digits_strip)
qed

end
