(* ===== verification/Json.thy ===== *)
theory Json
  imports PyNumber
begin

text \<open>
  The \<open>json\<close> module as the code uses it: the values, \<open>dumps\<close> with its default ASCII escaping
  (the worker's input message, the response bodies) and \<open>loads\<close> (the CLI's stream, the
  \<open>CLAUDE_POOL_CLAUDE_CMD_JSON\<close> variable). The scanner follows CPython 3.11: strict strings,
  \<open>NaN\<close> and \<open>Infinity\<close> accepted, the last of two equal keys wins. The recursion limit is not
  modelled.
\<close>

datatype json =
    JNull
  | JBool bool
  | JInt int
  | JFloat pyfloat
  | JStr ustring
  | JList "json list"
  | JObj "(ustring, json) dict"

abbreviation jstr :: "string \<Rightarrow> json" where
  "jstr s \<equiv> JStr (us s)"

text \<open>\<open>bool(x)\<close>.\<close>

fun truthy :: "json \<Rightarrow> bool" where
  "truthy JNull = False"
| "truthy (JBool b) = b"
| "truthy (JInt n) = (n \<noteq> 0)"
| "truthy (JFloat f) = (f \<noteq> Finite 0)"
| "truthy (JStr s) = (s \<noteq> [])"
| "truthy (JList xs) = (xs \<noteq> [])"
| "truthy (JObj d) = (d \<noteq> [])"

text \<open>\<open>d.get(k, default)\<close> and \<open>d.get(k)\<close>.\<close>

definition get_or :: "(ustring, json) dict \<Rightarrow> string \<Rightarrow> json \<Rightarrow> json" where
  "get_or d k v = (case map_of d (us k) of Some x \<Rightarrow> x | None \<Rightarrow> v)"

definition get :: "(ustring, json) dict \<Rightarrow> string \<Rightarrow> json" where
  "get d k = get_or d k JNull"

subsection \<open>Writing\<close>

definition hex_digit :: "nat \<Rightarrow> nat" where
  "hex_digit d = (if d < 10 then 48 + d else 87 + d)"

definition u_escape :: "nat \<Rightarrow> ustring" where
  "u_escape n = [92, 117, hex_digit (n div 4096 mod 16), hex_digit (n div 256 mod 16),
     hex_digit (n div 16 mod 16), hex_digit (n mod 16)]"

definition escape_char :: "nat \<Rightarrow> ustring" where
  "escape_char c =
     (if c = 34 then [92, 34]
      else if c = 92 then [92, 92]
      else if c = 10 then [92, 110]
      else if c = 13 then [92, 114]
      else if c = 9 then [92, 116]
      else if c = 12 then [92, 102]
      else if c = 8 then [92, 98]
      else if 32 \<le> c \<and> c \<le> 126 then [c]
      else if c < 65536 then u_escape c
      else u_escape (55296 + (c - 65536) div 1024) @ u_escape (56320 + (c - 65536) mod 1024))"

definition dumps_string :: "ustring \<Rightarrow> ustring" where
  "dumps_string s = 34 # concat (map escape_char s) @ [34]"

fun intercalate :: "ustring \<Rightarrow> ustring list \<Rightarrow> ustring" where
  "intercalate sep [] = []"
| "intercalate sep [x] = x"
| "intercalate sep (x # y # zs) = x @ sep @ intercalate sep (y # zs)"

text \<open>\<open>float_repr\<close> is \<open>float.__repr__\<close>, the shortest decimal that reads back.\<close>

fun dumps :: "(pyfloat \<Rightarrow> ustring) \<Rightarrow> json \<Rightarrow> ustring" where
  "dumps float_repr JNull = us ''null''"
| "dumps float_repr (JBool b) = (if b then us ''true'' else us ''false'')"
| "dumps float_repr (JInt n) = show_int n"
| "dumps float_repr (JFloat f) =
     (case f of Finite q \<Rightarrow> float_repr f | PosInf \<Rightarrow> us ''Infinity'' | NegInf \<Rightarrow> us ''-Infinity''
      | NaN \<Rightarrow> us ''NaN'')"
| "dumps float_repr (JStr s) = dumps_string s"
| "dumps float_repr (JList xs) =
     91 # intercalate (us '', '') (map (dumps float_repr) xs) @ [93]"
| "dumps float_repr (JObj d) =
     123 # intercalate (us '', '')
       (map (\<lambda>(k, v). dumps_string k @ us '': '' @ dumps float_repr v) d) @ [125]"

subsection \<open>Reading\<close>

datatype 'a scan = Ok 'a ustring | Bad | TooManyDigits | OutOfFuel

fun map_scan :: "('a \<Rightarrow> 'b) \<Rightarrow> 'a scan \<Rightarrow> 'b scan" where
  "map_scan f (Ok v r) = Ok (f v) r"
| "map_scan f Bad = Bad"
| "map_scan f TooManyDigits = TooManyDigits"
| "map_scan f OutOfFuel = OutOfFuel"

definition json_ws :: "nat \<Rightarrow> bool" where
  "json_ws c = (c = 32 \<or> c = 9 \<or> c = 10 \<or> c = 13)"

definition skip_ws :: "ustring \<Rightarrow> ustring" where
  "skip_ws s = dropWhile json_ws s"

definition starts :: "nat \<Rightarrow> ustring \<Rightarrow> bool" where
  "starts c s = (s \<noteq> [] \<and> hd s = c)"

definition drop_prefix :: "ustring \<Rightarrow> ustring \<Rightarrow> ustring option" where
  "drop_prefix p s = (if take (length p) s = p then Some (drop (length p) s) else None)"

definition hex_value :: "nat \<Rightarrow> nat option" where
  "hex_value c =
     (if 48 \<le> c \<and> c \<le> 57 then Some (c - 48)
      else if 97 \<le> c \<and> c \<le> 102 then Some (c - 87)
      else if 65 \<le> c \<and> c \<le> 70 then Some (c - 55)
      else None)"

fun hex4 :: "ustring \<Rightarrow> (nat \<times> ustring) option" where
  "hex4 (a # b # c # d # r) =
     (case (hex_value a, hex_value b, hex_value c, hex_value d) of
        (Some w, Some x, Some y, Some z) \<Rightarrow> Some (((w * 16 + x) * 16 + y) * 16 + z, r)
      | _ \<Rightarrow> None)"
| "hex4 _ = None"

definition high_surrogate :: "nat \<Rightarrow> bool" where
  "high_surrogate c = (55296 \<le> c \<and> c \<le> 56319)"

definition low_surrogate :: "nat \<Rightarrow> bool" where
  "low_surrogate c = (56320 \<le> c \<and> c \<le> 57343)"

text \<open>After \<open>\u\<close> and a high surrogate: the low half, when an escape of one follows.\<close>

definition join_surrogates :: "nat \<Rightarrow> ustring \<Rightarrow> nat \<times> ustring" where
  "join_surrogates h r =
     (if high_surrogate h
      then (case drop_prefix [92, 117] r of
              None \<Rightarrow> (h, r)
            | Some r' \<Rightarrow>
                (case hex4 r' of
                   None \<Rightarrow> (h, r)
                 | Some (l, r'') \<Rightarrow>
                     (if low_surrogate l then (65536 + (h - 55296) * 1024 + (l - 56320), r'')
                      else (h, r))))
      else (h, r))"

text \<open>One escape, after its backslash.\<close>

definition unescape :: "ustring \<Rightarrow> (nat \<times> ustring) option" where
  "unescape s =
     (case s of [] \<Rightarrow> None
      | e # r \<Rightarrow>
          (if e = 34 \<or> e = 92 \<or> e = 47 then Some (e, r)
           else if e = 98 then Some (8, r)
           else if e = 102 then Some (12, r)
           else if e = 110 then Some (10, r)
           else if e = 114 then Some (13, r)
           else if e = 116 then Some (9, r)
           else if e = 117
           then (case hex4 r of None \<Rightarrow> None | Some (h, r') \<Rightarrow> Some (join_surrogates h r'))
           else None))"

lemma hex4_length: "hex4 r = Some (h, r') \<Longrightarrow> length r = length r' + 4"
  by (cases r rule: hex4.cases) (auto split: option.splits)

lemma drop_prefix_length:
  assumes "drop_prefix p s = Some r"
  shows "length s = length p + length r"
proof -
  from assms have "take (length p) s = p" and r: "r = drop (length p) s"
    unfolding drop_prefix_def by (metis option.distinct(1), metis option.distinct(1) option.inject)
  then have "length p \<le> length s" by (metis length_take min.cobounded1)
  with r show ?thesis by simp
qed

lemma join_surrogates_length: "join_surrogates h r = (c, r') \<Longrightarrow> length r' \<le> length r"
  unfolding join_surrogates_def
  by (auto split: if_splits option.splits prod.splits dest!: hex4_length drop_prefix_length)

lemma unescape_length:
  assumes "unescape s = Some (c, r)"
  shows "length r < length s"
proof (cases s)
  case (Cons e t)
  show ?thesis
  proof (cases "e = 117")
    case True
    with assms Cons obtain h r' where "hex4 t = Some (h, r')" and "join_surrogates h r' = (c, r)"
      by (auto simp: unescape_def split: option.splits)
    then show ?thesis using hex4_length join_surrogates_length Cons by fastforce
  qed (use assms Cons in \<open>auto simp: unescape_def split: if_splits\<close>)
qed (use assms in \<open>simp add: unescape_def\<close>)

text \<open>The rest of a string, after its opening quote.\<close>

function scan_string :: "ustring \<Rightarrow> ustring scan" where
  "scan_string s =
     (case s of [] \<Rightarrow> Bad
      | c # r \<Rightarrow>
          (if c = 34 then Ok [] r
           else if c < 32 then Bad
           else if c = 92
           then (case unescape r of
                   None \<Rightarrow> Bad
                 | Some (x, r') \<Rightarrow> map_scan ((#) x) (scan_string r'))
           else map_scan ((#) c) (scan_string r)))"
  by pat_completeness auto
termination
  by (relation "measure length") (auto dest: unescape_length)

declare scan_string.simps [simp del]

text \<open>The parts of a number: its integer digits, its fraction, its exponent, each with the rest.\<close>

definition number_int :: "ustring \<Rightarrow> ustring" where
  "number_int r = (if starts 48 r then [48] else takeWhile ascii_digit r)"

definition number_frac :: "ustring \<Rightarrow> ustring \<times> ustring" where
  "number_frac r =
     (let fp = (if starts 46 r then takeWhile ascii_digit (tl r) else [])
      in if fp = [] then ([], r) else (fp, drop (length fp) (tl r)))"

definition number_exp :: "ustring \<Rightarrow> int option \<times> ustring" where
  "number_exp r =
     (if starts 101 r \<or> starts 69 r
      then (let (neg, u) = take_sign (tl r);
                ed = takeWhile ascii_digit u;
                v = digits_value (dec_digits ed)
            in if ed = [] then (None, r) else (Some (if neg then - v else v), drop (length ed) u))
      else (None, r))"

definition scan_number :: "ustring \<Rightarrow> json scan" where
  "scan_number s =
     (let neg = starts 45 s;
          t = (if neg then tl s else s);
          ip = number_int t;
          (fp, r) = number_frac (drop (length ip) t);
          (e, r') = number_exp r
      in if ip = [] then Bad
         else if fp = [] \<and> e = None
         then (if length ip > int_max_str_digits then TooManyDigits
               else Ok (JInt (let v = digits_value (dec_digits ip) in if neg then - v else v)) r)
         else Ok (JFloat (to_float neg
                  (scale10 (digits_value (dec_digits (ip @ fp)))
                     ((case e of None \<Rightarrow> 0 | Some n \<Rightarrow> n) - int (length fp))))) r')"

text \<open>The words the scanner knows, tried before a number.\<close>

definition scan_word :: "ustring \<Rightarrow> json scan option" where
  "scan_word s =
     (case filter (\<lambda>(w, _). take (length (us w)) s = us w)
        [(''null'', JNull), (''true'', JBool True), (''false'', JBool False), (''NaN'', JFloat NaN),
         (''Infinity'', JFloat PosInf), (''-Infinity'', JFloat NegInf)] of
        [] \<Rightarrow> None
      | (w, v) # _ \<Rightarrow> Some (Ok v (drop (length w) s)))"

definition dict_of :: "(ustring \<times> json) list \<Rightarrow> (ustring, json) dict" where
  "dict_of kvs = foldl (\<lambda>d (k, v). AList.update k v d) [] kvs"

fun scan_value :: "nat \<Rightarrow> ustring \<Rightarrow> json scan"
  and scan_items :: "nat \<Rightarrow> ustring \<Rightarrow> json list scan"
  and scan_members :: "nat \<Rightarrow> ustring \<Rightarrow> (ustring \<times> json) list scan" where
  "scan_value 0 s = OutOfFuel"
| "scan_value (Suc n) s =
     (if starts 34 s then map_scan JStr (scan_string (tl s))
      else if starts 123 s
      then (let t = skip_ws (tl s)
            in if starts 125 t then Ok (JObj []) (tl t)
               else map_scan (\<lambda>kvs. JObj (dict_of kvs)) (scan_members n t))
      else if starts 91 s
      then (let t = skip_ws (tl s)
            in if starts 93 t then Ok (JList []) (tl t) else map_scan JList (scan_items n t))
      else (case scan_word s of Some res \<Rightarrow> res | None \<Rightarrow> scan_number s))"
| "scan_items 0 s = OutOfFuel"
| "scan_items (Suc n) s =
     (case scan_value n s of
        Ok v r \<Rightarrow>
          (let t = skip_ws r
           in if starts 93 t then Ok [v] (tl t)
              else if starts 44 t then map_scan ((#) v) (scan_items n (skip_ws (tl t)))
              else Bad)
      | Bad \<Rightarrow> Bad | TooManyDigits \<Rightarrow> TooManyDigits | OutOfFuel \<Rightarrow> OutOfFuel)"
| "scan_members 0 s = OutOfFuel"
| "scan_members (Suc n) s =
     (if starts 34 s
      then (case scan_string (tl s) of
              Ok k r \<Rightarrow>
                (let t = skip_ws r
                 in if starts 58 t
                    then (case scan_value n (skip_ws (tl t)) of
                            Ok v r' \<Rightarrow>
                              (let t' = skip_ws r'
                               in if starts 125 t' then Ok [(k, v)] (tl t')
                                  else if starts 44 t'
                                  then map_scan ((#) (k, v)) (scan_members n (skip_ws (tl t')))
                                  else Bad)
                          | Bad \<Rightarrow> Bad | TooManyDigits \<Rightarrow> TooManyDigits | OutOfFuel \<Rightarrow> OutOfFuel)
                    else Bad)
            | Bad \<Rightarrow> Bad | TooManyDigits \<Rightarrow> TooManyDigits | OutOfFuel \<Rightarrow> OutOfFuel)
      else Bad)"

text \<open>
  \<open>json.loads\<close>: a value, JSONDecodeError, or the plain ValueError that an int of more than
  4300 digits raises, which is not a JSONDecodeError.
\<close>

datatype loaded = Loaded json | JSONDecodeError | IntTooLong

definition json_fuel :: "ustring \<Rightarrow> nat" where
  "json_fuel s = 2 * length s + 1"

definition loads :: "ustring \<Rightarrow> loaded" where
  "loads s =
     (let t = skip_ws s
      in case scan_value (json_fuel t) t of
           Ok v r \<Rightarrow> (if skip_ws r = [] then Loaded v else JSONDecodeError)
         | Bad \<Rightarrow> JSONDecodeError
         | TooManyDigits \<Rightarrow> IntTooLong
         | OutOfFuel \<Rightarrow> JSONDecodeError)"

end
