(* ===== verification/JsonFacts.thy ===== *)
theory JsonFacts
  imports Json
begin

text \<open>
  What the rest of the development relies on about \<open>dumps\<close> and \<open>loads\<close>: \<open>loads\<close> reads back
  what \<open>dumps\<close> wrote, the output of \<open>dumps\<close> is printable ASCII (so it is one line), and the fuel
  that \<open>loads\<close> gives its scanner never runs out.
\<close>

lemma starts_Nil [simp]: "\<not> starts c []"
  by (simp add: starts_def)

lemma starts_Cons [simp]: "starts c (x # xs) \<longleftrightarrow> x = c"
  by (simp add: starts_def)

subsection \<open>Strings\<close>

lemma hex_value_digit: "d < 16 \<Longrightarrow> hex_value (hex_digit d) = Some d"
  by (auto simp: hex_value_def hex_digit_def)

lemma base16: "n div k = n div (k * 16) * 16 + n div k mod 16" for n k :: nat
  by (simp add: div_mult2_eq)

lemma horner16:
  "x = a * 16 + b \<Longrightarrow> y = x * 16 + c \<Longrightarrow> n = y * 16 + d \<Longrightarrow>
     ((a * 16 + b) * 16 + c) * 16 + d = n" for n :: nat
  by simp

lemma hex4_u_escape:
  assumes "n < 65536"
  shows "hex4 (drop 2 (u_escape n) @ r) = Some (n, r)"
proof -
  have "n div 4096 < 16" using assms by auto
  then have top: "n div 4096 mod 16 = n div 4096" by (rule mod_less)
  have "n div 256 = n div 4096 * 16 + n div 256 mod 16" using base16 [of n 256] by simp
  moreover have "n div 16 = n div 256 * 16 + n div 16 mod 16" using base16 [of n 16] by simp
  moreover have "n = n div 16 * 16 + n mod 16" by simp
  ultimately have
    "((n div 4096 mod 16 * 16 + n div 256 mod 16) * 16 + n div 16 mod 16) * 16 + n mod 16 = n"
    unfolding top by (rule horner16)
  then show ?thesis
    using hex_value_digit [OF \<open>n div 4096 < 16\<close>] by (simp add: u_escape_def hex_value_digit top)
qed

lemma u_escape_cons: "u_escape n = 92 # 117 # drop 2 (u_escape n)"
  by (simp add: u_escape_def)

lemma drop_prefix_u_escape: "drop_prefix [92, 117] (u_escape n @ r) = Some (drop 2 (u_escape n) @ r)"
  by (subst u_escape_cons) (simp add: drop_prefix_def)

lemma scan_string_quote: "scan_string (34 # r) = Ok [] r"
  by (simp add: scan_string.simps)

lemma scan_string_plain:
  "32 \<le> c \<Longrightarrow> c \<noteq> 34 \<Longrightarrow> c \<noteq> 92 \<Longrightarrow> scan_string (c # r) = map_scan ((#) c) (scan_string r)"
  by (simp add: scan_string.simps [of "c # r"])

lemma scan_string_escape:
  "unescape r = Some (x, r') \<Longrightarrow> scan_string (92 # r) = map_scan ((#) x) (scan_string r')"
  by (simp add: scan_string.simps [of "92 # r"])

text \<open>
  A string whose escapes read back as themselves: no high surrogate stands right before a low
  one (Python reads the two escapes as one code point).
\<close>

fun clean :: "ustring \<Rightarrow> bool" where
  "clean [] = True"
| "clean (c # cs) =
     (c < 1114112 \<and> \<not> (high_surrogate c \<and> cs \<noteq> [] \<and> low_surrogate (hd cs)) \<and> clean cs)"

definition astral_high :: "nat \<Rightarrow> nat" where
  "astral_high c = 55296 + (c - 65536) div 1024"

definition astral_low :: "nat \<Rightarrow> nat" where
  "astral_low c = 56320 + (c - 65536) mod 1024"

lemma astral_join:
  assumes "65536 \<le> c" "c < 1114112"
  shows "high_surrogate (astral_high c)" "low_surrogate (astral_low c)"
    "65536 + (astral_high c - 55296) * 1024 + (astral_low c - 56320) = c"
proof -
  have "(c - 65536) div 1024 < 1024" using assms by auto
  then show "high_surrogate (astral_high c)" by (simp add: astral_high_def high_surrogate_def)
  show "low_surrogate (astral_low c)"
    using mod_less_divisor [of 1024 "c - 65536"] by (simp add: astral_low_def low_surrogate_def)
  have "(c - 65536) div 1024 * 1024 + (c - 65536) mod 1024 = c - 65536" by (rule div_mult_mod_eq)
  then show "65536 + (astral_high c - 55296) * 1024 + (astral_low c - 56320) = c"
    using assms by (simp add: astral_high_def astral_low_def)
qed

lemma escape_char_astral:
  "65536 \<le> c \<Longrightarrow> escape_char c = u_escape (astral_high c) @ u_escape (astral_low c)"
  by (simp add: escape_char_def astral_high_def astral_low_def)

lemma escape_char_first:
  assumes "drop_prefix [92, 117] (escape_char d @ r) = Some t" "d < 1114112"
  shows "(d < 65536 \<and> hex4 t = Some (d, r)) \<or>
    (\<exists>h r'. hex4 t = Some (h, r') \<and> high_surrogate h)"
proof (cases "d < 65536")
  case True
  then have "escape_char d = u_escape d"
    using assms(1) by (auto simp: escape_char_def drop_prefix_def split: if_splits)
  with assms(1) have "t = drop 2 (u_escape d) @ r" by (simp add: drop_prefix_u_escape)
  with True show ?thesis using hex4_u_escape by blast
next
  case False
  then have "t = drop 2 (u_escape (astral_high d)) @ u_escape (astral_low d) @ r"
    using assms(1) by (simp add: escape_char_astral drop_prefix_u_escape)
  moreover have "high_surrogate (astral_high d)" using astral_join(1) False assms(2) by simp
  moreover from this have "astral_high d < 65536" by (simp add: high_surrogate_def)
  ultimately show ?thesis using hex4_u_escape by blast
qed

lemma join_surrogates_alone:
  assumes "clean (c # s)"
  shows "join_surrogates c (concat (map escape_char s) @ 34 # r)
    = (c, concat (map escape_char s) @ 34 # r)"
proof (cases s)
  case Nil
  then show ?thesis by (simp add: join_surrogates_def drop_prefix_def)
next
  case (Cons d s')
  let ?r = "concat (map escape_char s') @ 34 # r"
  have d: "d < 1114112" "\<not> (high_surrogate c \<and> low_surrogate d)" using assms Cons by auto
  have "join_surrogates c (escape_char d @ ?r) = (c, escape_char d @ ?r)"
  proof (cases "drop_prefix [92, 117] (escape_char d @ ?r)")
    case (Some t)
    have "\<not> low_surrogate h" if "high_surrogate h" for h
      using that by (simp add: high_surrogate_def low_surrogate_def)
    with escape_char_first [OF Some d(1)] Some d(2) show ?thesis
      by (auto simp: join_surrogates_def)
  qed (simp add: join_surrogates_def)
  with Cons show ?thesis by simp
qed

lemma join_surrogates_astral:
  assumes "65536 \<le> c" "c < 1114112"
  shows "join_surrogates (astral_high c) (u_escape (astral_low c) @ r) = (c, r)"
proof -
  have "astral_low c < 65536" using astral_join(2) [OF assms] by (simp add: low_surrogate_def)
  then show ?thesis
    using astral_join [OF assms]
    by (simp add: join_surrogates_def drop_prefix_u_escape hex4_u_escape)
qed

lemma scan_string_char:
  assumes "clean (c # s)"
  shows "scan_string (escape_char c @ concat (map escape_char s) @ 34 # r)
    = map_scan ((#) c) (scan_string (concat (map escape_char s) @ 34 # r))"
    (is "scan_string (_ @ ?r) = _")
proof -
  have u: "unescape (117 # drop 2 (u_escape n) @ t) = Some (join_surrogates n t)" if "n < 65536" for n t
    using hex4_u_escape [OF that, of t] by (simp add: unescape_def)
  consider "c = 34 \<or> c = 92 \<or> c = 10 \<or> c = 13 \<or> c = 9 \<or> c = 12 \<or> c = 8"
    | "32 \<le> c" "c \<le> 126" "c \<noteq> 34" "c \<noteq> 92"
    | "c < 65536" "\<not> (32 \<le> c \<and> c \<le> 126)" "c \<noteq> 10" "c \<noteq> 13" "c \<noteq> 9" "c \<noteq> 12" "c \<noteq> 8"
    | "65536 \<le> c"
    by force
  then show ?thesis
  proof cases
    case 1
    then show ?thesis by (auto simp: escape_char_def unescape_def intro!: scan_string_escape)
  next
    case 2
    then have "escape_char c = [c]" by (simp add: escape_char_def)
    with 2 show ?thesis by (simp add: scan_string_plain)
  next
    case 3
    have "unescape (117 # drop 2 (u_escape c) @ ?r) = Some (c, ?r)"
      using u [OF 3(1)] join_surrogates_alone [OF assms] by simp
    moreover have "escape_char c = 92 # 117 # drop 2 (u_escape c)"
      using 3 u_escape_cons [of c] by (auto simp: escape_char_def)
    ultimately show ?thesis by (simp add: scan_string_escape)
  next
    case 4
    with assms have c: "65536 \<le> c" "c < 1114112" by auto
    have "astral_high c < 65536" using astral_join(1) [OF c] by (simp add: high_surrogate_def)
    then have "unescape (117 # drop 2 (u_escape (astral_high c)) @ u_escape (astral_low c) @ ?r)
        = Some (c, ?r)"
      using u join_surrogates_astral [OF c] by simp
    then have "scan_string (u_escape (astral_high c) @ u_escape (astral_low c) @ ?r)
        = map_scan ((#) c) (scan_string ?r)"
      by (subst u_escape_cons) (simp add: scan_string_escape)
    with 4 show ?thesis by (simp add: escape_char_astral)
  qed
qed

lemma scan_string_dumps:
  "clean s \<Longrightarrow> scan_string (concat (map escape_char s) @ 34 # r) = Ok s r"
proof (induction s)
  case (Cons c s)
  then have "clean s" by simp
  with Cons.IH scan_string_char [OF Cons.prems, of r] show ?case by simp
qed (simp add: scan_string_quote)

subsection \<open>Values\<close>

text \<open>
  What \<open>dumps\<close> followed by \<open>loads\<close> gives back unchanged: no float (whose digits are
  Python's own), no int past the digit limit, clean strings, the distinct keys of a dict.
\<close>

fun plain :: "json \<Rightarrow> bool" where
  "plain (JInt n) = (length (show_nat (nat \<bar>n\<bar>)) \<le> int_max_str_digits)"
| "plain (JFloat f) = False"
| "plain (JStr s) = clean s"
| "plain (JList xs) = list_all plain xs"
| "plain (JObj d) = (distinct (map fst d) \<and> list_all (\<lambda>(k, v). clean k \<and> plain v) d)"
| "plain JNull = True"
| "plain (JBool b) = True"

definition delimited :: "ustring \<Rightarrow> bool" where
  "delimited r = (r = [] \<or> \<not> (ascii_digit (hd r) \<or> hd r = 46 \<or> hd r = 69 \<or> hd r = 101))"

lemma delimited_simps [simp]:
  "delimited (44 # r)" "delimited (93 # r)" "delimited (125 # r)" "delimited []"
  by (simp_all add: delimited_def ascii_digit_def)

lemma takeWhile_delimited:
  "list_all ascii_digit ds \<Longrightarrow> delimited r \<Longrightarrow> takeWhile ascii_digit (ds @ r) = ds"
  by (cases r) (auto simp: delimited_def list_all_iff takeWhile_append takeWhile_eq_all_conv)

lemma dec_digits_show_nat: "dec_digits (show_nat n) = map (\<lambda>c. c - 48) (show_nat n)"
  unfolding dec_digits_def using show_nat_digits [of n]
  by (intro map_cong) (auto simp: list_all_iff ascii_digit_decimal_of)

lemma digits_value_dec: "digits_value (dec_digits (show_nat n)) = int n"
  by (simp only: dec_digits_show_nat digits_value_show_nat)

lemma show_nat_hd: "ascii_digit (hd (show_nat n))"
  using show_nat_digits [of n] show_nat_nonempty [of n] by (cases "show_nat n") auto

lemma scan_number_show_nat:
  assumes "delimited r" "length (show_nat n) \<le> int_max_str_digits"
  shows "scan_number (show_nat n @ r) = Ok (JInt (int n)) r"
    and "scan_number (45 # show_nat n @ r) = Ok (JInt (- int n)) r"
proof -
  obtain c cs where cs: "show_nat n = c # cs" using show_nat_nonempty by (cases "show_nat n") auto
  have dig: "ascii_digit c" using show_nat_hd [of n] by (simp add: cs)
  have tw: "takeWhile ascii_digit (cs @ r) = cs"
    using takeWhile_delimited [OF show_nat_digits [of n] assms(1)] dig by (simp add: cs)
  have zero: "c = 48 \<Longrightarrow> cs = []"
    using show_nat_no_leading_zero [of n] show_nat.simps [of 0] cs by (cases "n = 0") auto
  have r: "\<not> starts 46 r" "\<not> starts 101 r" "\<not> starts 69 r"
    using assms(1) by (auto simp: delimited_def starts_def)
  have v: "digits_value (dec_digits (c # cs)) = int n" using digits_value_dec [of n] cs by simp
  have neg: "c \<noteq> 45" using dig by (auto simp: ascii_digit_def)
  have len: "Suc (length cs) \<le> int_max_str_digits" using assms(2) cs by simp
  show "scan_number (show_nat n @ r) = Ok (JInt (int n)) r"
    using neg tw r v len zero dig unfolding scan_number_def cs
    by (cases "c = 48") (simp_all add: Let_def number_int_def number_frac_def number_exp_def)
  show "scan_number (45 # show_nat n @ r) = Ok (JInt (- int n)) r"
    using neg tw r v len zero dig unfolding scan_number_def cs
    by (cases "c = 48") (simp_all add: Let_def number_int_def number_frac_def number_exp_def)
qed

lemma scan_word_None:
  "c \<notin> {110, 116, 102, 78, 73, 45} \<Longrightarrow> scan_word (c # t) = None"
  "d \<noteq> 73 \<Longrightarrow> scan_word (45 # d # t) = None"
  by (auto simp: scan_word_def us_def)

lemma scan_word_Some:
  "scan_word (us ''null'' @ r) = Some (Ok JNull r)"
  "scan_word (us ''true'' @ r) = Some (Ok (JBool True) r)"
  "scan_word (us ''false'' @ r) = Some (Ok (JBool False) r)"
  by (simp_all add: scan_word_def us_def)

lemma update_absent: "k \<notin> set (map fst d) \<Longrightarrow> AList.update k v d = d @ [(k, v)]"
  by (induction d) auto

lemma dict_of_distinct: "distinct (map fst kvs) \<Longrightarrow> dict_of kvs = kvs"
proof -
  have "distinct (map fst (d @ kvs)) \<Longrightarrow> foldl (\<lambda>d (k, v). AList.update k v d) d kvs = d @ kvs"
    for d :: "(ustring, json) dict"
  proof (induction kvs arbitrary: d)
    case (Cons kv kvs)
    then show ?case by (cases kv) (simp add: update_absent)
  qed simp
  from this [of "[]"] show "distinct (map fst kvs) \<Longrightarrow> dict_of kvs = kvs"
    by (simp add: dict_of_def)
qed

text \<open>The first character of a value is none of those that close or separate.\<close>

lemma dumps_hd:
  assumes "plain j"
  shows "dumps fr j \<noteq> []" "\<not> json_ws (hd (dumps fr j))" "hd (dumps fr j) \<noteq> 93"
    "hd (dumps fr j) \<noteq> 125"
proof -
  have "hd (show_nat n) \<notin> {9, 10, 13, 32, 93, 125} \<and> show_nat n \<noteq> []" for n
    using show_nat_hd [of n] show_nat_nonempty [of n] by (auto simp: ascii_digit_def)
  then have "dumps fr j \<noteq> [] \<and> \<not> json_ws (hd (dumps fr j)) \<and> hd (dumps fr j) \<noteq> 93
      \<and> hd (dumps fr j) \<noteq> 125"
    using assms
    by (cases j)
      (auto simp: us_def show_int_def dumps_string_def json_ws_def)
  then show "dumps fr j \<noteq> []" "\<not> json_ws (hd (dumps fr j))" "hd (dumps fr j) \<noteq> 93"
    "hd (dumps fr j) \<noteq> 125" by auto
qed

lemma skip_ws_id: "s = [] \<or> \<not> json_ws (hd s) \<Longrightarrow> skip_ws s = s"
  by (cases s) (auto simp: skip_ws_def)

lemma skip_ws_dumps: "plain j \<Longrightarrow> skip_ws (dumps fr j @ r) = dumps fr j @ r"
  using dumps_hd by (intro skip_ws_id) auto

lemma skip_ws_simps [simp]:
  "skip_ws [] = []" "skip_ws (32 # s) = skip_ws s"
  "skip_ws (34 # s) = 34 # s" "skip_ws (44 # s) = 44 # s" "skip_ws (58 # s) = 58 # s"
  "skip_ws (93 # s) = 93 # s" "skip_ws (125 # s) = 125 # s"
  by (simp_all add: skip_ws_def json_ws_def)

lemma starts_dumps: "plain j \<Longrightarrow> \<not> starts 93 (dumps fr j @ r)"
  using dumps_hd [of j fr] by (auto simp: starts_def)

lemma comma: "us '', '' = [44, 32]" and colon: "us '': '' = [58, 32]"
  by (simp_all add: us_def)

text \<open>One value read back at a given fuel, for every remainder.\<close>

definition reads_back :: "(pyfloat \<Rightarrow> ustring) \<Rightarrow> json \<Rightarrow> bool" where
  "reads_back fr j = (\<forall>r n. delimited r \<longrightarrow> 2 * length (dumps fr j @ r) + 1 \<le> n \<longrightarrow>
     scan_value n (dumps fr j @ r) = Ok j r)"

lemma reads_backD:
  "reads_back fr j \<Longrightarrow> delimited r \<Longrightarrow> 2 * length (dumps fr j @ r) + 1 \<le> n \<Longrightarrow>
     scan_value n (dumps fr j @ r) = Ok j r"
  by (simp add: reads_back_def)

lemma scan_items_dumps:
  assumes "xs \<noteq> []" "\<And>x. x \<in> set xs \<Longrightarrow> plain x \<and> reads_back fr x"
    and "2 * length (intercalate (us '', '') (map (dumps fr) xs) @ 93 # r) + 2 \<le> n"
  shows "scan_items n (intercalate (us '', '') (map (dumps fr) xs) @ 93 # r) = Ok xs r"
  using assms
proof (induction xs arbitrary: n rule: induct_list012)
  case (2 x)
  then obtain m where n: "n = Suc m" by (cases n) auto
  with 2 have "scan_value m (dumps fr x @ 93 # r) = Ok x (93 # r)"
    by (intro reads_backD) auto
  with n show ?case by simp
next
  case (3 x y zs)
  then obtain m where n: "n = Suc m" by (cases n) auto
  let ?t = "intercalate (us '', '') (map (dumps fr) (y # zs)) @ 93 # r"
  have x: "scan_value m (dumps fr x @ 44 # 32 # ?t) = Ok x (44 # 32 # ?t)"
    using 3 n by (intro reads_backD) (auto simp: comma)
  have y: "skip_ws ?t = ?t"
    using dumps_hd [of y fr] 3(4) [of y] by (cases zs) (auto intro!: skip_ws_id simp: hd_append)
  have "scan_items m ?t = Ok (y # zs) r" using 3 n by (intro "3.IH"(2)) (auto simp: comma)
  with x y n show ?case by (simp add: comma)
qed simp

abbreviation dumps_member :: "(pyfloat \<Rightarrow> ustring) \<Rightarrow> ustring \<times> json \<Rightarrow> ustring" where
  "dumps_member fr \<equiv> \<lambda>(k, v). dumps_string k @ us '': '' @ dumps fr v"

lemma dumps_string_cons: "dumps_string s @ r = 34 # concat (map escape_char s) @ 34 # r"
  by (simp add: dumps_string_def)

lemma scan_members_step:
  assumes "clean k" "plain v" "reads_back fr v" "delimited t"
    and "2 * length (dumps_member fr (k, v) @ t) + 2 \<le> Suc n"
  shows "scan_members (Suc n) (dumps_member fr (k, v) @ t) =
    (let t' = skip_ws t
     in if starts 125 t' then Ok [(k, v)] (tl t')
        else if starts 44 t' then map_scan ((#) (k, v)) (scan_members n (skip_ws (tl t')))
        else Bad)"
proof -
  have "scan_value n (dumps fr v @ t) = Ok v t"
    using assms(3-5) by (intro reads_backD) (auto simp: dumps_string_def colon)
  then show ?thesis
    using assms(1,2)
    by (simp add: dumps_string_cons colon scan_string_dumps skip_ws_dumps)
qed

lemma dumps_member_hd: "\<exists>r. dumps_member fr kv @ t = 34 # r"
  by (cases kv) (simp add: dumps_string_def)

lemma intercalate_first: "\<exists>r. intercalate sep (x # xs) @ t = x @ r"
  by (cases xs) auto

lemma scan_members_dumps:
  assumes "d \<noteq> []" "\<And>k v. (k, v) \<in> set d \<Longrightarrow> clean k \<and> plain v \<and> reads_back fr v"
    and "2 * length (intercalate (us '', '') (map (dumps_member fr) d) @ 125 # r) + 2 \<le> n"
  shows "scan_members n (intercalate (us '', '') (map (dumps_member fr) d) @ 125 # r) = Ok d r"
  using assms
proof (induction d arbitrary: n rule: induct_list012)
  case (2 kv)
  then obtain m k v where n: "n = Suc m" and kv: "kv = (k, v)" by (cases n; cases kv) auto
  then show ?case
    using 2 scan_members_step [of k v fr "125 # r" m] by (simp del: scan_members.simps)
next
  case (3 kv kv' d)
  then obtain m k v where n: "n = Suc m" and kv: "kv = (k, v)" by (cases n; cases kv) auto
  let ?t = "intercalate (us '', '') (map (dumps_member fr) (kv' # d)) @ 125 # r"
  have kvp: "clean k" "plain v" "reads_back fr v" using 3(4) [of k v] kv by simp_all
  have t: "skip_ws ?t = ?t"
  proof -
    obtain t1 where "?t = dumps_member fr kv' @ t1"
      using intercalate_first [of "us '', ''" "dumps_member fr kv'" "map (dumps_member fr) d"]
      unfolding list.map by blast
    moreover obtain t2 where "dumps_member fr kv' @ t1 = 34 # t2" using dumps_member_hd by blast
    ultimately show ?thesis by (simp only: skip_ws_simps)
  qed
  have "scan_members m ?t = Ok (kv' # d) r"
    using 3 n by (intro "3.IH"(2)) (auto simp: comma)
  moreover have "scan_members n (dumps_member fr (k, v) @ 44 # 32 # ?t) =
      map_scan ((#) (k, v)) (scan_members m ?t)"
    using 3(5) n kv kvp t scan_members_step [of k v fr "44 # 32 # ?t" m]
    by (simp add: comma del: scan_members.simps)
  ultimately show ?case by (simp add: comma kv del: scan_members.simps)
qed simp

lemma dumps_reads_back: "plain j \<Longrightarrow> reads_back fr j"
proof (induction j)
  case (JInt i)
  show ?case
  proof (unfold reads_back_def, intro allI impI)
    fix r n
    assume d: "delimited r" and "2 * length (dumps fr (JInt i) @ r) + 1 \<le> n"
    then obtain m where n: "n = Suc m" by (cases n) auto
    let ?k = "nat \<bar>i\<bar>"
    obtain c cs where cs: "show_nat ?k = c # cs" using show_nat_nonempty by (cases "show_nat ?k") auto
    have c: "48 \<le> c" "c \<le> 57" using show_nat_hd [of ?k] by (simp_all add: cs ascii_digit_def)
    have num: "scan_number (show_nat ?k @ r) = Ok (JInt (int ?k)) r"
      "scan_number (45 # show_nat ?k @ r) = Ok (JInt (- int ?k)) r"
      using scan_number_show_nat [OF d] JInt by auto
    show "scan_value n (dumps fr (JInt i) @ r) = Ok (JInt i) r"
    proof (cases "i < 0")
      case True
      then have "dumps fr (JInt i) = 45 # show_nat ?k" by (simp add: show_int_def)
      moreover have "scan_word (45 # show_nat ?k @ r) = None" using c by (simp add: cs scan_word_None)
      ultimately show ?thesis using num(2) True by (simp add: n)
    next
      case False
      then have "dumps fr (JInt i) = show_nat ?k" by (simp add: show_int_def)
      moreover have "scan_word (show_nat ?k @ r) = None" using c by (simp add: cs scan_word_None)
      moreover have "\<not> starts 34 (show_nat ?k @ r)" "\<not> starts 123 (show_nat ?k @ r)"
        "\<not> starts 91 (show_nat ?k @ r)" using c by (simp_all add: cs)
      ultimately show ?thesis using num(1) False by (simp add: n)
    qed
  qed
next
  case (JStr s)
  show ?case
  proof (unfold reads_back_def, intro allI impI)
    fix r n
    assume "2 * length (dumps fr (JStr s) @ r) + 1 \<le> n"
    then obtain m where "n = Suc m" by (cases n) auto
    with JStr show "scan_value n (dumps fr (JStr s) @ r) = Ok (JStr s) r"
      by (simp add: dumps_string_cons scan_string_dumps)
  qed
next
  case (JList xs)
  show ?case
  proof (unfold reads_back_def, intro allI impI)
    fix r n
    let ?t = "intercalate (us '', '') (map (dumps fr) xs) @ 93 # r"
    assume b: "2 * length (dumps fr (JList xs) @ r) + 1 \<le> n"
    then obtain m where n: "n = Suc m" by (cases n) auto
    show "scan_value n (dumps fr (JList xs) @ r) = Ok (JList xs) r"
    proof (cases xs)
      case (Cons x ys)
      have hd: "plain x" using JList.prems Cons by simp
      have "skip_ws ?t = ?t \<and> \<not> starts 93 ?t"
      proof -
        obtain t where "?t = dumps fr x @ t"
          using intercalate_first [of "us '', ''" "dumps fr x" "map (dumps fr) ys"]
          unfolding Cons list.map by blast
        then show ?thesis using skip_ws_dumps [OF hd] starts_dumps [OF hd] by simp
      qed
      moreover have "scan_items m ?t = Ok xs r"
        using JList b n Cons by (intro scan_items_dumps) (auto simp: list_all_iff)
      ultimately show ?thesis by (simp add: n)
    qed (simp add: n)
  qed
next
  case (JObj d)
  show ?case
  proof (unfold reads_back_def, intro allI impI)
    fix r n
    let ?t = "intercalate (us '', '') (map (dumps_member fr) d) @ 125 # r"
    assume b: "2 * length (dumps fr (JObj d) @ r) + 1 \<le> n"
    then obtain m where n: "n = Suc m" by (cases n) auto
    show "scan_value n (dumps fr (JObj d) @ r) = Ok (JObj d) r"
    proof (cases d)
      case (Cons kv kvs)
      obtain t1 where t1: "?t = dumps_member fr kv @ t1"
        using intercalate_first [of "us '', ''" "dumps_member fr kv" "map (dumps_member fr) kvs"]
        unfolding Cons list.map by blast
      moreover obtain t where "dumps_member fr kv @ t1 = 34 # t" using dumps_member_hd by blast
      ultimately have t: "?t = 34 # t" by (rule trans)
      have "plain v \<and> reads_back fr v \<and> clean k" if "(k, v) \<in> set d" for k v
        using that JObj by (fastforce simp: list_all_iff intro: snds.intros)
      then have "scan_members m ?t = Ok d r"
        using b n Cons by (intro scan_members_dumps) auto
      moreover have "dict_of d = d" using JObj.prems by (intro dict_of_distinct) simp
      ultimately show ?thesis by (simp add: n t)
    qed (simp add: n)
  qed
next
  case JNull
  show ?case
  proof (unfold reads_back_def, intro allI impI)
    fix r n
    assume "2 * length (dumps fr JNull @ r) + 1 \<le> n"
    then obtain m where "n = Suc m" by (cases n) auto
    then show "scan_value n (dumps fr JNull @ r) = Ok JNull r"
      using scan_word_Some(1) [of r] by (simp add: us_def)
  qed
next
  case (JBool b)
  show ?case
  proof (unfold reads_back_def, intro allI impI)
    fix r n
    assume "2 * length (dumps fr (JBool b) @ r) + 1 \<le> n"
    then obtain m where "n = Suc m" by (cases n) auto
    then show "scan_value n (dumps fr (JBool b) @ r) = Ok (JBool b) r"
      using scan_word_Some(2,3) [of r] by (cases b) (simp_all add: us_def)
  qed
qed simp

lemma loads_dumps:
  assumes "plain j"
  shows "loads (dumps fr j) = Loaded j"
proof -
  have "scan_value (json_fuel (dumps fr j)) (dumps fr j) = Ok j []"
    using reads_backD [OF dumps_reads_back [OF assms], where fr = fr and r = "[]" and n = "json_fuel (dumps fr j)"]
    by (simp add: json_fuel_def del: scan_value.simps)
  then show ?thesis using skip_ws_dumps [OF assms, of fr "[]"] by (simp add: loads_def)
qed

subsection \<open>The output of dumps is one line of ASCII\<close>

definition printable :: "nat \<Rightarrow> bool" where
  "printable c = (32 \<le> c \<and> c \<le> 126)"

lemma printable_numerals [simp]:
  "printable 32" "printable 34" "printable 44" "printable 45" "printable 58" "printable 91"
  "printable 92" "printable 93" "printable 117" "printable 123" "printable 125"
  by (simp_all add: printable_def)

lemma hex_digit_printable: "d < 16 \<Longrightarrow> printable (hex_digit d)"
  by (simp add: printable_def hex_digit_def)

lemma u_escape_printable: "list_all printable (u_escape n)"
  by (simp add: u_escape_def hex_digit_printable)

lemma escape_char_printable: "list_all printable (escape_char c)"
  using u_escape_printable by (auto simp: escape_char_def printable_def)

lemma dumps_string_printable: "list_all printable (dumps_string s)"
  using escape_char_printable by (auto simp: dumps_string_def printable_def list_all_iff)

lemma show_int_printable: "list_all printable (show_int i)"
proof -
  have "list_all printable (show_nat n)" for n
    by (rule list.pred_mono_strong [OF show_nat_digits]) (simp add: ascii_digit_def printable_def)
  then show ?thesis by (simp add: show_int_def)
qed

lemma intercalate_all:
  "list_all P sep \<Longrightarrow> (\<And>x. x \<in> set xs \<Longrightarrow> list_all P x) \<Longrightarrow> list_all P (intercalate sep xs)"
  by (induction xs rule: induct_list012) auto

lemma dumps_printable: "plain j \<Longrightarrow> list_all printable (dumps fr j)"
proof (induction j)
  case (JList xs)
  then show ?case
    by (auto simp: list_all_iff [of plain] comma intro!: intercalate_all)
next
  case (JObj d)
  have "list_all printable (dumps_member fr kv)" if "kv \<in> set d" for kv
    using JObj that dumps_string_printable
    by (cases kv) (fastforce simp: colon list_all_iff [of "\<lambda>(k, v). clean k \<and> plain v"]
        intro: snds.intros)
  then have "list_all printable (intercalate (us '', '') (map (dumps_member fr) d))"
    by (intro intercalate_all) (auto simp: comma)
  then show ?case by simp
qed (auto simp: us_def printable_def dumps_string_printable show_int_printable)

lemma printable_not_linebreak: "printable c \<Longrightarrow> \<not> is_linebreak c"
  by (auto simp: printable_def is_linebreak_def)

subsection \<open>The fuel of loads is enough\<close>

lemma length_skip_ws: "length (skip_ws s) \<le> length s"
  by (simp add: skip_ws_def length_dropWhile_le)

lemma starts_length: "starts c s \<Longrightarrow> length (tl s) < length s"
  by (cases s) auto

lemma map_scan_Ok: "map_scan f x = Ok v r \<longleftrightarrow> (\<exists>u. x = Ok u r \<and> v = f u)"
  by (cases x) auto

lemma map_scan_OutOfFuel: "map_scan f x = OutOfFuel \<longleftrightarrow> x = OutOfFuel"
  by (cases x) auto

lemma scan_string_length: "scan_string s = Ok t r \<Longrightarrow> length r < length s"
proof (induction s arbitrary: t rule: scan_string.induct)
  case (1 s)
  show ?case
  proof (cases s)
    case (Cons c u)
    then show ?thesis using 1
      by (auto simp: scan_string.simps [of "c # u"] map_scan_Ok
          split: if_splits option.splits dest!: unescape_length) (metis less_trans less_SucI)+
  qed (use 1 in \<open>simp add: scan_string.simps\<close>)
qed

lemma scan_string_fuel: "scan_string s \<noteq> OutOfFuel"
proof (induction s rule: scan_string.induct)
  case (1 s)
  show ?case
  proof (cases s)
    case (Cons c u)
    then show ?thesis using 1
      by (auto simp: scan_string.simps [of "c # u"] map_scan_OutOfFuel split: option.splits)
  qed (simp add: scan_string.simps)
qed

lemma scan_word_fuel: "scan_word s = Some x \<Longrightarrow> x \<noteq> OutOfFuel"
  by (auto simp: scan_word_def split: list.splits)

lemma scan_number_fuel: "scan_number s \<noteq> OutOfFuel"
  by (simp add: scan_number_def Let_def split: prod.splits)

lemma take_prefix_nonempty: "take (length p) s = p \<Longrightarrow> p \<noteq> [] \<Longrightarrow> s \<noteq> []"
  by auto

lemma scan_word_length: "scan_word s = Some (Ok v r) \<Longrightarrow> length r < length s"
  by (auto simp: scan_word_def split: list.splits if_splits dest!: take_prefix_nonempty)

lemma take_sign_length: "length (snd (take_sign s)) \<le> length s"
  by (cases s) auto

lemma number_frac_length: "number_frac r = (fp, r') \<Longrightarrow> length r' \<le> length r"
  by (auto simp: number_frac_def Let_def split: if_splits)

lemma number_exp_length:
  assumes "number_exp r = (e, r')"
  shows "length r' \<le> length r"
proof (cases "take_sign (tl r)")
  case (Pair neg u)
  then have "length u \<le> length r" using take_sign_length [of "tl r"] by simp
  with Pair assms show ?thesis by (auto simp: number_exp_def Let_def split: if_splits)
qed

lemma number_int_nonempty: "number_int t \<noteq> [] \<Longrightarrow> t \<noteq> []"
  by (auto simp: number_int_def split: if_splits)

lemma scan_number_length:
  assumes "scan_number s = Ok v r"
  shows "length r < length s"
proof -
  define t where "t = (if starts 45 s then tl s else s)"
  define ip where "ip = number_int t"
  obtain fp r2 where fr: "number_frac (drop (length ip) t) = (fp, r2)" by force
  obtain e r3 where ex: "number_exp r2 = (e, r3)" by force
  from assms have "ip \<noteq> []" and r: "r = r2 \<or> r = r3"
    using fr ex unfolding scan_number_def Let_def t_def [symmetric] ip_def [symmetric]
    by (auto split: if_splits)
  then have "t \<noteq> []" using number_int_nonempty by (simp add: ip_def)
  with \<open>ip \<noteq> []\<close> have "length (drop (length ip) t) < length t" by simp
  moreover have "length t \<le> length s" by (simp add: t_def)
  ultimately show ?thesis using r number_frac_length [OF fr] number_exp_length [OF ex] by auto
qed

lemmas scan_lengths = scan_string_length scan_number_length scan_word_length starts_length

lemma scan_length:
  "scan_value n s = Ok v r \<Longrightarrow> length r < length s"
  "scan_items n s = Ok vs r \<Longrightarrow> length r < length s"
  "scan_members n s = Ok kvs r \<Longrightarrow> length r < length s"
proof (induction n s and n s and n s arbitrary: v r and vs r and kvs r
    rule: scan_value_scan_items_scan_members.induct)
  case (2 n s)
  then show ?case using length_skip_ws [of "tl s"]
    by (fastforce simp: Let_def map_scan_Ok split: if_splits option.splits dest: scan_lengths)
next
  case (4 n s)
  from "4.prems" obtain v' r' where v: "scan_value n s = Ok v' r'" by (auto split: scan.splits)
  then show ?case
    using 4 length_skip_ws [of r'] length_skip_ws [of "tl (skip_ws r')"]
    by (fastforce simp: Let_def map_scan_Ok split: if_splits dest: starts_length)
next
  case (6 n s)
  from "6.prems" obtain k r' where k: "scan_string (tl s) = Ok k r'" "starts 34 s"
    by (auto split: scan.splits if_splits)
  moreover from this "6.prems" obtain v' r'' where
    v: "scan_value n (skip_ws (tl (skip_ws r'))) = Ok v' r''" "starts 58 (skip_ws r')"
    by (auto simp: Let_def split: scan.splits if_splits)
  moreover have "length r'' < length (skip_ws (tl (skip_ws r')))" using 6(1) k v by simp
  ultimately show ?case
    using 6 length_skip_ws [of r'] length_skip_ws [of "tl (skip_ws r')"] length_skip_ws [of r'']
      length_skip_ws [of "tl (skip_ws r'')"]
    by (fastforce simp: Let_def map_scan_Ok split: if_splits dest: scan_lengths)
qed simp_all

lemma scan_fuel:
  "2 * length s + 1 \<le> n \<Longrightarrow> scan_value n s \<noteq> OutOfFuel"
  "2 * length s + 2 \<le> n \<Longrightarrow> scan_items n s \<noteq> OutOfFuel"
  "2 * length s + 2 \<le> n \<Longrightarrow> scan_members n s \<noteq> OutOfFuel"
proof (induction n s and n s and n s rule: scan_value_scan_items_scan_members.induct)
  case (2 n s)
  let ?t = "skip_ws (tl s)"
  have t: "2 * length ?t + 2 \<le> n" if "starts c s" for c
    using 2(3) length_skip_ws [of "tl s"] starts_length [OF that] by linarith
  consider "starts 34 s" | "\<not> starts 34 s" "starts 123 s"
    | "\<not> starts 34 s" "\<not> starts 123 s" "starts 91 s"
    | "\<not> starts 34 s" "\<not> starts 123 s" "\<not> starts 91 s" by blast
  then show ?case
  proof cases
    case 1
    then show ?thesis using scan_string_fuel by (simp add: map_scan_OutOfFuel)
  next
    case a: 2
    then show ?thesis using 2(1) t [OF a(2)] by (simp add: Let_def map_scan_OutOfFuel)
  next
    case 3
    then show ?thesis using 2(2) t [OF 3(3)] by (simp add: Let_def map_scan_OutOfFuel)
  next
    case 4
    then show ?thesis using scan_number_fuel scan_word_fuel by (simp split: option.split)
  qed
next
  case (4 n s)
  show ?case
  proof (cases "scan_value n s")
    case (Ok v r)
    have "2 * length (skip_ws (tl (skip_ws r))) + 2 \<le> n" if "starts 44 (skip_ws r)"
      using 4(3) scan_length(1) [OF Ok] length_skip_ws [of r] length_skip_ws [of "tl (skip_ws r)"]
        starts_length [OF that] by linarith
    then show ?thesis using 4(2) [OF Ok refl] Ok by (auto simp: Let_def map_scan_OutOfFuel)
  qed (use 4 in auto)
next
  case (6 n s)
  show ?case
  proof (cases "starts 34 s")
    case True
    show ?thesis
    proof (cases "scan_string (tl s)")
      case (Ok k r)
      let ?u = "skip_ws (tl (skip_ws r))"
      have u: "2 * length ?u + 4 \<le> n" if "starts 58 (skip_ws r)"
        using 6(3) scan_string_length [OF Ok] starts_length [OF True] starts_length [OF that]
          length_skip_ws [of r] length_skip_ws [of "tl (skip_ws r)"] by linarith
      show ?thesis
      proof (cases "starts 58 (skip_ws r)")
        case colon: True
        show ?thesis
        proof (cases "scan_value n ?u")
          case v: (Ok v r')
          have "2 * length (skip_ws (tl (skip_ws r'))) + 2 \<le> n" if "starts 44 (skip_ws r')"
            using u [OF colon] scan_length(1) [OF v] starts_length [OF that]
              length_skip_ws [of r'] length_skip_ws [of "tl (skip_ws r')"] by linarith
          then show ?thesis using 6(2) [OF True Ok refl colon v refl] Ok True colon v
            by (auto simp: Let_def map_scan_OutOfFuel)
        next
          case OutOfFuel
          with 6(1) [OF True Ok refl colon] u [OF colon] show ?thesis by simp
        qed (use Ok colon True in \<open>auto simp: Let_def\<close>)
      qed (use Ok True in \<open>simp add: Let_def\<close>)
    qed (use scan_string_fuel in auto)
  qed simp
qed simp_all

lemma json_fuel_enough: "scan_value (json_fuel s) s \<noteq> OutOfFuel"
  by (rule scan_fuel) (simp add: json_fuel_def)

end
