(* ===== verification/PyCodec.thy ===== *)
theory PyCodec
  imports PyText
begin

text \<open>
  UTF-8 as the code uses it: \<open>str.encode("utf-8")\<close>, which refuses surrogates, and
  \<open>bytes.decode("utf-8", errors="replace")\<close>, which puts U+FFFD for each maximal ill-formed
  part and never fails.
\<close>

type_synonym bytes = "8 word list"

definition is_cont :: "nat \<Rightarrow> bool" where
  "is_cont b = (128 \<le> b \<and> b \<le> 191)"

text \<open>The second byte a three- or four-byte sequence may have after its first.\<close>

definition second_ok :: "nat \<Rightarrow> nat \<Rightarrow> bool" where
  "second_ok a b =
     (if a = 224 then 160 \<le> b \<and> b \<le> 191
      else if a = 237 then 128 \<le> b \<and> b \<le> 159
      else if a = 240 then 144 \<le> b \<and> b \<le> 191
      else if a = 244 then 128 \<le> b \<and> b \<le> 143
      else is_cont b)"

fun utf8_points :: "nat list \<Rightarrow> ustring" where
  "utf8_points [] = []"
| "utf8_points (a # r) =
     (if a < 128 then a # utf8_points r
      else if 194 \<le> a \<and> a \<le> 223 then
        (case r of
           b # r1 \<Rightarrow>
             if is_cont b then ((a - 192) * 64 + (b - 128)) # utf8_points r1
             else 65533 # utf8_points r
         | [] \<Rightarrow> [65533])
      else if 224 \<le> a \<and> a \<le> 239 then
        (case r of
           b # r1 \<Rightarrow>
             if second_ok a b then
               (case r1 of
                  c # r2 \<Rightarrow>
                    if is_cont c
                    then ((a - 224) * 4096 + (b - 128) * 64 + (c - 128)) # utf8_points r2
                    else 65533 # utf8_points r1
                | [] \<Rightarrow> [65533])
             else 65533 # utf8_points r
         | [] \<Rightarrow> [65533])
      else if 240 \<le> a \<and> a \<le> 244 then
        (case r of
           b # r1 \<Rightarrow>
             if second_ok a b then
               (case r1 of
                  c # r2 \<Rightarrow>
                    if is_cont c then
                      (case r2 of
                         d # r3 \<Rightarrow>
                           if is_cont d
                           then ((a - 240) * 262144 + (b - 128) * 4096 + (c - 128) * 64 + (d - 128))
                                  # utf8_points r3
                           else 65533 # utf8_points r2
                       | [] \<Rightarrow> [65533])
                    else 65533 # utf8_points r1
                | [] \<Rightarrow> [65533])
             else 65533 # utf8_points r
         | [] \<Rightarrow> [65533])
      else 65533 # utf8_points r)"

declare utf8_points.simps(2) [simp del]

text \<open>One well-formed sequence at the front is one code point.\<close>

lemma utf8_points_1: "a < 128 \<Longrightarrow> utf8_points (a # r) = a # utf8_points r"
  by (subst utf8_points.simps) simp

lemma utf8_points_2:
  "194 \<le> a \<Longrightarrow> a \<le> 223 \<Longrightarrow> is_cont b \<Longrightarrow>
     utf8_points (a # b # r) = ((a - 192) * 64 + (b - 128)) # utf8_points r"
  by (subst utf8_points.simps) simp

lemma utf8_points_3:
  "224 \<le> a \<Longrightarrow> a \<le> 239 \<Longrightarrow> second_ok a b \<Longrightarrow> is_cont c \<Longrightarrow>
     utf8_points (a # b # c # r) =
       ((a - 224) * 4096 + (b - 128) * 64 + (c - 128)) # utf8_points r"
  by (subst utf8_points.simps) simp

lemma utf8_points_4:
  "240 \<le> a \<Longrightarrow> a \<le> 244 \<Longrightarrow> second_ok a b \<Longrightarrow> is_cont c \<Longrightarrow> is_cont d \<Longrightarrow>
     utf8_points (a # b # c # d # r) =
       ((a - 240) * 262144 + (b - 128) * 4096 + (c - 128) * 64 + (d - 128)) # utf8_points r"
  by (subst utf8_points.simps) simp

definition utf8_decode :: "bytes \<Rightarrow> ustring" where
  "utf8_decode bs = utf8_points (map unat bs)"

text \<open>A code point that UTF-8 can carry: not a surrogate, at most U+10FFFF.\<close>

definition scalar :: "nat \<Rightarrow> bool" where
  "scalar c = (c < 1114112 \<and> \<not> (55296 \<le> c \<and> c \<le> 57343))"

definition utf8_char :: "nat \<Rightarrow> nat list" where
  "utf8_char c =
     (if c < 128 then [c]
      else if c < 2048 then [192 + c div 64, 128 + c mod 64]
      else if c < 65536 then [224 + c div 4096, 128 + c div 64 mod 64, 128 + c mod 64]
      else [240 + c div 262144, 128 + c div 4096 mod 64, 128 + c div 64 mod 64, 128 + c mod 64])"

text \<open>\<open>None\<close> is UnicodeEncodeError.\<close>

definition utf8_encode :: "ustring \<Rightarrow> bytes option" where
  "utf8_encode s =
     (if list_all scalar s then Some (map of_nat (concat (map utf8_char s))) else None)"

lemma utf8_char_byte: "scalar c \<Longrightarrow> b \<in> set (utf8_char c) \<Longrightarrow> b < 256"
  by (auto simp: utf8_char_def scalar_def split: if_splits)

lemma base64_split: "c div 64 = c div 4096 * 64 + c div 64 mod 64" for c :: nat
proof -
  have "c div 4096 = c div 64 div 64" by (simp flip: div_mult2_eq)
  then show ?thesis by (metis div_mult_mod_eq)
qed

lemma base64_split2: "c div 4096 = c div 262144 * 64 + c div 4096 mod 64" for c :: nat
proof -
  have "c div 262144 = c div 4096 div 64" by (simp flip: div_mult2_eq)
  then show ?thesis by (metis div_mult_mod_eq)
qed

lemma base64_low: "c = c div 64 * 64 + c mod 64" for c :: nat
  by simp

lemma utf8_points_char2:
  assumes "128 \<le> c" "c < 2048"
  shows "utf8_points (utf8_char c @ r) = c # utf8_points r"
proof -
  define a where "a = c div 64"
  define d where "d = c mod 64"
  have c: "c = a * 64 + d" and d: "d < 64" by (simp_all add: a_def d_def)
  have a: "2 \<le> a" "a < 32" using assms c d by linarith+
  have "utf8_char c = [192 + a, 128 + d]"
    using assms by (simp add: utf8_char_def a_def d_def)
  then show ?thesis using a d c by (simp add: utf8_points_2 is_cont_def)
qed

lemma utf8_points_char3:
  assumes "2048 \<le> c" "c < 65536" "\<not> (55296 \<le> c \<and> c \<le> 57343)"
  shows "utf8_points (utf8_char c @ r) = c # utf8_points r"
proof -
  define a where "a = c div 4096"
  define b where "b = c div 64 mod 64"
  define d where "d = c mod 64"
  have c: "c = (a * 64 + b) * 64 + d"
    using base64_low [of c] base64_split [of c] unfolding a_def b_def d_def by simp
  have bd: "b < 64" "d < 64" by (simp_all add: b_def d_def)
  have a: "a \<le> 15" using assms(2) unfolding a_def by auto
  have "a = 0 \<Longrightarrow> 32 \<le> b" using assms(1) c bd by auto
  moreover have "a = 13 \<Longrightarrow> b \<le> 31" using assms(3) c bd by auto
  ultimately have ok: "second_ok (224 + a) (128 + b)"
    using a bd by (auto simp: second_ok_def is_cont_def)
  have "utf8_char c = [224 + a, 128 + b, 128 + d]"
    using assms by (simp add: utf8_char_def a_def b_def d_def)
  then show ?thesis using a bd ok c by (simp add: utf8_points_3 is_cont_def)
qed

lemma utf8_points_char4:
  assumes "65536 \<le> c" "c < 1114112"
  shows "utf8_points (utf8_char c @ r) = c # utf8_points r"
proof -
  define a where "a = c div 262144"
  define b where "b = c div 4096 mod 64"
  define d where "d = c div 64 mod 64"
  define e where "e = c mod 64"
  have c: "c = ((a * 64 + b) * 64 + d) * 64 + e"
    using base64_low [of c] base64_split [of c] base64_split2 [of c]
    unfolding a_def b_def d_def e_def by simp
  have bde: "b < 64" "d < 64" "e < 64" by (simp_all add: b_def d_def e_def)
  have a: "a \<le> 4" using assms(2) unfolding a_def by auto
  have "a = 0 \<Longrightarrow> 16 \<le> b" using assms(1) c bde by auto
  moreover have "a = 4 \<Longrightarrow> b \<le> 15" using assms(2) c bde by auto
  ultimately have ok: "second_ok (240 + a) (128 + b)"
    using a bde by (auto simp: second_ok_def is_cont_def)
  have "utf8_char c = [240 + a, 128 + b, 128 + d, 128 + e]"
    using assms by (simp add: utf8_char_def a_def b_def d_def e_def)
  then show ?thesis using a bde ok c by (simp add: utf8_points_4 is_cont_def)
qed

lemma utf8_points_char: "scalar c \<Longrightarrow> utf8_points (utf8_char c @ r) = c # utf8_points r"
proof -
  assume s: "scalar c"
  consider "c < 128" | "128 \<le> c" "c < 2048" | "2048 \<le> c" "c < 65536" | "65536 \<le> c" by linarith
  then show ?thesis
  proof cases
    case 1
    then show ?thesis by (simp add: utf8_char_def utf8_points_1)
  qed (use s utf8_points_char2 utf8_points_char3 utf8_points_char4 in \<open>auto simp: scalar_def\<close>)
qed

lemma utf8_points_chars: "list_all scalar s \<Longrightarrow> utf8_points (concat (map utf8_char s)) = s"
proof (induction s)
  case (Cons c s)
  then show ?case using utf8_points_char [of c "concat (map utf8_char s)"] by simp
qed simp

lemma utf8_roundtrip:
  assumes "utf8_encode s = Some bs"
  shows "utf8_decode bs = s"
proof -
  from assms have sc: "list_all scalar s" and bs: "bs = map of_nat (concat (map utf8_char s))"
    by (auto simp: utf8_encode_def split: if_splits)
  have "\<forall>b \<in> set (concat (map utf8_char s)). b < 256"
    using sc utf8_char_byte by (auto simp: list_all_iff)
  then have "map unat (map (of_nat :: nat \<Rightarrow> 8 word) (concat (map utf8_char s)))
      = concat (map utf8_char s)"
    by (intro map_idI [of _ "unat \<circ> of_nat", unfolded map_map [symmetric]]) (auto simp: unat_of_nat)
  then show ?thesis by (simp add: utf8_decode_def bs utf8_points_chars sc del: map_concat)
qed

lemma ascii_scalar: "c < 128 \<Longrightarrow> scalar c"
  by (simp add: scalar_def)

lemma utf8_encode_ascii: "list_all (\<lambda>c. c < 128) s \<Longrightarrow> utf8_encode s = Some (map of_nat s)"
proof -
  assume a: "list_all (\<lambda>c. c < 128) s"
  then have "map utf8_char s = map (\<lambda>c. [c]) s" by (auto simp: list_all_iff utf8_char_def)
  then have "concat (map utf8_char s) = s" by (simp only: concat_map_singleton) simp
  with a show ?thesis by (auto simp: utf8_encode_def list_all_iff ascii_scalar)
qed

end
