(* ===== verification/PyBytes.thy ===== *)
theory PyBytes
  imports Json PyCodec
begin

text \<open>
  \<open>json.loads\<close> of bytes: the encoding is guessed from the first bytes (\<open>json.detect_encoding\<close>)
  and the text decoded with \<open>surrogatepass\<close>, under which an encoded surrogate stands for itself
  and anything else ill-formed raises UnicodeDecodeError (\<open>None\<close>).
\<close>

subsection \<open>The three decoders\<close>

fun utf8_pass :: "nat list \<Rightarrow> ustring option" where
  "utf8_pass [] = Some []"
| "utf8_pass (a # r) =
     (if a < 128 then map_option ((#) a) (utf8_pass r)
      else if 194 \<le> a \<and> a \<le> 223 then
        (case r of
           b # r1 \<Rightarrow>
             if is_cont b then map_option ((#) ((a - 192) * 64 + (b - 128))) (utf8_pass r1) else None
         | [] \<Rightarrow> None)
      else if 224 \<le> a \<and> a \<le> 239 then
        (case r of
           b # c # r2 \<Rightarrow>
             if (second_ok a b \<or> a = 237 \<and> is_cont b) \<and> is_cont c
             then map_option ((#) ((a - 224) * 4096 + (b - 128) * 64 + (c - 128))) (utf8_pass r2)
             else None
         | _ \<Rightarrow> None)
      else if 240 \<le> a \<and> a \<le> 244 then
        (case r of
           b # c # d # r3 \<Rightarrow>
             if second_ok a b \<and> is_cont c \<and> is_cont d
             then map_option
                    ((#) ((a - 240) * 262144 + (b - 128) * 4096 + (c - 128) * 64 + (d - 128)))
                    (utf8_pass r3)
             else None
         | _ \<Rightarrow> None)
      else None)"

declare utf8_pass.simps(2) [simp del]

text \<open>\<open>unit\<close> joins two bytes in the order of the encoding.\<close>

fun utf16_pass :: "(nat \<Rightarrow> nat \<Rightarrow> nat) \<Rightarrow> nat list \<Rightarrow> ustring option" where
  "utf16_pass unit [] = Some []"
| "utf16_pass unit [a] = None"
| "utf16_pass unit (a # b # r) =
     (let u = unit a b
      in if high_surrogate u
         then (case r of
                 c # d # r' \<Rightarrow>
                   if low_surrogate (unit c d)
                   then map_option ((#) (65536 + (u - 55296) * 1024 + (unit c d - 56320)))
                          (utf16_pass unit r')
                   else map_option ((#) u) (utf16_pass unit r)
               | _ \<Rightarrow> map_option ((#) u) (utf16_pass unit r))
         else map_option ((#) u) (utf16_pass unit r))"

fun utf32_pass :: "(nat \<Rightarrow> nat \<Rightarrow> nat \<Rightarrow> nat \<Rightarrow> nat) \<Rightarrow> nat list \<Rightarrow> ustring option" where
  "utf32_pass unit [] = Some []"
| "utf32_pass unit (a # b # c # d # r) =
     (if unit a b c d < 1114112 then map_option ((#) (unit a b c d)) (utf32_pass unit r) else None)"
| "utf32_pass unit _ = None"

definition big16 :: "nat \<Rightarrow> nat \<Rightarrow> nat" where
  "big16 a b = a * 256 + b"

definition little16 :: "nat \<Rightarrow> nat \<Rightarrow> nat" where
  "little16 a b = big16 b a"

definition big32 :: "nat \<Rightarrow> nat \<Rightarrow> nat \<Rightarrow> nat \<Rightarrow> nat" where
  "big32 a b c d = big16 a b * 65536 + big16 c d"

definition little32 :: "nat \<Rightarrow> nat \<Rightarrow> nat \<Rightarrow> nat \<Rightarrow> nat" where
  "little32 a b c d = big32 d c b a"

subsection \<open>Guessing the encoding\<close>

text \<open>
  A byte order mark decides, the four-byte ones first; without one, where the first zero bytes
  stand. The decoder of a mark drops it.
\<close>

definition decoder_without_mark :: "nat list \<Rightarrow> nat list \<Rightarrow> ustring option" where
  "decoder_without_mark b =
     (if 4 \<le> length b then
        (if b ! 0 = 0 then (if b ! 1 \<noteq> 0 then utf16_pass big16 else utf32_pass big32)
         else if b ! 1 = 0
         then (if b ! 2 \<noteq> 0 \<or> b ! 3 \<noteq> 0 then utf16_pass little16 else utf32_pass little32)
         else utf8_pass)
      else if length b = 2 then
        (if b ! 0 = 0 then utf16_pass big16 else if b ! 1 = 0 then utf16_pass little16 else utf8_pass)
      else utf8_pass)"

definition json_text :: "nat list \<Rightarrow> ustring option" where
  "json_text b =
     (case drop_prefix [0, 0, 254, 255] b of Some r \<Rightarrow> utf32_pass big32 r | None \<Rightarrow>
     (case drop_prefix [255, 254, 0, 0] b of Some r \<Rightarrow> utf32_pass little32 r | None \<Rightarrow>
     (case drop_prefix [254, 255] b of Some r \<Rightarrow> utf16_pass big16 r | None \<Rightarrow>
     (case drop_prefix [255, 254] b of Some r \<Rightarrow> utf16_pass little16 r | None \<Rightarrow>
     (case drop_prefix [239, 187, 191] b of Some r \<Rightarrow> utf8_pass r | None \<Rightarrow>
        decoder_without_mark b b)))))"

subsection \<open>The whole call\<close>

text \<open>The exceptions of \<open>json.loads\<close>; what their messages say about positions is left out.\<close>

definition int_too_long :: exn where
  "int_too_long = Exn (us ''ValueError'')
     (us ''Exceeds the limit (4300 digits) for integer string conversion'')"

definition json_error_exn :: exn where
  "json_error_exn = Exn (us ''JSONDecodeError'') (us ''Expecting value'')"

definition bad_bytes :: exn where
  "bad_bytes = Exn (us ''UnicodeDecodeError'') (us ''invalid bytes'')"

definition loaded_value :: "loaded \<Rightarrow> exn + json" where
  "loaded_value l =
     (case l of Loaded j \<Rightarrow> Inr j | JSONDecodeError \<Rightarrow> Inl json_error_exn | IntTooLong \<Rightarrow> Inl int_too_long)"

definition loads_bytes :: "bytes \<Rightarrow> exn + json" where
  "loads_bytes bs =
     (case json_text (map unat bs) of None \<Rightarrow> Inl bad_bytes | Some s \<Rightarrow> loaded_value (loads s))"

text \<open>ASCII text of JSON is read as it is: it has no mark and no zero byte.\<close>

lemma utf8_pass_ascii: "list_all (\<lambda>c. c < 128) s \<Longrightarrow> utf8_pass s = Some s"
  by (induction s) (simp_all add: utf8_pass.simps)

lemma drop_prefix_no:
  "p \<noteq> [] \<Longrightarrow> hd p \<notin> set s \<Longrightarrow> drop_prefix p s = None"
  by (cases p; cases s) (auto simp: drop_prefix_def)

lemma json_text_ascii:
  assumes "list_all (\<lambda>c. 0 < c \<and> c < 128) s"
  shows "json_text s = Some s"
proof -
  have nz: "s ! i \<noteq> 0" if "i < length s" for i using assms that by (auto simp: list_all_length)
  have "decoder_without_mark s = utf8_pass"
  proof (cases "2 \<le> length s")
    case True
    with nz [of 0] nz [of 1] have "s ! 0 \<noteq> 0" "s ! 1 \<noteq> 0" by linarith+
    then show ?thesis by (simp add: decoder_without_mark_def)
  qed (simp add: decoder_without_mark_def)
  moreover have "255 \<notin> set s" "254 \<notin> set s" "239 \<notin> set s" "0 \<notin> set s"
    using assms by (auto simp: list_all_iff)
  moreover have "utf8_pass s = Some s"
    using assms by (intro utf8_pass_ascii) (auto simp: list_all_iff)
  ultimately show ?thesis by (simp add: json_text_def drop_prefix_no)
qed

lemma loads_bytes_ascii:
  assumes "list_all (\<lambda>c. 0 < c \<and> c < 128) s"
  shows "loads_bytes (map of_nat s) = loaded_value (loads s)"
proof -
  have "map unat (map of_nat s :: bytes) = s"
    using assms by (induction s) (simp_all add: unat_of_nat)
  then show ?thesis using json_text_ascii [OF assms] by (simp add: loads_bytes_def del: map_map)
qed

lemma loads_bytes_errors: "loads_bytes bs = Inl e \<Longrightarrow> e \<in> {bad_bytes, json_error_exn, int_too_long}"
  by (auto simp: loads_bytes_def loaded_value_def split: option.splits loaded.splits)

text \<open>Where it decodes, and to no surrogate, \<open>errors="replace"\<close> decodes to the same text.\<close>

lemma utf8_pass_points:
  "utf8_pass b = Some s \<Longrightarrow> \<forall>c \<in> set s. \<not> (55296 \<le> c \<and> c \<le> 57343) \<Longrightarrow> utf8_points b = s"
proof (induction b arbitrary: s rule: utf8_pass.induct)
  case (2 a r)
  consider (one) "a < 128" | (two) "194 \<le> a" "a \<le> 223" | (three) "224 \<le> a" "a \<le> 239"
    | (four) "240 \<le> a" "a \<le> 244" | (none) "128 \<le> a" "a < 194 \<or> 244 < a" by linarith
  then show ?case
  proof cases
    case one
    with "2.prems" obtain s' where s: "s = a # s'" "utf8_pass r = Some s'"
      by (auto simp: utf8_pass.simps(2))
    with "2.IH"(1) one "2.prems"(2) show ?thesis by (simp add: utf8_points_1)
  next
    case two
    with "2.prems"(1) obtain b r1 s' where s: "r = b # r1" "is_cont b" "utf8_pass r1 = Some s'"
      "s = ((a - 192) * 64 + (b - 128)) # s'"
      by (auto simp: utf8_pass.simps(2) split: list.splits if_splits)
    with "2.IH"(2) [of b r1 s'] two "2.prems"(2) show ?thesis by (simp add: utf8_points_2)
  next
    case three
    with "2.prems"(1) obtain b c r2 s' where s: "r = b # c # r2" "second_ok a b \<or> a = 237 \<and> is_cont b"
      "is_cont c" "utf8_pass r2 = Some s'" "s = ((a - 224) * 4096 + (b - 128) * 64 + (c - 128)) # s'"
      by (auto simp: utf8_pass.simps(2) split: list.splits if_splits)
    have "second_ok a b"
    proof (rule ccontr)
      assume "\<not> second_ok a b"
      with s(2) have "a = 237" "160 \<le> b" "b \<le> 191" by (auto simp: second_ok_def is_cont_def)
      with s(3,5) "2.prems"(2) show False by (auto simp: is_cont_def)
    qed
    with "2.IH"(3) [of b "c # r2" c r2 s'] three s "2.prems"(2) show ?thesis by (simp add: utf8_points_3)
  next
    case four
    with "2.prems"(1) obtain b c d r3 s' where s: "r = b # c # d # r3" "second_ok a b" "is_cont c"
      "is_cont d" "utf8_pass r3 = Some s'"
      "s = ((a - 240) * 262144 + (b - 128) * 4096 + (c - 128) * 64 + (d - 128)) # s'"
      by (auto simp: utf8_pass.simps(2) split: list.splits if_splits)
    with "2.IH"(4) [of b "c # d # r3" c "d # r3" d r3 s'] four "2.prems"(2)
    show ?thesis by (simp add: utf8_points_4)
  qed (use "2.prems" in \<open>auto simp: utf8_pass.simps(2)\<close>)
qed simp

end
