(* ===== verification/IpAddress.thy ===== *)
theory IpAddress
  imports PyNumber
begin

text \<open>
  \<open>ipaddress.ip_address(s).is_loopback\<close> of CPython 3.11, which \<open>config.is_loopback_host\<close> and
  so the Host guard rest on: the strict dotted-quad and colon-hex readers of the library, with
  its refusals (leading zeros, non-ASCII digits, misplaced \<open>::\<close>). Addresses are numbers.
\<close>

fun traverse :: "('a \<Rightarrow> 'b option) \<Rightarrow> 'a list \<Rightarrow> 'b list option" where
  "traverse f [] = Some []"
| "traverse f (x # xs) =
     (case f x of None \<Rightarrow> None
      | Some y \<Rightarrow> (case traverse f xs of None \<Rightarrow> None | Some ys \<Rightarrow> Some (y # ys)))"

definition parse_octet :: "ustring \<Rightarrow> nat option" where
  "parse_octet s =
     (if s = [] \<or> \<not> list_all ascii_digit s \<or> length s > 3 \<or> (s \<noteq> [48] \<and> hd s = 48) then None
      else (let n = nat (digits_value (dec_digits s)) in if n > 255 then None else Some n))"

definition parse_ipv4 :: "ustring \<Rightarrow> nat option" where
  "parse_ipv4 s =
     (if List.member s 47 then None
      else (let octets = split_on 46 s
            in if length octets \<noteq> 4 then None
               else map_option (foldl (\<lambda>n b. n * 256 + b) 0) (traverse parse_octet octets)))"

definition hex_digit_value :: "nat \<Rightarrow> nat option" where
  "hex_digit_value c =
     (if 48 \<le> c \<and> c \<le> 57 then Some (c - 48)
      else if 97 \<le> c \<and> c \<le> 102 then Some (c - 87)
      else if 65 \<le> c \<and> c \<le> 70 then Some (c - 55)
      else None)"

definition parse_hextet :: "ustring \<Rightarrow> nat option" where
  "parse_hextet s =
     (if length s > 4 \<or> s = [] then None
      else map_option (foldl (\<lambda>n d. n * 16 + d) 0) (traverse hex_digit_value s))"

text \<open>A part that \<open>'%x' % n\<close> would write, kept as the number it reads back to.\<close>

datatype part = Hex ustring | Num nat

definition part_empty :: "part \<Rightarrow> bool" where
  "part_empty p = (case p of Hex s \<Rightarrow> s = [] | Num _ \<Rightarrow> False)"

definition part_value :: "part \<Rightarrow> nat option" where
  "part_value p = (case p of Hex s \<Rightarrow> parse_hextet s | Num n \<Rightarrow> Some n)"

text \<open>The parts between colons, a dotted suffix turned into two of them.\<close>

definition ipv6_parts :: "ustring \<Rightarrow> part list option" where
  "ipv6_parts s =
     (let parts = split_on 58 s
      in if s = [] \<or> length parts < 3 then None
         else if List.member (last parts) 46
         then (case parse_ipv4 (last parts) of
                 None \<Rightarrow> None
               | Some v \<Rightarrow> Some (map Hex (butlast parts) @ [Num (v div 65536 mod 65536), Num (v mod 65536)]))
         else Some (map Hex parts))"

definition hextets :: "nat \<Rightarrow> part list \<Rightarrow> nat option" where
  "hextets n ps = map_option (foldl (\<lambda>m h. m * 65536 + h) n) (traverse part_value ps)"

definition ipv6_of_parts :: "part list \<Rightarrow> nat option" where
  "ipv6_of_parts parts =
     (let skips = filter (\<lambda>i. part_empty (parts ! i)) [1..<length parts - 1]
      in if length parts > 9 \<or> length skips > 1 then None
         else case skips of
           skip # _ \<Rightarrow>
             (let hi = (if part_empty (hd parts) then skip - 1 else skip);
                  lo0 = length parts - skip - 1;
                  lo = (if part_empty (last parts) then lo0 - 1 else lo0)
              in if part_empty (hd parts) \<and> hi \<noteq> 0 \<or> part_empty (last parts) \<and> lo \<noteq> 0
                   \<or> hi + lo > 7
                 then None
                 else (case hextets 0 (take hi parts) of
                         None \<Rightarrow> None
                       | Some n \<Rightarrow>
                           hextets (n * 65536 ^ (8 - (hi + lo))) (drop (length parts - lo) parts)))
         | [] \<Rightarrow>
             (if length parts \<noteq> 8 \<or> part_empty (hd parts) \<or> part_empty (last parts) then None
              else hextets 0 parts))"

definition parse_ipv6 :: "ustring \<Rightarrow> nat option" where
  "parse_ipv6 s =
     (if List.member s 47 then None
      else (case find_char 37 s of
              None \<Rightarrow> Option.bind (ipv6_parts s) ipv6_of_parts
            | Some i \<Rightarrow>
                (let scope = drop (Suc i) s
                 in if scope = [] \<or> List.member scope 37 then None
                    else Option.bind (ipv6_parts (take i s)) ipv6_of_parts)))"

datatype ip = V4 nat | V6 nat

definition ip_address :: "ustring \<Rightarrow> ip option" where
  "ip_address s =
     (case parse_ipv4 s of Some n \<Rightarrow> Some (V4 n) | None \<Rightarrow> map_option V6 (parse_ipv6 s))"

fun is_loopback :: "ip \<Rightarrow> bool" where
  "is_loopback (V4 n) = (n div 16777216 = 127)"
| "is_loopback (V6 n) = (n = 1)"

subsection \<open>Facts\<close>

lemma parse_octet_bound: "parse_octet s = Some n \<Longrightarrow> n \<le> 255"
  by (auto simp: parse_octet_def Let_def split: if_splits)

lemma length4: "length xs = 4 \<longleftrightarrow> (\<exists>a b c d. xs = [a, b, c, d])"
  by (auto simp: length_Suc_conv numeral_eq_Suc)

lemma traverse4:
  "traverse f [w, x, y, z] = Some ys \<longleftrightarrow>
     (\<exists>a b c d. ys = [a, b, c, d] \<and> f w = Some a \<and> f x = Some b \<and> f y = Some c \<and> f z = Some d)"
  by (auto split: option.splits)

text \<open>A dotted quad reads as its four octets.\<close>

lemma parse_ipv4_octets:
  "parse_ipv4 s = Some n \<longleftrightarrow>
     47 \<notin> set s \<and>
     (\<exists>w x y z a b c d. split_on 46 s = [w, x, y, z] \<and> parse_octet w = Some a \<and>
        parse_octet x = Some b \<and> parse_octet y = Some c \<and> parse_octet z = Some d \<and>
        n = ((a * 256 + b) * 256 + c) * 256 + d)"
  by (auto simp: parse_ipv4_def Let_def length4 traverse4 simp del: traverse.simps)

lemma loopback_v4_octet:
  assumes "parse_ipv4 s = Some n"
  shows "n div 16777216 = 127 \<longleftrightarrow> parse_octet (hd (split_on 46 s)) = Some 127"
proof -
  from assms obtain w x y z a b c d where s: "split_on 46 s = [w, x, y, z]"
    and o: "parse_octet w = Some a" "parse_octet x = Some b" "parse_octet y = Some c"
      "parse_octet z = Some d" and n: "n = ((a * 256 + b) * 256 + c) * 256 + d"
    by (auto simp: parse_ipv4_octets)
  have "n = a * 16777216 + (b * 65536 + c * 256 + d)" using n by simp
  moreover have "b * 65536 + c * 256 + d < 16777216"
    using o(2-4) [THEN parse_octet_bound] by simp
  ultimately have "n div 16777216 = a" by simp
  then show ?thesis using s o(1) by simp
qed

lemma parse_octet_show_nat:
  assumes "n \<le> 255"
  shows "parse_octet (show_nat n) = Some n"
proof -
  have dig: "list_all ascii_digit (show_nat n)" by (rule show_nat_digits)
  have len: "length (show_nat n) \<le> 3"
    using assms by (simp add: show_nat.simps [of n] show_nat.simps [of "n div 10"]
        show_nat.simps [of "n div 10 div 10"])
  have zero: "show_nat n = [48] \<or> hd (show_nat n) \<noteq> 48"
    using show_nat_no_leading_zero [of n] show_nat.simps [of 0] by (cases "n = 0") auto
  have "dec_digits (show_nat n) = map (\<lambda>c. c - 48) (show_nat n)"
    unfolding dec_digits_def using dig
    by (intro map_cong) (auto simp: list_all_iff ascii_digit_decimal_of)
  then have "nat (digits_value (dec_digits (show_nat n))) = n"
    by (simp only: digits_value_show_nat nat_int)
  then show ?thesis
    using dig len zero assms show_nat_nonempty [of n] by (simp add: parse_octet_def)
qed

definition show_ipv4 :: "nat \<Rightarrow> nat \<Rightarrow> nat \<Rightarrow> nat \<Rightarrow> ustring" where
  "show_ipv4 a b c d = show_nat a @ 46 # show_nat b @ 46 # show_nat c @ 46 # show_nat d"

lemma show_nat_no_char: "\<not> ascii_digit c \<Longrightarrow> c \<notin> set (show_nat n)"
  using show_nat_digits [of n] by (auto simp: list_all_iff)

lemma parse_show_ipv4:
  assumes "a \<le> 255" "b \<le> 255" "c \<le> 255" "d \<le> 255"
  shows "parse_ipv4 (show_ipv4 a b c d) = Some (((a * 256 + b) * 256 + c) * 256 + d)"
proof -
  have dot: "46 \<notin> set (show_nat n)" and slash: "47 \<notin> set (show_nat n)" for n
    by (rule show_nat_no_char, simp add: ascii_digit_def)+
  have "split_on 46 (show_ipv4 a b c d) = [show_nat a, show_nat b, show_nat c, show_nat d]"
    by (simp add: show_ipv4_def split_on_cons split_on_none dot)
  moreover have "47 \<notin> set (show_ipv4 a b c d)" by (simp add: show_ipv4_def slash)
  ultimately show ?thesis using assms by (auto simp: parse_ipv4_octets parse_octet_show_nat)
qed

text \<open>An IPv6 literal has a colon, so no DNS name is one.\<close>

lemma ipv6_parts_colon: "ipv6_parts s = Some ps \<Longrightarrow> 58 \<in> set s"
proof (rule ccontr)
  assume "ipv6_parts s = Some ps" "58 \<notin> set s"
  then show False by (simp add: ipv6_parts_def split_on_none)
qed

lemma parse_ipv6_colon: "parse_ipv6 s = Some n \<Longrightarrow> 58 \<in> set s"
  by (auto simp: parse_ipv6_def Let_def bind_eq_Some_conv split: option.splits if_splits
      dest!: ipv6_parts_colon dest: in_set_takeD)

end
