(* ===== verification/Config.thy ===== *)
theory Config
  imports JsonFacts IpAddress
begin

text \<open>
  \<open>src/claude_pool/config.py\<close>: the loopback test shared with the server's Host guard, the
  validated configuration and its reading from the environment. A ValueError is a constructor of
  \<open>config_error\<close> that names the check that raised it.
\<close>

definition LOOPBACK_HOST_NAMES :: "ustring list" where
  "LOOPBACK_HOST_NAMES = [us ''localhost'']"

definition is_loopback_host :: "ustring \<Rightarrow> bool" where
  "is_loopback_host host =
     (if List.member LOOPBACK_HOST_NAMES host then True
      else (case ip_address host of Some a \<Rightarrow> is_loopback a | None \<Rightarrow> False))"

text \<open>
  \<open>claude_cmd\<close> is JSON from the environment until \<open>__post_init__\<close> has looked at it, so its type
  is \<open>json\<close>.
\<close>

record pool_config =
  min_workers :: int
  max_workers :: int
  model :: ustring
  host :: ustring
  port :: int
  default_timeout_sec :: pyfloat
  acquire_timeout_sec :: pyfloat
  idle_timeout_sec :: pyfloat
  scale_down_interval_sec :: pyfloat
  idle_scale_to_zero_sec :: pyfloat
  job_retention_sec :: pyfloat
  max_jobs :: int
  scratch_dir :: ustring
  claude_cmd :: json

datatype config_error =
    HostNotLoopback ustring
  | ClaudeCmdNotList json
  | ClaudeCmdNotStrings json
  | ClaudeCmdNotJson
  | ClaudeCmdIntTooLong
  | NotAnInt string
  | NotAFloat string

fun is_str :: "json \<Rightarrow> bool" where
  "is_str (JStr _) = True"
| "is_str _ = False"

definition post_init :: "pool_config \<Rightarrow> config_error + pool_config" where
  "post_init c =
     (if \<not> is_loopback_host (host c) then Inl (HostNotLoopback (host c))
      else (case claude_cmd c of
              JList parts \<Rightarrow>
                (if parts = [] then Inl (ClaudeCmdNotList (claude_cmd c))
                 else if \<not> list_all is_str parts then Inl (ClaudeCmdNotStrings (claude_cmd c))
                 else Inr c)
            | _ \<Rightarrow> Inl (ClaudeCmdNotList (claude_cmd c))))"

text \<open>The environment: \<open>os.environ.get(name, default)\<close>, converted by \<open>int\<close> or \<open>float\<close>.\<close>

type_synonym environment = "string \<Rightarrow> ustring option"

definition env_str :: "environment \<Rightarrow> string \<Rightarrow> string \<Rightarrow> ustring" where
  "env_str env name dflt = (case env name of Some s \<Rightarrow> s | None \<Rightarrow> us dflt)"

definition env_int :: "environment \<Rightarrow> string \<Rightarrow> int \<Rightarrow> config_error + int" where
  "env_int env name dflt =
     (case env name of None \<Rightarrow> Inr dflt
      | Some s \<Rightarrow> (case py_int s of None \<Rightarrow> Inl (NotAnInt name) | Some n \<Rightarrow> Inr n))"

definition env_float :: "environment \<Rightarrow> string \<Rightarrow> rat \<Rightarrow> config_error + pyfloat" where
  "env_float env name dflt =
     (case env name of None \<Rightarrow> Inr (Finite dflt)
      | Some s \<Rightarrow> (case py_float s of None \<Rightarrow> Inl (NotAFloat name) | Some f \<Rightarrow> Inr f))"

fun and_then :: "'e + 'a \<Rightarrow> ('a \<Rightarrow> 'e + 'b) \<Rightarrow> 'e + 'b" where
  "and_then (Inl e) f = Inl e"
| "and_then (Inr a) f = f a"

definition env_claude_cmd :: "environment \<Rightarrow> config_error + json" where
  "env_claude_cmd env =
     (case env ''CLAUDE_POOL_CLAUDE_CMD_JSON'' of
        None \<Rightarrow> Inr (JList [jstr ''claude''])
      | Some s \<Rightarrow>
          (if s = [] then Inr (JList [jstr ''claude''])
           else (case loads s of
                   Loaded j \<Rightarrow> Inr j
                 | JSONDecodeError \<Rightarrow> Inl ClaudeCmdNotJson
                 | IntTooLong \<Rightarrow> Inl ClaudeCmdIntTooLong)))"

text \<open>\<open>default_scratch\<close> is \<open>Path.home() / ".claude-pool" / "scratch"\<close>.\<close>

definition env_scratch_dir :: "ustring \<Rightarrow> environment \<Rightarrow> ustring" where
  "env_scratch_dir default_scratch env =
     (case env ''CLAUDE_POOL_SCRATCH_DIR'' of
        None \<Rightarrow> default_scratch | Some s \<Rightarrow> (if s = [] then default_scratch else s))"

definition from_env :: "ustring \<Rightarrow> environment \<Rightarrow> config_error + pool_config" where
  "from_env default_scratch env =
     and_then (env_claude_cmd env) (\<lambda>cmd.
     and_then (env_int env ''CLAUDE_POOL_MIN_WORKERS'' 4) (\<lambda>minw.
     and_then (env_int env ''CLAUDE_POOL_MAX_WORKERS'' 30) (\<lambda>maxw.
     and_then (env_int env ''CLAUDE_POOL_PORT'' 8756) (\<lambda>prt.
     and_then (env_float env ''CLAUDE_POOL_TIMEOUT_SEC'' 120) (\<lambda>timeout.
     and_then (env_float env ''CLAUDE_POOL_ACQUIRE_TIMEOUT_SEC'' 60) (\<lambda>acquire.
     and_then (env_float env ''CLAUDE_POOL_IDLE_TIMEOUT_SEC'' 60) (\<lambda>idle.
     and_then (env_float env ''CLAUDE_POOL_SCALE_DOWN_INTERVAL_SEC'' 30) (\<lambda>interval.
     and_then (env_float env ''CLAUDE_POOL_IDLE_SCALE_TO_ZERO_SEC'' 60) (\<lambda>zero.
     and_then (env_float env ''CLAUDE_POOL_JOB_RETENTION_SEC'' 600) (\<lambda>retention.
     and_then (env_int env ''CLAUDE_POOL_MAX_JOBS'' 500) (\<lambda>maxj.
     post_init
       \<lparr>min_workers = minw, max_workers = maxw,
        model = env_str env ''CLAUDE_POOL_MODEL'' ''sonnet'',
        host = env_str env ''CLAUDE_POOL_HOST'' ''127.0.0.1'',
        port = prt, default_timeout_sec = timeout, acquire_timeout_sec = acquire,
        idle_timeout_sec = idle, scale_down_interval_sec = interval,
        idle_scale_to_zero_sec = zero, job_retention_sec = retention, max_jobs = maxj,
        scratch_dir = env_scratch_dir default_scratch env, claude_cmd = cmd\<rparr>)))))))))))"

subsection \<open>The loopback test\<close>

lemma localhost_loopback: "is_loopback_host (us ''localhost'')"
  by (simp add: is_loopback_host_def LOOPBACK_HOST_NAMES_def)

lemma loopback_v4_literal:
  assumes "b \<le> 255" "c \<le> 255" "d \<le> 255"
  shows "is_loopback_host (show_ipv4 127 b c d)"
proof -
  have p: "parse_ipv4 (show_ipv4 127 b c d) = Some (((127 * 256 + b) * 256 + c) * 256 + d)"
    using assms by (intro parse_show_ipv4) auto
  have "(((127 * 256 + b) * 256 + c) * 256 + d) div 16777216 = 127" using assms by simp
  with p show ?thesis by (simp add: is_loopback_host_def ip_address_def)
qed

lemma loopback_v6: "is_loopback_host (us ''::1'')"
proof -
  have s: "us ''::1'' = [58, 58, 49]" by (simp add: us_def)
  have v4: "parse_ipv4 [58, 58, 49] = None" by (simp add: parse_ipv4_def)
  have parts: "ipv6_parts [58, 58, 49] = Some [Hex [], Hex [], Hex [49]]"
    by (simp add: ipv6_parts_def)
  have "ipv6_of_parts [Hex [], Hex [], Hex [49]] = Some 1"
    by (simp add: ipv6_of_parts_def part_empty_def hextets_def part_value_def parse_hextet_def
      hex_digit_value_def upt_rec)
  then have "parse_ipv6 [58, 58, 49] = Some 1" by (simp add: parse_ipv6_def parts)
  with v4 show ?thesis unfolding s by (simp add: is_loopback_host_def ip_address_def)
qed

lemma other_v4_literal:
  assumes "a \<noteq> 127" "a \<le> 255" "b \<le> 255" "c \<le> 255" "d \<le> 255"
  shows "\<not> is_loopback_host (show_ipv4 a b c d)"
proof -
  have p: "parse_ipv4 (show_ipv4 a b c d) = Some (((a * 256 + b) * 256 + c) * 256 + d)"
    using assms by (intro parse_show_ipv4) auto
  have "(((a * 256 + b) * 256 + c) * 256 + d) = a * 16777216 + (b * 65536 + c * 256 + d)" by simp
  moreover have "b * 65536 + c * 256 + d < 16777216" using assms by simp
  ultimately have "(((a * 256 + b) * 256 + c) * 256 + d) div 16777216 = a" by simp
  moreover have "show_ipv4 a b c d \<noteq> us ''localhost''"
  proof
    assume "show_ipv4 a b c d = us ''localhost''"
    moreover have "46 \<in> set (show_ipv4 a b c d)" by (simp add: show_ipv4_def)
    ultimately show False by (simp add: us_def)
  qed
  ultimately show ?thesis
    using p assms(1) by (simp add: is_loopback_host_def ip_address_def LOOPBACK_HOST_NAMES_def)
qed

text \<open>What the test lets through: the one name, dotted quads of 127/8, colon literals of ::1.\<close>

lemma loopback_forms:
  assumes "is_loopback_host h"
  shows "h = us ''localhost''
    \<or> (\<exists>n. parse_ipv4 h = Some n \<and> parse_octet (hd (split_on 46 h)) = Some 127)
    \<or> (58 \<in> set h \<and> parse_ipv6 h = Some 1)"
proof (cases "h = us ''localhost''")
  case False
  with assms obtain a where a: "ip_address h = Some a" "is_loopback a"
    by (auto simp: is_loopback_host_def LOOPBACK_HOST_NAMES_def split: option.splits)
  show ?thesis
  proof (cases a)
    case (V4 n)
    with a have "parse_ipv4 h = Some n" "n div 16777216 = 127"
      by (auto simp: ip_address_def split: option.splits)
    with loopback_v4_octet show ?thesis by blast
  next
    case (V6 n)
    with a have "parse_ipv6 h = Some n" "n = 1"
      by (auto simp: ip_address_def split: option.splits)
    with parse_ipv6_colon show ?thesis by blast
  qed
qed simp

text \<open>
  A DNS name other than localhost: no colon, and a first label that is not 127. It is refused.
\<close>

lemma dns_name_refused:
  assumes "h \<noteq> us ''localhost''" "58 \<notin> set h" "\<not> list_all ascii_digit (hd (split_on 46 h))"
  shows "\<not> is_loopback_host h"
proof
  assume "is_loopback_host h"
  with assms loopback_forms have "parse_octet (hd (split_on 46 h)) = Some 127" by blast
  with assms(3) show False by (simp add: parse_octet_def split: if_splits)
qed

subsection \<open>Validation\<close>

lemma and_then_Inr: "and_then x f = Inr b \<longleftrightarrow> (\<exists>a. x = Inr a \<and> f a = Inr b)"
  by (cases x) auto

lemma post_init_same: "post_init c = Inr c' \<Longrightarrow> c' = c"
  by (auto simp: post_init_def split: if_splits json.splits)

lemma post_init_ok:
  "post_init c = Inr c' \<longleftrightarrow>
     c' = c \<and> is_loopback_host (host c) \<and>
     (\<exists>parts. claude_cmd c = JList (map JStr parts) \<and> parts \<noteq> [])"
proof -
  have "list_all is_str xs \<longleftrightarrow> (\<exists>ss. xs = map JStr ss)" for xs
  proof (induction xs)
    case (Cons x xs)
    then show ?case by (cases x) (auto simp: Cons_eq_map_conv)
  qed simp
  then show ?thesis by (auto simp: post_init_def split: if_splits json.splits)
qed

lemma from_env_validated:
  "from_env home env = Inr c \<Longrightarrow> post_init c = Inr c"
  unfolding from_env_def and_then_Inr using post_init_same by metis

lemma from_env_host: "from_env home env = Inr c \<Longrightarrow> host c = env_str env ''CLAUDE_POOL_HOST'' ''127.0.0.1''"
  unfolding from_env_def and_then_Inr by (auto dest!: post_init_same)

text \<open>With an empty environment the configuration is the dataclass's own defaults.\<close>

definition default_config :: "ustring \<Rightarrow> pool_config" where
  "default_config home =
     \<lparr>min_workers = 4, max_workers = 30, model = us ''sonnet'', host = us ''127.0.0.1'', port = 8756,
      default_timeout_sec = Finite 120, acquire_timeout_sec = Finite 60,
      idle_timeout_sec = Finite 60, scale_down_interval_sec = Finite 30,
      idle_scale_to_zero_sec = Finite 60, job_retention_sec = Finite 600, max_jobs = 500,
      scratch_dir = home, claude_cmd = JList [jstr ''claude'']\<rparr>"

lemma localhost_v4: "us ''127.0.0.1'' = show_ipv4 127 0 0 1"
  by (simp add: us_def show_ipv4_def show_nat.simps)

lemma default_valid: "post_init (default_config home) = Inr (default_config home)"
  using loopback_v4_literal [of 0 0 1] by (simp add: post_init_def default_config_def localhost_v4)

lemma from_env_empty: "from_env home (\<lambda>_. None) = Inr (default_config home)"
proof -
  have "from_env home (\<lambda>_. None) = post_init (default_config home)"
    by (simp add: from_env_def env_claude_cmd_def env_int_def env_float_def env_str_def
        env_scratch_dir_def default_config_def)
  then show ?thesis by (simp add: default_valid)
qed

end
