(* ===== verification/Winjob.thy ===== *)
theory Winjob
  imports Prelude "HOL-Library.Word"
begin

unbundle bit_operations_syntax

text \<open>
  \<open>src/claude_pool/winjob.py\<close>: the kill-on-close job object every worker process is put in. The calls
  into pywin32 are arguments, by what they return or raise; on other platforms both functions
  do nothing.
\<close>

subsection \<open>Creating the job\<close>

text \<open>
  \<open>kill_on_close\<close> is the flag \<open>JOB_OBJECT_LIMIT_KILL_ON_JOB_CLOSE\<close>, \<open>queried\<close> the limit flags the new job
  has; the result is the job with the flags that were set.
\<close>

definition create_kill_on_close_job ::
  "bool \<Rightarrow> int \<Rightarrow> exn + 'job \<Rightarrow> exn + int \<Rightarrow> exn option \<Rightarrow> exn + ('job \<times> int) option" where
  "create_kill_on_close_job windows kill_on_close created queried set_fault =
     (if \<not> windows then Inr None
      else (case created of
              Inl e \<Rightarrow> Inl e
            | Inr job \<Rightarrow>
                (case queried of
                   Inl e \<Rightarrow> Inl e
                 | Inr flags \<Rightarrow>
                     (case set_fault of
                        Some e \<Rightarrow> Inl e
                      | None \<Rightarrow> Inr (Some (job, flags OR kill_on_close))))))"

subsection \<open>Assigning a process\<close>

datatype winjob_call = OpenProcess int | AssignProcess | CloseHandle

text \<open>The calls made, and the exception that came out; one of \<open>Close\<close> replaces one of the assignment.\<close>

definition assign_process_to_job ::
  "'job option \<Rightarrow> int \<Rightarrow> exn option \<Rightarrow> exn option \<Rightarrow> exn option \<Rightarrow> winjob_call list \<times> exn option" where
  "assign_process_to_job job pid open_fault assign_fault close_fault =
     (case job of
        None \<Rightarrow> ([], None)
      | Some j \<Rightarrow>
          (case open_fault of
             Some e \<Rightarrow> ([OpenProcess pid], Some e)
           | None \<Rightarrow>
               ([OpenProcess pid, AssignProcess, CloseHandle],
                case close_fault of Some e \<Rightarrow> Some e | None \<Rightarrow> assign_fault)))"

text \<open>
  The new job kills on close and keeps the limits it had; a handle that was opened is closed,
  whether the assignment succeeds or not.
\<close>

lemma job_kills_on_close:
  assumes "create_kill_on_close_job True k created queried set_fault = Inr (Some (job, flags))"
  shows "flags AND k = k \<and> (\<exists>old. queried = Inr old \<and> flags AND old = old)"
proof -
  from assms obtain old where old: "queried = Inr old" "flags = old OR k"
    by (auto simp: create_kill_on_close_job_def split: sum.splits option.splits)
  have "(old OR k) AND k = k" "(old OR k) AND old = old"
    by (rule bit_eqI; auto simp: bit_simps)+
  with old show ?thesis by simp
qed

lemma handle_closed:
  assumes "assign_process_to_job job pid open_fault assign_fault close_fault = (calls, e)"
  shows "AssignProcess \<in> set calls \<longrightarrow> last calls = CloseHandle"
    and "assign_fault \<noteq> None \<Longrightarrow> AssignProcess \<in> set calls \<Longrightarrow> e \<noteq> None"
  using assms by (auto simp: assign_process_to_job_def split: option.splits)

lemma no_job_elsewhere:
  "create_kill_on_close_job False k created queried set_fault = Inr None"
  "assign_process_to_job None pid a b c = ([], None)"
  by (simp_all add: create_kill_on_close_job_def assign_process_to_job_def)

end
