(* ===== verification/Worker.thy ===== *)
theory Worker
  imports JsonFacts PyBytes Config Winjob
begin

text \<open>
  \<open>src/claude_pool/worker.py\<close>: one \<open>claude\<close> process, from its argument list to the values read
  off its output. The operating system's part is a table of processes: each is running, dead but
  not yet reaped by asyncio, or reaped. \<open>Worker.returncode\<close> is set exactly when the process is
  reaped, so \<open>is_alive\<close> reads the table.
\<close>

datatype pstate = Running | Dead int | Reaped int

type_synonym ptable = "nat \<Rightarrow> pstate option"

record worker =
  became_idle_at :: rat
  proc :: "nat option"

text \<open>\<open>Worker.__init__\<close>; handles of job objects are numbers.\<close>

definition new_worker :: worker where
  "new_worker = \<lparr>became_idle_at = 0, proc = None\<rparr>"

type_synonym job_handle = nat

text \<open>
  \<open>Worker.start\<close>. The process exists once \<open>create_subprocess_exec\<close> has returned; putting it into the job
  object may still raise, and then it goes on running. \<open>placed\<close> is what \<open>start\<close> does after its
  \<open>await\<close>, \<open>made\<close> how the \<open>await\<close> ended, and the faults are those of the calls of
  \<open>assign_process_to_job\<close>.
\<close>

type_synonym job_faults = "exn option \<times> exn option \<times> exn option"

definition placed ::
  "job_handle option \<Rightarrow> job_faults \<Rightarrow> nat \<Rightarrow> rat \<Rightarrow> worker \<Rightarrow> exn option \<times> worker" where
  "placed job faults pid now w =
     (let (opening, assigning, closing) = faults; w' = w\<lparr>proc := Some pid\<rparr>
      in case snd (assign_process_to_job job (int pid) opening assigning closing) of
           Some e \<Rightarrow> (Some e, w')
         | None \<Rightarrow> (None, w'\<lparr>became_idle_at := now\<rparr>))"

definition start ::
  "job_handle option \<Rightarrow> exn + nat \<Rightarrow> job_faults \<Rightarrow> rat \<Rightarrow> worker \<Rightarrow> ptable \<Rightarrow> exn option \<times> worker \<times> ptable" where
  "start job made faults now w T =
     (case made of
        Inl e \<Rightarrow> (Some e, w, T)
      | Inr pid \<Rightarrow> (let (e, w') = placed job faults pid now w in (e, w', T(pid \<mapsto> Running))))"

definition reaped :: "ptable \<Rightarrow> nat \<Rightarrow> bool" where
  "reaped T p = (case T p of Some Running \<Rightarrow> False | Some (Dead _) \<Rightarrow> False | _ \<Rightarrow> True)"

definition is_alive :: "ptable \<Rightarrow> worker \<Rightarrow> bool" where
  "is_alive T w = (case proc w of None \<Rightarrow> False | Some p \<Rightarrow> \<not> reaped T p)"

text \<open>SIGKILL as asyncio reports it.\<close>

definition killed_code :: int where
  "killed_code = - 9"

text \<open>
  \<open>Worker.kill\<close> sends the signal and awaits the exit: the two halves, between which other tasks
  run, and the whole.
\<close>

definition signalled :: "worker \<Rightarrow> ptable \<Rightarrow> ptable" where
  "signalled w T =
     (case proc w of
        None \<Rightarrow> T
      | Some p \<Rightarrow> (if T p = Some Running then T(p \<mapsto> Dead killed_code) else T))"

definition awaited :: "worker \<Rightarrow> ptable \<Rightarrow> ptable" where
  "awaited w T =
     (case proc w of
        None \<Rightarrow> T
      | Some p \<Rightarrow> (case T p of Some (Dead rc) \<Rightarrow> T(p \<mapsto> Reaped rc) | _ \<Rightarrow> T))"

definition kill :: "worker \<Rightarrow> ptable \<Rightarrow> ptable" where
  "kill w T = (if is_alive T w then awaited w (signalled w T) else T)"

subsection \<open>The command line and the input message\<close>

fun str_of :: "json \<Rightarrow> ustring" where
  "str_of (JStr s) = s"
| "str_of _ = []"

fun cmd_parts :: "json \<Rightarrow> ustring list" where
  "cmd_parts (JList parts) = map str_of parts"
| "cmd_parts _ = []"

definition build_argv :: "pool_config \<Rightarrow> ustring list" where
  "build_argv c =
     cmd_parts (claude_cmd c) @
     map us [''-p'', ''--input-format'', ''stream-json'', ''--output-format'', ''stream-json'',
       ''--verbose'', ''--no-session-persistence'', ''--tools'', [], ''--strict-mcp-config'',
       ''--safe-mode'', ''--model''] @ [model c]"

text \<open>What \<open>start\<close> asks the system for; \<open>CREATE_NO_WINDOW\<close> is 0x08000000.\<close>

definition CREATION_FLAGS :: "bool \<Rightarrow> int" where
  "CREATION_FLAGS windows = (if windows then 134217728 else 0)"

record spawn_request =
  spawn_argv :: "ustring list"
  spawn_cwd :: ustring
  spawn_flags :: int

definition spawn_request_of :: "bool \<Rightarrow> pool_config \<Rightarrow> spawn_request" where
  "spawn_request_of windows c =
     \<lparr>spawn_argv = build_argv c, spawn_cwd = scratch_dir c, spawn_flags = CREATION_FLAGS windows\<rparr>"

definition prompt_message :: "ustring \<Rightarrow> json" where
  "prompt_message prompt =
     JObj [(us ''type'', jstr ''user''),
       (us ''message'', JObj [(us ''role'', jstr ''user''), (us ''content'', JStr prompt)])]"

definition input_line :: "(pyfloat \<Rightarrow> ustring) \<Rightarrow> ustring \<Rightarrow> ustring" where
  "input_line float_repr prompt = dumps float_repr (prompt_message prompt) @ [10]"

subsection \<open>Reading the stream\<close>

fun type_name :: "json \<Rightarrow> string" where
  "type_name JNull = ''NoneType''"
| "type_name (JBool _) = ''bool''"
| "type_name (JInt _) = ''int''"
| "type_name (JFloat _) = ''float''"
| "type_name (JStr _) = ''str''"
| "type_name (JList _) = ''list''"
| "type_name (JObj _) = ''dict''"

text \<open>\<open>payload.get\<close> of a value that is not a dict.\<close>

definition no_get :: "json \<Rightarrow> exn" where
  "no_get j = Exn (us ''AttributeError'')
     (us ([CHR 0x27] @ type_name j @ [CHR 0x27] @ '' object has no attribute '' @ [CHR 0x27] @
        ''get'' @ [CHR 0x27]))"

definition code_after :: "ustring \<Rightarrow> (ustring, json) dict \<Rightarrow> ustring" where
  "code_after code d =
     (if truthy (get d ''is_api_error_message'')
      then (case get d ''error'' of JStr s \<Rightarrow> s | _ \<Rightarrow> code)
      else code)"

definition is_result :: "(ustring, json) dict \<Rightarrow> bool" where
  "is_result d = (get d ''type'' = jstr ''result'')"

fun read_lines :: "ustring \<Rightarrow> ustring list \<Rightarrow> exn + ((ustring, json) dict option \<times> ustring)" where
  "read_lines code [] = Inr (None, code)"
| "read_lines code (raw # rest) =
     (let line = strip raw
      in if line = [] then read_lines code rest
         else (case loads line of
                 JSONDecodeError \<Rightarrow> read_lines code rest
               | IntTooLong \<Rightarrow> Inl int_too_long
               | Loaded (JObj d) \<Rightarrow>
                   (if is_result d then Inr (Some d, code_after code d)
                    else read_lines (code_after code d) rest)
               | Loaded j \<Rightarrow> Inl (no_get j)))"

definition parse_stream :: "bytes \<Rightarrow> exn + ((ustring, json) dict option \<times> ustring)" where
  "parse_stream stdout_data = read_lines [] (splitlines (utf8_decode stdout_data))"

subsection \<open>One run\<close>

record run_result =
  result_text :: json
  duration_ms :: json
  is_error :: bool
  subtype :: json
  api_error_status :: json
  api_error_code :: ustring

definition result_of :: "(ustring, json) dict \<Rightarrow> ustring \<Rightarrow> run_result" where
  "result_of d code =
     \<lparr>result_text = get_or d ''result'' (JStr []), duration_ms = get_or d ''duration_ms'' (JInt 0),
      is_error = truthy (get_or d ''is_error'' (JBool False)),
      subtype = get_or d ''subtype'' (JStr []),
      api_error_status = get d ''api_error_status'', api_error_code = code\<rparr>"

text \<open>
  What \<open>communicate\<close> came back with: the timeout, or the two outputs and the exit code of a
  process that has ended. \<open>run\<close> returns a result, raises TimeoutError, raises WorkerError with
  its text, or lets another exception out.
\<close>

datatype comm = CommTimeout | CommDone bytes bytes int

datatype ran = RanResult run_result | RanTimeout | RanWorkerError ustring | RanRaised exn

text \<open>\<open>communicate\<close> returns the outputs only once the process has ended, with its exit code.\<close>

definition comm_possible :: "worker \<Rightarrow> comm \<Rightarrow> ptable \<Rightarrow> bool" where
  "comm_possible w c T =
     (case c of
        CommTimeout \<Rightarrow> True
      | CommDone _ _ rc \<Rightarrow>
          (case proc w of
             None \<Rightarrow> True
           | Some p \<Rightarrow> T p = Some (Dead rc) \<or> T p = Some (Reaped rc)))"

definition no_result_text :: "int \<Rightarrow> bytes \<Rightarrow> ustring" where
  "no_result_text rc stderr_data =
     us ''worker exited with code '' @ show_int rc @ us ('' without a '' @ [CHR 0x27] @ ''result'' @ [CHR 0x27] @ '' line: '') @ utf8_decode stderr_data"

definition run :: "worker \<Rightarrow> comm \<Rightarrow> ptable \<Rightarrow> ran \<times> ptable" where
  "run w c T =
     (case proc w of
        None \<Rightarrow> (RanWorkerError (us ''worker not started''), T)
      | Some p \<Rightarrow>
          (case c of
             CommTimeout \<Rightarrow> (RanTimeout, kill w T)
           | CommDone out err rc \<Rightarrow>
               ((case parse_stream out of
                   Inl e \<Rightarrow> RanRaised e
                 | Inr (None, code) \<Rightarrow> RanWorkerError (no_result_text rc err)
                 | Inr (Some d, code) \<Rightarrow> RanResult (result_of d code)), T(p \<mapsto> Reaped rc))))"

subsection \<open>Processes\<close>

lemma reaped_upd [simp]:
  "reaped (T(p \<mapsto> Reaped rc)) q \<longleftrightarrow> q = p \<or> reaped T q"
  "reaped (T(p \<mapsto> Running)) q \<longleftrightarrow> q \<noteq> p \<and> reaped T q"
  "reaped (T(p \<mapsto> Dead rc)) q \<longleftrightarrow> q \<noteq> p \<and> reaped T q"
  by (auto simp: reaped_def)

lemma placed_proc: "placed job faults pid now w = (e, w') \<Longrightarrow> proc w' = Some pid"
  by (auto simp: placed_def Let_def split: prod.splits option.splits)

lemma placed_without_job: "placed None faults pid now w = (None, w\<lparr>proc := Some pid, became_idle_at := now\<rparr>)"
  by (simp add: placed_def assign_process_to_job_def Let_def split: prod.split)

text \<open>A start that raises leaves a process only when the job object refused it.\<close>

lemma start_leaves:
  assumes "start job made faults now w T = (Some e, w', T')"
  shows "T' = T \<or> job \<noteq> None \<and> (\<exists>pid. made = Inr pid \<and> T' = T(pid \<mapsto> Running))"
  using assms placed_without_job by (cases job) (auto simp: start_def split: sum.splits prod.splits)

lemma signalled_reaped [simp]: "reaped (signalled w T) p = reaped T p"
  by (simp add: signalled_def reaped_def split: option.splits pstate.splits)

lemma signalled_stops: "proc w = Some p \<Longrightarrow> signalled w T p \<noteq> Some Running"
  by (simp add: signalled_def)

lemma signalled_other: "proc w \<noteq> Some q \<Longrightarrow> signalled w T q = T q"
  by (simp add: signalled_def split: option.splits)

lemma awaited_other: "proc w \<noteq> Some q \<Longrightarrow> awaited w T q = T q"
  by (simp add: awaited_def split: option.splits pstate.splits)

lemma signalled_None [simp]: "signalled w T q = None \<longleftrightarrow> T q = None"
  by (simp add: signalled_def split: option.splits)

lemma awaited_None [simp]: "awaited w T q = None \<longleftrightarrow> T q = None"
  by (simp add: awaited_def split: option.splits pstate.splits)

lemma awaited_reaps: "proc w = Some p \<Longrightarrow> T p \<noteq> Some Running \<Longrightarrow> reaped (awaited w T) p"
  by (simp add: awaited_def reaped_def split: option.splits pstate.splits)

lemma awaited_keeps_reaped: "reaped T q \<Longrightarrow> reaped (awaited w T) q"
  by (simp add: awaited_def reaped_def split: option.splits pstate.splits)

lemma kill_def': "kill w T = awaited w (signalled w T)"
  by (simp add: kill_def is_alive_def signalled_def awaited_def reaped_def
      split: option.splits pstate.splits)

lemma kill_reaps: "proc w = Some p \<Longrightarrow> reaped (kill w T) p"
  by (simp add: kill_def' awaited_reaps signalled_stops)

lemma kill_not_alive: "\<not> is_alive (kill w T) w"
  using kill_reaps by (simp add: is_alive_def split: option.splits)

lemma kill_other: "proc w \<noteq> Some q \<Longrightarrow> kill w T q = T q"
  by (simp add: kill_def' awaited_other signalled_other)

lemma kill_dead_noop: "\<not> is_alive T w \<Longrightarrow> kill w T = T"
  by (simp add: kill_def)

lemma kill_None [simp]: "kill w T q = None \<longleftrightarrow> T q = None"
  by (simp add: kill_def')

lemma kill_running: "kill w T q = Some Running \<longleftrightarrow> T q = Some Running \<and> proc w \<noteq> Some q"
proof (cases "proc w = Some q")
  case True
  then have "reaped (kill w T) q" by (rule kill_reaps)
  with True show ?thesis by (auto simp: reaped_def)
qed (simp add: kill_other)

text \<open>However a run ends, the process behind it is reaped when it returns.\<close>

lemma run_reaps: "run w c T = (r, T') \<Longrightarrow> \<not> is_alive T' w"
  using kill_reaps by (auto simp: run_def is_alive_def split: option.splits comm.splits)

lemma run_other: "run w c T = (r, T') \<Longrightarrow> proc w \<noteq> Some q \<Longrightarrow> T' q = T q"
  by (auto simp: run_def kill_other split: option.splits comm.splits)

subsection \<open>The input message\<close>

lemma prompt_message_plain: "clean prompt \<Longrightarrow> plain (prompt_message prompt)"
  by (simp add: prompt_message_def us_def high_surrogate_def)

lemma dumps_prompt_printable: "list_all printable (dumps fr (prompt_message prompt))"
  using dumps_string_printable
  by (simp add: prompt_message_def comma colon)

text \<open>The message is ASCII, so \<open>encode\<close> cannot fail, whatever the prompt holds.\<close>

lemma input_line_encodes:
  "utf8_encode (input_line fr prompt) = Some (map of_nat (input_line fr prompt))"
proof (rule utf8_encode_ascii)
  have "list_all (\<lambda>c. c < 128) (dumps fr (prompt_message prompt))"
    by (rule list.pred_mono_strong [OF dumps_prompt_printable]) (simp add: printable_def)
  then show "list_all (\<lambda>c. c < 128) (input_line fr prompt)" by (simp add: input_line_def)
qed

lemma input_line_one_line: "splitlines (input_line fr prompt) = [dumps fr (prompt_message prompt)]"
proof -
  have "list_all (\<lambda>c. \<not> is_linebreak c) (dumps fr (prompt_message prompt))"
    by (rule list.pred_mono_strong [OF dumps_prompt_printable]) (rule printable_not_linebreak)
  then show ?thesis using splitlines_line [of _ "[]"] by (simp add: input_line_def)
qed

subsection \<open>The output stream\<close>

text \<open>
  What a line of the CLI's output is to the reader. It is passed over when it is blank, is no JSON or is
  an object other than a result; \<open>line_object\<close> is the object it holds; \<open>decisive\<close> is what a line that is
  not passed over comes to, a result or an exception.
\<close>

definition passed_over :: "ustring \<Rightarrow> bool" where
  "passed_over l =
     (strip l = [] \<or>
      (case loads (strip l) of
         JSONDecodeError \<Rightarrow> True
       | Loaded (JObj d) \<Rightarrow> \<not> is_result d
       | _ \<Rightarrow> False))"

definition line_object :: "ustring \<Rightarrow> (ustring, json) dict option" where
  "line_object l =
     (if strip l = [] then None else case loads (strip l) of Loaded (JObj d) \<Rightarrow> Some d | _ \<Rightarrow> None)"

definition decisive :: "ustring \<Rightarrow> exn + (ustring, json) dict" where
  "decisive l =
     (case loads (strip l) of
        Loaded (JObj res) \<Rightarrow> Inr res
      | Loaded j \<Rightarrow> Inl (no_get j)
      | _ \<Rightarrow> Inl int_too_long)"

lemma read_lines_step:
  "passed_over l \<Longrightarrow> read_lines code (l # ls) =
     read_lines (case line_object l of None \<Rightarrow> code | Some d \<Rightarrow> code_after code d) ls"
  by (auto simp: passed_over_def line_object_def split: loaded.splits json.splits)

lemma read_lines_decided:
  "\<not> passed_over l \<Longrightarrow> read_lines code (l # ls) = map_sum id (\<lambda>res. (Some res, code_after code res)) (decisive l)"
  by (auto simp: passed_over_def decisive_def split: loaded.splits json.splits)

lemma read_lines_reference:
  "read_lines code ls =
     (let code' = foldl code_after code (List.map_filter line_object (takeWhile passed_over ls))
      in case dropWhile passed_over ls of
           [] \<Rightarrow> Inr (None, code')
         | l # _ \<Rightarrow> map_sum id (\<lambda>res. (Some res, code_after code' res)) (decisive l))"
proof (induction ls arbitrary: code)
  case (Cons l ls)
  show ?case
  proof (cases "passed_over l")
    case True
    then show ?thesis
      by (simp add: read_lines_step Cons.IH List.map_filter_simps Let_def del: read_lines.simps(2)
          split: option.split cong: list.case_cong)
  next
    case False
    then show ?thesis by (simp add: read_lines_decided List.map_filter_simps del: read_lines.simps(2))
  qed
qed (simp add: List.map_filter_simps)

text \<open>A line that \<open>dumps\<close> wrote survives \<open>strip\<close> and reads back.\<close>

lemma dumps_object_strip: "strip (dumps fr (JObj d)) = dumps fr (JObj d)"
  by (intro strip_id) (simp add: char_class_defs)

lemma dumped_line:
  assumes "plain (JObj d)"
  shows "passed_over (dumps fr (JObj d)) \<longleftrightarrow> \<not> is_result d" "line_object (dumps fr (JObj d)) = Some d"
    "loads (strip (dumps fr (JObj d))) = Loaded (JObj d)"
  using loads_dumps [OF assms, of fr] dumps_object_strip [of fr d]
  by (auto simp: passed_over_def line_object_def)

end
