(* ===== verification/Pool.thy ===== *)
theory Pool
  imports Worker
begin

text \<open>
  \<open>WorkerPool\<close> of \<open>src/claude_pool/pool.py\<close>, segment by segment. asyncio switches tasks only at
  an \<open>await\<close> that suspends, so the code between two such points is atomic; each function here is
  one such segment, on the record of the pool's attributes. \<open>PoolSystem\<close> interleaves them.
  The lock and the waiters of the condition are part of the system, not of this record.
\<close>

record pool =
  config :: pool_config
  job_object :: "job_handle option"
  idle :: "worker list"
  total :: int
  waiting :: int
  last_spawn_error :: "ustring option"
  last_error :: "json option"
  pending_grows :: int
  last_release_at :: rat
  stopped :: bool

text \<open>\<open>__init__\<close>, with what \<open>create_kill_on_close_job\<close> returned.\<close>

definition new_pool :: "pool_config \<Rightarrow> job_handle option \<Rightarrow> rat \<Rightarrow> pool" where
  "new_pool c job now =
     \<lparr>config = c, job_object = job, idle = [], total = 0, waiting = 0, last_spawn_error = None, last_error = None,
      pending_grows = 0, last_release_at = now, stopped = False\<rparr>"

subsection \<open>Spawning\<close>

text \<open>
  \<open>_spawn_and_add_idle_locked\<close> once \<open>Worker.start\<close> has returned, and the except branch of
  \<open>_try_spawn_and_add_idle_locked\<close>. Both then call \<open>notify()\<close>.
\<close>

definition spawned :: "worker \<Rightarrow> pool \<Rightarrow> pool" where
  "spawned w P = P\<lparr>idle := idle P @ [w], total := total P + 1, last_spawn_error := None\<rparr>"

definition spawn_failed :: "ustring \<Rightarrow> pool \<Rightarrow> pool" where
  "spawn_failed err P = P\<lparr>last_spawn_error := Some err\<rparr>"

definition note_failure :: "json \<Rightarrow> pool \<Rightarrow> pool" where
  "note_failure err P = P\<lparr>last_error := Some err\<rparr>"

definition note_success :: "pool \<Rightarrow> pool" where
  "note_success P = P\<lparr>last_error := None\<rparr>"

definition schedule_grow :: "pool \<Rightarrow> pool" where
  "schedule_grow P = P\<lparr>pending_grows := pending_grows P + 1\<rparr>"

subsection \<open>acquire\<close>

text \<open>The inner loop: drop known-dead workers off the left until one is alive.\<close>

fun pop_alive :: "(worker \<Rightarrow> bool) \<Rightarrow> worker list \<Rightarrow> worker option \<times> worker list \<times> int" where
  "pop_alive alive [] = (None, [], 0)"
| "pop_alive alive (w # ws) =
     (if alive w then (Some w, ws, 0)
      else (let (found, rest, dropped) = pop_alive alive ws in (found, rest, dropped + 1)))"

text \<open>How the segment ends: a worker, an error, or the wait, after scheduling a grow or not.\<close>

datatype acquired = Handed worker | Unavailable ustring | Waits bool

definition acquire_loop :: "ptable \<Rightarrow> pool \<Rightarrow> acquired \<times> pool" where
  "acquire_loop T P =
     (if stopped P then (Unavailable (us ''pool is shutting down''), P)
      else (let (found, rest, dropped) = pop_alive (is_alive T) (idle P);
                P' = P\<lparr>idle := rest, total := total P - dropped\<rparr>
            in case found of
                 Some w \<Rightarrow> (Handed w, P')
               | None \<Rightarrow>
                   (let grow = total P' < max_workers (config P');
                        P'' = (if grow then schedule_grow P' else P')
                    in (Waits grow, P''\<lparr>waiting := waiting P'' + 1\<rparr>))))"

text \<open>After \<open>cond.wait()\<close> has returned.\<close>

definition acquire_wake :: "ptable \<Rightarrow> pool \<Rightarrow> acquired \<times> pool" where
  "acquire_wake T P =
     (let P' = P\<lparr>waiting := waiting P - 1\<rparr>
      in case last_spawn_error P' of
           Some err \<Rightarrow>
             (if idle P' = [] \<and> pending_grows P' = 0
              then (Unavailable (us ''worker spawn failed: '' @ err), P')
              else acquire_loop T P')
         | None \<Rightarrow> acquire_loop T P')"

text \<open>The \<open>finally\<close> of a wait that was cancelled (the acquire timeout, or the caller).\<close>

definition acquire_cancelled :: "pool \<Rightarrow> pool" where
  "acquire_cancelled P = P\<lparr>waiting := waiting P - 1\<rparr>"

subsection \<open>The background tasks\<close>

text \<open>\<open>_grow_by_one\<close>: the early return, and the \<open>finally\<close>.\<close>

definition grow_refused :: "pool \<Rightarrow> bool" where
  "grow_refused P = (total P \<ge> max_workers (config P) \<or> stopped P)"

definition grow_done :: "pool \<Rightarrow> pool" where
  "grow_done P = P\<lparr>pending_grows := pending_grows P - 1\<rparr>"

text \<open>\<open>release\<close> after the kill: the new state and whether it goes on to spawn a replacement.\<close>

definition release_locked :: "rat \<Rightarrow> pool \<Rightarrow> bool \<times> pool" where
  "release_locked now P =
     (let P' = P\<lparr>total := total P - 1, last_release_at := now\<rparr>;
          below_min = total P' < min_workers (config P');
          queued_demand = waiting P' > 0 \<and> total P' < max_workers (config P')
      in ((below_min \<or> queued_demand) \<and> \<not> stopped P', P'))"

text \<open>One round of \<open>_scale_down_loop\<close>.\<close>

definition draining :: "rat \<Rightarrow> pool \<Rightarrow> bool" where
  "draining now P =
     (positive (idle_scale_to_zero_sec (config P)) \<and> total P = int (length (idle P)) \<and>
      exceeds (now - last_release_at P) (idle_scale_to_zero_sec (config P)))"

definition excess_allowed :: "rat \<Rightarrow> pool \<Rightarrow> nat" where
  "excess_allowed now P =
     (if draining now P then length (idle P)
      else nat (max 0 (int (length (idle P)) - min_workers (config P))))"

definition stale :: "rat \<Rightarrow> pool \<Rightarrow> worker \<Rightarrow> bool" where
  "stale now P w =
     (draining now P \<or> exceeds (now - became_idle_at w) (idle_timeout_sec (config P)))"

fun sweep_split :: "(worker \<Rightarrow> bool) \<Rightarrow> nat \<Rightarrow> worker list \<Rightarrow> worker list \<times> worker list" where
  "sweep_split old allowed [] = ([], [])"
| "sweep_split old allowed (w # ws) =
     (if allowed > 0 \<and> old w
      then (let (kills, keeps) = sweep_split old (allowed - 1) ws in (w # kills, keeps))
      else (let (kills, keeps) = sweep_split old allowed ws in (kills, w # keeps)))"

definition sweep_select :: "rat \<Rightarrow> pool \<Rightarrow> worker list \<times> pool" where
  "sweep_select now P =
     (let (kills, keeps) = sweep_split (stale now P) (excess_allowed now P) (idle P)
      in (kills, P\<lparr>idle := keeps\<rparr>))"

text \<open>The per-worker decrement of the sweep and of \<open>stop\<close>.\<close>

definition one_less :: "pool \<Rightarrow> pool" where
  "one_less P = P\<lparr>total := total P - 1\<rparr>"

text \<open>\<open>stop\<close>: its first statement, and its locked section.\<close>

definition stop_begin :: "pool \<Rightarrow> pool" where
  "stop_begin P = P\<lparr>stopped := True\<rparr>"

definition stop_collect :: "pool \<Rightarrow> worker list \<times> pool" where
  "stop_collect P = (idle P, P\<lparr>idle := []\<rparr>)"

subsection \<open>stats\<close>

fun json_opt :: "ustring option \<Rightarrow> json" where
  "json_opt None = JNull"
| "json_opt (Some s) = JStr s"

fun json_of_opt :: "json option \<Rightarrow> json" where
  "json_of_opt None = JNull"
| "json_of_opt (Some j) = j"

definition idle_alive :: "ptable \<Rightarrow> pool \<Rightarrow> int" where
  "idle_alive T P = int (length (filter (is_alive T) (idle P)))"

definition stats :: "ptable \<Rightarrow> pool \<Rightarrow> (ustring, json) dict" where
  "stats T P =
     [(us ''min_workers'', JInt (min_workers (config P))),
      (us ''max_workers'', JInt (max_workers (config P))),
      (us ''total'', JInt (total P)),
      (us ''idle'', JInt (int (length (idle P)))),
      (us ''idle_alive'', JInt (idle_alive T P)),
      (us ''busy'', JInt (total P - int (length (idle P)))),
      (us ''healthy'', JBool (idle_alive T P = int (length (idle P)))),
      (us ''last_spawn_error'', json_opt (last_spawn_error P)),
      (us ''last_error'', json_of_opt (last_error P))]"

subsection \<open>Facts of the segments\<close>

lemmas segment_defs = spawned_def spawn_failed_def schedule_grow_def acquire_cancelled_def
  grow_done_def one_less_def stop_begin_def

lemma segment_config [simp]:
  "config (spawned w P) = config P" "config (spawn_failed e P) = config P"
  "config (schedule_grow P) = config P" "config (acquire_cancelled P) = config P"
  "config (grow_done P) = config P" "config (one_less P) = config P"
  "config (stop_begin P) = config P"
  by (simp_all add: segment_defs)

text \<open>The job object stays the pool's for good.\<close>

lemma segment_job [simp]:
  "job_object (spawned w P) = job_object P" "job_object (spawn_failed e P) = job_object P"
  "job_object (acquire_cancelled P) = job_object P" "job_object (grow_done P) = job_object P"
  "job_object (one_less P) = job_object P" "job_object (stop_begin P) = job_object P"
  "job_object (note_success P) = job_object P" "job_object (note_failure f P) = job_object P"
  by (simp_all add: segment_defs note_success_def note_failure_def)

lemma note_fields [simp]:
  "config (note_success P) = config P" "idle (note_success P) = idle P"
  "total (note_success P) = total P" "waiting (note_success P) = waiting P"
  "pending_grows (note_success P) = pending_grows P" "stopped (note_success P) = stopped P"
  "last_spawn_error (note_success P) = last_spawn_error P"
  "config (note_failure e P) = config P" "idle (note_failure e P) = idle P"
  "total (note_failure e P) = total P" "waiting (note_failure e P) = waiting P"
  "pending_grows (note_failure e P) = pending_grows P" "stopped (note_failure e P) = stopped P"
  "last_spawn_error (note_failure e P) = last_spawn_error P"
  by (simp_all add: note_success_def note_failure_def)

lemma pop_alive_Some:
  "pop_alive alive ws = (Some w, rest, k) \<Longrightarrow>
     \<exists>dead. ws = dead @ w # rest \<and> alive w \<and> list_all (\<lambda>v. \<not> alive v) dead \<and> k = int (length dead)"
proof (induction ws arbitrary: k)
  case (Cons v ws)
  show ?case
  proof (cases "alive v")
    case True
    with Cons.prems show ?thesis by auto
  next
    case False
    with Cons.prems obtain k' where k: "pop_alive alive ws = (Some w, rest, k')" "k = k' + 1"
      by (auto split: prod.splits)
    then obtain dead where "ws = dead @ w # rest" "alive w" "list_all (\<lambda>v. \<not> alive v) dead"
      "k' = int (length dead)"
      using Cons.IH by blast
    with False k(2) show ?thesis by (intro exI [of _ "v # dead"]) simp
  qed
qed simp

lemma pop_alive_None:
  "pop_alive alive ws = (None, rest, k) \<Longrightarrow>
     rest = [] \<and> list_all (\<lambda>v. \<not> alive v) ws \<and> k = int (length ws)"
  by (induction ws arbitrary: k) (auto split: if_splits prod.splits)

text \<open>The three ways \<open>acquire_loop\<close> ends.\<close>

lemma acquire_loop_cases:
  obtains (stop) "stopped P" "acquire_loop T P = (Unavailable (us ''pool is shutting down''), P)"
  | (hand) dead w rest where "\<not> stopped P" "idle P = dead @ w # rest" "is_alive T w"
      "list_all (\<lambda>v. \<not> is_alive T v) dead"
      "acquire_loop T P = (Handed w, P\<lparr>idle := rest, total := total P - int (length dead)\<rparr>)"
  | (grow) "\<not> stopped P" "list_all (\<lambda>v. \<not> is_alive T v) (idle P)"
      "total P - int (length (idle P)) < max_workers (config P)"
      "acquire_loop T P = (Waits True, P\<lparr>idle := [], total := total P - int (length (idle P)),
         pending_grows := pending_grows P + 1, waiting := waiting P + 1\<rparr>)"
  | (full) "\<not> stopped P" "list_all (\<lambda>v. \<not> is_alive T v) (idle P)"
      "total P - int (length (idle P)) \<ge> max_workers (config P)"
      "acquire_loop T P = (Waits False, P\<lparr>idle := [], total := total P - int (length (idle P)),
         waiting := waiting P + 1\<rparr>)"
proof (cases "stopped P")
  case True
  then show ?thesis using stop by (simp add: acquire_loop_def)
next
  case False
  obtain found rest k where p: "pop_alive (is_alive T) (idle P) = (found, rest, k)"
    by (cases "pop_alive (is_alive T) (idle P)")
  show ?thesis
  proof (cases found)
    case None
    with p pop_alive_None have r: "rest = []" "list_all (\<lambda>v. \<not> is_alive T v) (idle P)"
      "k = int (length (idle P))" by blast+
    with p None False grow full show ?thesis
      by (cases "total P - int (length (idle P)) < max_workers (config P)")
        (auto simp: acquire_loop_def Let_def schedule_grow_def)
  next
    case (Some w)
    with p pop_alive_Some obtain dead where "idle P = dead @ w # rest" "is_alive T w"
      "list_all (\<lambda>v. \<not> is_alive T v) dead" "k = int (length dead)" by blast
    with p Some False hand show ?thesis by (simp add: acquire_loop_def)
  qed
qed

text \<open>Waking up is giving up on a failed spawn, or the loop again.\<close>

lemma acquire_wake_cases:
  obtains (gave_up) err where "last_spawn_error P = Some err" "idle P = []" "pending_grows P = 0"
      "acquire_wake T P = (Unavailable (us ''worker spawn failed: '' @ err), acquire_cancelled P)"
  | (again) "acquire_wake T P = acquire_loop T (acquire_cancelled P)"
proof (cases "last_spawn_error P")
  case None
  then show ?thesis by (intro again) (simp add: acquire_wake_def acquire_cancelled_def)
next
  case (Some err)
  show ?thesis
  proof (cases "idle P = [] \<and> pending_grows P = 0")
    case True
    with Some show ?thesis
      by (intro gave_up [of err]) (simp_all add: acquire_wake_def acquire_cancelled_def)
  next
    case False
    with Some show ?thesis
      by (intro again) (auto simp: acquire_wake_def acquire_cancelled_def)
  qed
qed

lemma locked_segment_job:
  "acquire_loop T P = (a, P') \<Longrightarrow> job_object P' = job_object P"
  "acquire_wake T P = (a, P') \<Longrightarrow> job_object P' = job_object P"
  "release_locked now P = (b, P') \<Longrightarrow> job_object P' = job_object P"
  "sweep_select now P = (kills, P') \<Longrightarrow> job_object P' = job_object P"
  "stop_collect P = (kills, P') \<Longrightarrow> job_object P' = job_object P"
proof -
  have loop: "acquire_loop T P = (a, P') \<Longrightarrow> job_object P' = job_object P" for T P a P'
    by (rule acquire_loop_cases [of P T]) auto
  then show "acquire_loop T P = (a, P') \<Longrightarrow> job_object P' = job_object P" .
  show "acquire_wake T P = (a, P') \<Longrightarrow> job_object P' = job_object P"
    by (rule acquire_wake_cases [of P T]) (auto dest: loop)
qed (auto simp: release_locked_def Let_def sweep_select_def stop_collect_def split: prod.splits)

lemma sweep_split_mset:
  "sweep_split old n ws = (kills, keeps) \<Longrightarrow> mset ws = mset kills + mset keeps"
  by (induction ws arbitrary: n kills keeps) (auto split: if_splits prod.splits)

lemma sweep_split_kills:
  "sweep_split old n ws = (kills, keeps) \<Longrightarrow> list_all old kills \<and> length kills \<le> n"
  by (induction ws arbitrary: n kills keeps) (force split: if_splits prod.splits)+

lemma sweep_split_all: "list_all old ws \<Longrightarrow> sweep_split old (length ws) ws = (ws, [])"
  by (induction ws) auto

lemma sweep_select_split:
  "sweep_select now P = (kills, P') \<longleftrightarrow>
     (\<exists>keeps. sweep_split (stale now P) (excess_allowed now P) (idle P) = (kills, keeps)
        \<and> P' = P\<lparr>idle := keeps\<rparr>)"
  by (auto simp: sweep_select_def split: prod.splits)

lemma sweep_select_length:
  assumes "sweep_select now P = (kills, P')"
  shows "length (idle P) = length kills + length (idle P')"
proof -
  from assms obtain keeps where s: "sweep_split (stale now P) (excess_allowed now P) (idle P) = (kills, keeps)"
    and P': "P' = P\<lparr>idle := keeps\<rparr>" unfolding sweep_select_split by blast
  have "size (mset (idle P)) = size (mset kills + mset keeps)" using sweep_split_mset [OF s] by simp
  then show ?thesis by (simp add: P')
qed

text \<open>Short of a drain, the sweep leaves \<open>min_workers\<close> idle workers, or all there are.\<close>

lemma sweep_keeps_min:
  assumes "sweep_select now P = (kills, P')" "\<not> draining now P"
  shows "min (int (length (idle P))) (min_workers (config P)) \<le> int (length (idle P'))"
proof -
  from assms(1) obtain keeps where
    s: "sweep_split (stale now P) (excess_allowed now P) (idle P) = (kills, keeps)"
    unfolding sweep_select_split by blast
  then have "length kills \<le> excess_allowed now P" using sweep_split_kills by blast
  with assms(2) have "int (length kills) \<le> max 0 (int (length (idle P)) - min_workers (config P))"
    by (simp add: excess_allowed_def)
  with sweep_select_length [OF assms(1)] show ?thesis by linarith
qed

lemma sweep_drains_all:
  assumes "draining now P"
  shows "sweep_select now P = (idle P, P\<lparr>idle := []\<rparr>)"
proof -
  have "list_all (stale now P) (idle P)" using assms by (simp add: stale_def list_all_iff)
  then show ?thesis using assms by (simp add: sweep_select_def excess_allowed_def sweep_split_all)
qed

lemma sweep_split_takes: "fst (sweep_split old allowed ws) = take allowed (filter old ws)"
proof (induction old allowed ws rule: sweep_split.induct)
  case (2 old allowed w ws)
  then show ?case by (cases allowed) (auto simp: split_beta)
qed simp

text \<open>Short of a drain: the longest idle ones of the stale workers, as many as are in excess.\<close>

lemma sweep_kills:
  assumes "sweep_select now P = (kills, P')" "\<not> draining now P"
  shows "kills = take (nat (int (length (idle P)) - min_workers (config P)))
    (filter (\<lambda>w. exceeds (now - became_idle_at w) (idle_timeout_sec (config P))) (idle P))"
proof -
  have "kills = fst (sweep_split (stale now P) (excess_allowed now P) (idle P))"
    using assms(1) by (simp add: sweep_select_def split_beta)
  moreover have "stale now P = (\<lambda>w. exceeds (now - became_idle_at w) (idle_timeout_sec (config P)))"
    using assms(2) by (simp add: stale_def fun_eq_iff)
  moreover have "excess_allowed now P = nat (int (length (idle P)) - min_workers (config P))"
    using assms(2) by (simp add: excess_allowed_def)
  ultimately show ?thesis by (simp add: sweep_split_takes)
qed

end
