(* ===== verification/PoolSystem.thy ===== *)
theory PoolSystem
  imports Pool
begin

text \<open>
  The pool among its tasks. A state holds the pool's attributes, the process table, the lock of
  \<open>_cond\<close> and the tasks that are suspended, each at the \<open>await\<close> its constructor names; a step is
  one task running from its \<open>await\<close> to its next one, in any order the event loop may choose.
  The lock is held across an \<open>await\<close> only while a process is being spawned, so every other
  locked section is one step that needs the lock to be free. The process exists before that \<open>await\<close>
  returns, and it may outlive a spawn that fails.

  \<open>Condition\<close> is asyncio's: \<open>notify()\<close> moves one waiter on, and a waiter that was notified or
  cancelled takes the lock again before it goes on. Waiters are anonymous here, so which of
  them \<open>notify\<close> picks is no question.
\<close>

subsection \<open>Tasks\<close>

text \<open>
  How far \<open>create_subprocess_exec\<close> is: there is no process yet; there is one; the call is failing or
  was cancelled, has killed the process and waits for its end; it is about to raise.
\<close>

datatype child = Unmade | Made nat | Aborted nat | Gone

text \<open>
  \<open>StartSpawn n\<close> is \<open>start\<close> with \<open>n\<close> more workers to spawn after this one.
  The flag of a release or a grow tells whether it is in the list \<open>pending\<close> that \<open>stop\<close> took
  from \<open>_background_tasks\<close>. \<open>Using\<close> is an execution between \<open>acquire\<close> and the release.
\<close>

datatype task =
    StartSpawn nat child
  | AcqEnter | AcqWaiting | AcqNotified | AcqCancelled
  | Using worker
  | RelNew bool worker | RelKill bool worker | RelLock bool worker | RelSpawn bool child
  | GrowEnter bool | GrowSpawn bool child
  | SweepSleep | SweepKill worker "worker list" | SweepDec worker "worker list"
  | StopSweep | StopDrain | StopGather | StopLock
  | StopKill worker "worker list" | StopDec worker "worker list" | StopDone

fun mark :: "task \<Rightarrow> task" where
  "mark (RelNew b w) = RelNew True w"
| "mark (RelKill b w) = RelKill True w"
| "mark (RelLock b w) = RelLock True w"
| "mark (RelSpawn b k) = RelSpawn True k"
| "mark (GrowEnter b) = GrowEnter True"
| "mark (GrowSpawn b k) = GrowSpawn True k"
| "mark t = t"

fun marked :: "task \<Rightarrow> bool" where
  "marked (RelNew b w) = b"
| "marked (RelKill b w) = b"
| "marked (RelLock b w) = b"
| "marked (RelSpawn b k) = b"
| "marked (GrowEnter b) = b"
| "marked (GrowSpawn b k) = b"
| "marked t = False"

fun starting :: "task \<Rightarrow> bool" where
  "starting (StartSpawn n k) = True"
| "starting t = False"

fun sweeping :: "task \<Rightarrow> bool" where
  "sweeping SweepSleep = True"
| "sweeping (SweepKill w ws) = True"
| "sweeping (SweepDec w ws) = True"
| "sweeping t = False"

text \<open>The tasks that are spawning, and the process each is making.\<close>

fun forking :: "task \<Rightarrow> bool" where
  "forking (StartSpawn n k) = True"
| "forking (RelSpawn b k) = True"
| "forking (GrowSpawn b k) = True"
| "forking t = False"

fun child_of :: "task \<Rightarrow> child" where
  "child_of (StartSpawn n k) = k"
| "child_of (RelSpawn b k) = k"
| "child_of (GrowSpawn b k) = k"
| "child_of t = Unmade"

fun with_child :: "child \<Rightarrow> task \<Rightarrow> task" where
  "with_child k (StartSpawn n j) = StartSpawn n k"
| "with_child k (RelSpawn b j) = RelSpawn b k"
| "with_child k (GrowSpawn b j) = GrowSpawn b k"
| "with_child k t = t"

definition process :: "nat \<Rightarrow> worker" where
  "process p = new_worker\<lparr>proc := Some p\<rparr>"

fun child_process :: "child \<Rightarrow> worker multiset" where
  "child_process (Made p) = {#process p#}"
| "child_process (Aborted p) = {#process p#}"
| "child_process _ = {#}"

definition born :: "task \<Rightarrow> worker multiset" where
  "born t = child_process (child_of t)"

text \<open>The workers a task answers for.\<close>

fun held :: "task \<Rightarrow> worker multiset" where
  "held (Using w) = {#w#}"
| "held (RelNew b w) = {#w#}"
| "held (RelKill b w) = {#w#}"
| "held (RelLock b w) = {#w#}"
| "held (SweepKill w ws) = add_mset w (mset ws)"
| "held (SweepDec w ws) = add_mset w (mset ws)"
| "held (StopKill w ws) = add_mset w (mset ws)"
| "held (StopDec w ws) = add_mset w (mset ws)"
| "held t = {#}"

definition notify :: "task multiset \<Rightarrow> task multiset" where
  "notify M = (if AcqWaiting \<in># M then add_mset AcqNotified (M - {#AcqWaiting#}) else M)"

definition notified :: "task \<Rightarrow> task" where
  "notified t = (if t = AcqWaiting then AcqNotified else t)"

definition notify_all :: "task multiset \<Rightarrow> task multiset" where
  "notify_all M = image_mset notified M"

subsection \<open>The state\<close>

text \<open>
  Two ghosts: \<open>lost\<close> are the workers of tasks that were cancelled before they had accounted for them,
  \<open>orphans\<close> the processes the job object refused, which the pool forgets without killing them.
\<close>

record sys =
  st :: pool
  procs :: ptable
  locked :: bool
  tasks :: "task multiset"
  lost :: "worker multiset"
  orphans :: "worker multiset"
  clock :: rat

text \<open>\<open>start\<close> goes on with the next worker, or ends by creating the sweep.\<close>

definition after_start :: "nat \<Rightarrow> task multiset \<Rightarrow> sys \<Rightarrow> sys" where
  "after_start n R s =
     (if n = 0 then s\<lparr>tasks := add_mset SweepSleep R, locked := False\<rparr>
      else s\<lparr>tasks := add_mset (StartSpawn (n - 1) Unmade) R, locked := True\<rparr>)"

definition boot :: "pool_config \<Rightarrow> job_handle option \<Rightarrow> rat \<Rightarrow> sys" where
  "boot c job now =
     after_start (nat (min_workers c)) {#}
       \<lparr>st = new_pool c job now, procs = Map.empty, locked = False, tasks = {#}, lost = {#}, orphans = {#},
        clock = now\<rparr>"

text \<open>The worker of the process \<open>p\<close>, or the exception, when \<open>Worker.start\<close> goes on after its \<open>await\<close>.\<close>

definition started :: "job_faults \<Rightarrow> nat \<Rightarrow> sys \<Rightarrow> exn option \<times> worker" where
  "started faults p s = placed (job_object (st s)) faults p (clock s) new_worker"

definition spawn_ok :: "worker \<Rightarrow> sys \<Rightarrow> sys" where
  "spawn_ok w s = s\<lparr>st := spawned w (st s)\<rparr>"

text \<open>The spawn of \<open>p\<close> raised \<open>e\<close>, which the pool caught; \<open>p\<close> is left behind.\<close>

definition spawn_orphaned :: "worker \<Rightarrow> ustring \<Rightarrow> sys \<Rightarrow> sys" where
  "spawn_orphaned w err s = s\<lparr>st := spawn_failed err (st s), orphans := add_mset w (orphans s)\<rparr>"

fun after_acquire :: "acquired \<Rightarrow> task multiset \<Rightarrow> task multiset" where
  "after_acquire (Handed w) R = add_mset (Using w) R"
| "after_acquire (Unavailable msg) R = R"
| "after_acquire (Waits grow) R =
     (if grow then add_mset (GrowEnter False) (add_mset AcqWaiting R) else add_mset AcqWaiting R)"

text \<open>
  \<open>for w in to_kill\<close> and \<open>for worker in doomed\<close>: the next worker is signalled at once, and the
  task suspends until it has ended.
\<close>

fun next_kill :: "(worker \<Rightarrow> worker list \<Rightarrow> task) \<Rightarrow> task \<Rightarrow> worker list \<Rightarrow> ptable \<Rightarrow> task \<times> ptable" where
  "next_kill busy done [] T = (done, T)"
| "next_kill busy done (w # ws) T = (busy w ws, signalled w T)"

definition ended :: "ptable \<Rightarrow> worker \<Rightarrow> bool" where
  "ended T w = (case proc w of None \<Rightarrow> True | Some p \<Rightarrow> T p \<noteq> Some Running)"

subsection \<open>Steps\<close>

text \<open>What the machine does on its own: time passes, processes end and are reaped.\<close>

inductive os_step :: "sys \<Rightarrow> sys \<Rightarrow> bool" where
  tick: "0 \<le> d \<Longrightarrow> os_step s (s\<lparr>clock := clock s + d\<rparr>)"
| dies: "procs s p = Some Running \<Longrightarrow> os_step s (s\<lparr>procs := (procs s)(p \<mapsto> Dead rc)\<rparr>)"
| reap: "procs s p = Some (Dead rc) \<Longrightarrow> os_step s (s\<lparr>procs := (procs s)(p \<mapsto> Reaped rc)\<rparr>)"

text \<open>
  One segment of one task. A process id names one process for good, so a spawn gets one that
  the table does not have.
\<close>

inductive pool_step :: "sys \<Rightarrow> sys \<Rightarrow> bool" where
  child_made: "tasks s = add_mset x R \<Longrightarrow> forking x \<Longrightarrow> child_of x = Unmade \<Longrightarrow> procs s p = None \<Longrightarrow>
    pool_step s (s\<lparr>procs := (procs s)(p \<mapsto> Running), tasks := add_mset (with_child (Made p) x) R\<rparr>)"
| child_aborted: "tasks s = add_mset x R \<Longrightarrow> forking x \<Longrightarrow> child_of x = Made p \<Longrightarrow>
    pool_step s (s\<lparr>procs := signalled (process p) (procs s), tasks := add_mset (with_child (Aborted p) x) R\<rparr>)"
| child_ended: "tasks s = add_mset x R \<Longrightarrow> forking x \<Longrightarrow> child_of x = Aborted p \<Longrightarrow> ended (procs s) (process p) \<Longrightarrow>
    pool_step s (s\<lparr>procs := awaited (process p) (procs s), tasks := add_mset (with_child Gone x) R\<rparr>)"

| start_spawned: "tasks s = add_mset (StartSpawn n (Made p)) R \<Longrightarrow> started faults p s = (None, w) \<Longrightarrow>
    pool_step s (after_start n (notify R) (spawn_ok w s))"
| start_orphaned: "tasks s = add_mset (StartSpawn n (Made p)) R \<Longrightarrow> started faults p s = (Some e, w) \<Longrightarrow>
    pool_step s (s\<lparr>tasks := R, locked := False, orphans := add_mset w (orphans s)\<rparr>)"
| start_failed: "tasks s = add_mset (StartSpawn n k) R \<Longrightarrow> k \<in> {Unmade, Gone} \<Longrightarrow>
    pool_step s (s\<lparr>tasks := R, locked := False\<rparr>)"

| request: "pool_step s (s\<lparr>tasks := add_mset AcqEnter (tasks s)\<rparr>)"
| acquire: "tasks s = add_mset AcqEnter R \<Longrightarrow> \<not> locked s \<Longrightarrow>
    acquire_loop (procs s) (st s) = (a, P) \<Longrightarrow>
    pool_step s (s\<lparr>st := P, tasks := after_acquire a R\<rparr>)"
| wake: "tasks s = add_mset AcqNotified R \<Longrightarrow> \<not> locked s \<Longrightarrow>
    acquire_wake (procs s) (st s) = (a, P) \<Longrightarrow>
    pool_step s (s\<lparr>st := P, tasks := after_acquire a R\<rparr>)"
| cancel_enter: "tasks s = add_mset AcqEnter R \<Longrightarrow> pool_step s (s\<lparr>tasks := R\<rparr>)"
| cancel_wait: "tasks s = add_mset x R \<Longrightarrow> x \<in> {AcqWaiting, AcqNotified} \<Longrightarrow>
    pool_step s (s\<lparr>tasks := add_mset AcqCancelled R\<rparr>)"
| wait_cancelled: "tasks s = add_mset AcqCancelled R \<Longrightarrow> \<not> locked s \<Longrightarrow>
    pool_step s (s\<lparr>st := acquire_cancelled (st s), tasks := R\<rparr>)"

| run_ends: "tasks s = add_mset (Using w) R \<Longrightarrow> comm_possible w c (procs s) \<Longrightarrow>
    run w c (procs s) = (r, T) \<Longrightarrow>
    pool_step s (s\<lparr>procs := T, tasks := add_mset (RelNew False w) R\<rparr>)"
| run_cancelled: "tasks s = add_mset (Using w) R \<Longrightarrow>
    pool_step s (s\<lparr>tasks := add_mset (RelNew False w) R\<rparr>)"
| noted: "P \<in> {note_success (st s), note_failure err (st s)} \<Longrightarrow> pool_step s (s\<lparr>st := P\<rparr>)"
| release_kill: "tasks s = add_mset (RelNew b w) R \<Longrightarrow> is_alive (procs s) w \<Longrightarrow>
    pool_step s (s\<lparr>procs := signalled w (procs s), tasks := add_mset (RelKill b w) R\<rparr>)"
| release_dead: "tasks s = add_mset (RelNew b w) R \<Longrightarrow> \<not> is_alive (procs s) w \<Longrightarrow>
    pool_step s (s\<lparr>tasks := add_mset (RelLock b w) R\<rparr>)"
| release_killed: "tasks s = add_mset (RelKill b w) R \<Longrightarrow> ended (procs s) w \<Longrightarrow>
    pool_step s (s\<lparr>procs := awaited w (procs s), tasks := add_mset (RelLock b w) R\<rparr>)"
| release_count: "tasks s = add_mset (RelLock b w) R \<Longrightarrow> \<not> locked s \<Longrightarrow>
    release_locked (clock s) (st s) = (False, P) \<Longrightarrow> pool_step s (s\<lparr>st := P, tasks := R\<rparr>)"
| release_respawn: "tasks s = add_mset (RelLock b w) R \<Longrightarrow> \<not> locked s \<Longrightarrow>
    release_locked (clock s) (st s) = (True, P) \<Longrightarrow>
    pool_step s (s\<lparr>st := P, tasks := add_mset (RelSpawn b Unmade) R, locked := True\<rparr>)"
| release_spawned: "tasks s = add_mset (RelSpawn b (Made p)) R \<Longrightarrow> started faults p s = (None, w) \<Longrightarrow>
    pool_step s ((spawn_ok w s)\<lparr>tasks := notify R, locked := False\<rparr>)"
| release_orphaned: "tasks s = add_mset (RelSpawn b (Made p)) R \<Longrightarrow> started faults p s = (Some e, w) \<Longrightarrow>
    pool_step s ((spawn_orphaned w err s)\<lparr>tasks := notify R, locked := False\<rparr>)"
| release_failed: "tasks s = add_mset (RelSpawn b k) R \<Longrightarrow> k \<in> {Unmade, Gone} \<Longrightarrow>
    pool_step s (s\<lparr>st := spawn_failed err (st s), tasks := notify R, locked := False\<rparr>)"

| grow_stopped: "tasks s = add_mset (GrowEnter b) R \<Longrightarrow> \<not> locked s \<Longrightarrow> grow_refused (st s) \<Longrightarrow>
    pool_step s (s\<lparr>st := grow_done (st s), tasks := R\<rparr>)"
| grow: "tasks s = add_mset (GrowEnter b) R \<Longrightarrow> \<not> locked s \<Longrightarrow> \<not> grow_refused (st s) \<Longrightarrow>
    pool_step s (s\<lparr>tasks := add_mset (GrowSpawn b Unmade) R, locked := True\<rparr>)"
| grow_spawned: "tasks s = add_mset (GrowSpawn b (Made p)) R \<Longrightarrow> started faults p s = (None, w) \<Longrightarrow>
    pool_step s ((spawn_ok w s)\<lparr>st := grow_done (st (spawn_ok w s)), tasks := notify R, locked := False\<rparr>)"
| grow_orphaned: "tasks s = add_mset (GrowSpawn b (Made p)) R \<Longrightarrow> started faults p s = (Some e, w) \<Longrightarrow>
    pool_step s ((spawn_orphaned w err s)\<lparr>st := grow_done (st (spawn_orphaned w err s)),
      tasks := notify R, locked := False\<rparr>)"
| grow_failed: "tasks s = add_mset (GrowSpawn b k) R \<Longrightarrow> k \<in> {Unmade, Gone} \<Longrightarrow>
    pool_step s (s\<lparr>st := grow_done (spawn_failed err (st s)), tasks := notify R, locked := False\<rparr>)"

| sweep: "tasks s = add_mset SweepSleep R \<Longrightarrow> \<not> locked s \<Longrightarrow>
    sweep_select (clock s) (st s) = (kills, P) \<Longrightarrow>
    next_kill SweepKill SweepSleep kills (procs s) = (t, T) \<Longrightarrow>
    pool_step s (s\<lparr>st := P, procs := T, tasks := add_mset t R\<rparr>)"
| sweep_killed: "tasks s = add_mset (SweepKill w ws) R \<Longrightarrow> ended (procs s) w \<Longrightarrow>
    pool_step s (s\<lparr>procs := awaited w (procs s), tasks := add_mset (SweepDec w ws) R\<rparr>)"
| sweep_count: "tasks s = add_mset (SweepDec w ws) R \<Longrightarrow> \<not> locked s \<Longrightarrow>
    next_kill SweepKill SweepSleep ws (procs s) = (t, T) \<Longrightarrow>
    pool_step s (s\<lparr>st := one_less (st s), procs := T, tasks := add_mset t R\<rparr>)"

| stop: "\<not> stopped (st s) \<Longrightarrow> \<forall>t \<in># tasks s. \<not> starting t \<Longrightarrow> tasks s = add_mset x R \<Longrightarrow> sweeping x \<Longrightarrow>
    pool_step s (s\<lparr>st := stop_begin (st s), tasks := add_mset StopSweep R, lost := lost s + held x\<rparr>)"
| stop_unstarted: "\<not> stopped (st s) \<Longrightarrow> \<forall>t \<in># tasks s. \<not> starting t \<and> \<not> sweeping t \<Longrightarrow>
    pool_step s (s\<lparr>st := stop_begin (st s), tasks := add_mset StopSweep (tasks s)\<rparr>)"
| stop_snapshot: "tasks s = add_mset StopSweep R \<Longrightarrow>
    pool_step s (s\<lparr>tasks := add_mset StopDrain (image_mset mark R)\<rparr>)"
| stop_drained: "tasks s = add_mset x R \<Longrightarrow> x \<in> {StopDrain, StopGather} \<Longrightarrow> \<forall>t \<in># R. \<not> marked t \<Longrightarrow>
    pool_step s (s\<lparr>tasks := add_mset StopLock R\<rparr>)"
| stop_expired: "tasks s = add_mset StopDrain R \<Longrightarrow>
    pool_step s (s\<lparr>tasks := add_mset StopGather R\<rparr>)"
| cancel_grow: "StopGather \<in># tasks s \<Longrightarrow> tasks s = add_mset (GrowEnter True) R \<Longrightarrow>
    pool_step s (s\<lparr>st := grow_done (st s), tasks := R\<rparr>)"
| cancel_grow_spawn: "StopGather \<in># tasks s \<Longrightarrow> tasks s = add_mset (GrowSpawn True k) R \<Longrightarrow>
    k \<in> {Unmade, Gone} \<Longrightarrow>
    pool_step s (s\<lparr>st := grow_done (st s), tasks := R, locked := False\<rparr>)"
| cancel_release: "StopGather \<in># tasks s \<Longrightarrow> tasks s = add_mset x R \<Longrightarrow>
    x \<in> {RelKill True w, RelLock True w} \<Longrightarrow>
    pool_step s (s\<lparr>tasks := R, lost := add_mset w (lost s)\<rparr>)"
| cancel_release_spawn: "StopGather \<in># tasks s \<Longrightarrow> tasks s = add_mset (RelSpawn True k) R \<Longrightarrow>
    k \<in> {Unmade, Gone} \<Longrightarrow>
    pool_step s (s\<lparr>tasks := R, locked := False\<rparr>)"
| stop_idle: "tasks s = add_mset StopLock R \<Longrightarrow> \<not> locked s \<Longrightarrow>
    stop_collect (st s) = (doomed, P) \<Longrightarrow>
    next_kill StopKill StopDone doomed (procs s) = (t, T) \<Longrightarrow>
    pool_step s (s\<lparr>st := P, procs := T, tasks := add_mset t (notify_all R)\<rparr>)"
| stop_killed: "tasks s = add_mset (StopKill w ws) R \<Longrightarrow> ended (procs s) w \<Longrightarrow>
    pool_step s (s\<lparr>procs := awaited w (procs s), tasks := add_mset (StopDec w ws) R\<rparr>)"
| stop_count: "tasks s = add_mset (StopDec w ws) R \<Longrightarrow> \<not> locked s \<Longrightarrow>
    next_kill StopKill StopDone ws (procs s) = (t, T) \<Longrightarrow>
    pool_step s (s\<lparr>st := one_less (st s), procs := T, tasks := add_mset t R\<rparr>)"

definition sys_step :: "sys \<Rightarrow> sys \<Rightarrow> bool" where
  "sys_step s t \<longleftrightarrow> pool_step s t \<or> os_step s t"

definition booted :: "pool_config \<Rightarrow> sys \<Rightarrow> bool" where
  "booted c s \<longleftrightarrow> (\<exists>job now. s = boot c job now)"

text \<open>The states a pool of the configuration \<open>c\<close> can be in.\<close>

abbreviation pool_reach :: "pool_config \<Rightarrow> sys \<Rightarrow> bool" where
  "pool_reach c \<equiv> reach (booted c) sys_step"

subsection \<open>Tallies\<close>

fun waits :: "task \<Rightarrow> int" where
  "waits AcqWaiting = 1"
| "waits AcqNotified = 1"
| "waits AcqCancelled = 1"
| "waits t = 0"

fun grows :: "task \<Rightarrow> int" where
  "grows (GrowEnter b) = 1"
| "grows (GrowSpawn b k) = 1"
| "grows t = 0"

fun holds :: "task \<Rightarrow> int" where
  "holds (StartSpawn n k) = 1"
| "holds (RelSpawn b k) = 1"
| "holds (GrowSpawn b k) = 1"
| "holds t = 0"

text \<open>The workers a task may still spawn.\<close>

fun spawns :: "task \<Rightarrow> int" where
  "spawns (StartSpawn n k) = int n + 1"
| "spawns (RelSpawn b k) = 1"
| "spawns (GrowSpawn b k) = 1"
| "spawns t = 0"

abbreviation tally :: "(task \<Rightarrow> 'a::comm_monoid_add) \<Rightarrow> task multiset \<Rightarrow> 'a" where
  "tally f M \<equiv> \<Sum>t\<in>#M. f t"

definition workers :: "sys \<Rightarrow> worker multiset" where
  "workers s = mset (idle (st s)) + tally held (tasks s) + lost s"

text \<open>The processes somebody answers for, and those nobody does.\<close>

definition processes :: "sys \<Rightarrow> worker multiset" where
  "processes s = workers s + tally born (tasks s) + orphans s"

lemma proc_process [simp]: "proc (process p) = Some p"
  by (simp add: process_def new_worker_def)

lemma tally_notify:
  assumes "f AcqNotified = f AcqWaiting"
  shows "tally f (notify M) = tally f M"
proof (cases "AcqWaiting \<in># M")
  case True
  from multi_member_split [OF True] obtain N where "M = add_mset AcqWaiting N" ..
  with assms show ?thesis by (simp add: notify_def)
qed (simp add: notify_def)

lemma tally_notify_all:
  assumes "f AcqNotified = f AcqWaiting"
  shows "tally f (notify_all M) = tally f M"
  using assms by (induction M) (simp_all add: notify_all_def notified_def)

lemma tally_mark:
  assumes "\<And>t. f (mark t) = f t"
  shows "tally f (image_mset mark M) = tally f M"
  using assms by (induction M) simp_all

lemma mark_same [simp]:
  "held (mark t) = held t" "waits (mark t) = waits t" "grows (mark t) = grows t"
  "holds (mark t) = holds t" "spawns (mark t) = spawns t" "born (mark t) = born t"
  "forking (mark t) = forking t" "child_of (mark t) = child_of t"
  by (cases t; simp add: born_def)+

lemma with_child_same [simp]:
  "held (with_child k t) = held t" "waits (with_child k t) = waits t" "grows (with_child k t) = grows t"
  "holds (with_child k t) = holds t" "spawns (with_child k t) = spawns t"
  "marked (with_child k t) = marked t" "starting (with_child k t) = starting t"
  "sweeping (with_child k t) = sweeping t" "forking (with_child k t) = forking t"
  by (cases t; simp)+

lemma child_of_with [simp]: "forking t \<Longrightarrow> child_of (with_child k t) = k"
  by (cases t) simp_all

lemma born_simps [simp]:
  "born (StartSpawn n k) = child_process k" "born (RelSpawn b k) = child_process k"
  "born (GrowSpawn b k) = child_process k" "\<not> forking t \<Longrightarrow> born t = {#}"
  "forking t \<Longrightarrow> born (with_child k t) = child_process k"
  by (simp_all add: born_def) (cases t; simp)

lemma forking_held [simp]: "forking t \<Longrightarrow> held t = {#}"
  by (cases t) simp_all

lemmas tally_moves = tally_notify tally_notify_all tally_mark

lemma in_notify: "t \<in># notify M \<Longrightarrow> t \<in># M \<or> t = AcqNotified"
  by (auto simp: notify_def split: if_splits dest: in_diffD)

lemma in_notify_all: "t \<in># notify_all M \<Longrightarrow> t \<in># M \<or> t = AcqNotified"
  by (auto simp: notify_all_def notified_def split: if_splits)

end
