(* ===== verification/PoolCounts.thy ===== *)
theory PoolCounts
  imports PoolSystem
begin

text \<open>
  The pool's counters against its tasks, in every reachable state: \<open>_total\<close> counts the workers
  that exist, \<open>_waiting\<close> the suspended acquires, \<open>_pending_grows\<close> the grow tasks, the lock has
  one holder, and \<open>_total\<close> with the spawns in flight stays within the configured bound.
\<close>

subsection \<open>What a segment of \<open>acquire\<close> does to the counters\<close>

fun given :: "acquired \<Rightarrow> worker multiset" where
  "given (Handed w) = {#w#}"
| "given _ = {#}"

fun waits_after :: "acquired \<Rightarrow> int" where
  "waits_after (Waits g) = 1"
| "waits_after _ = 0"

fun grows_after :: "acquired \<Rightarrow> int" where
  "grows_after (Waits g) = of_bool g"
| "grows_after _ = 0"

lemma acquire_loop_effect:
  assumes "acquire_loop T P = (a, P')"
  shows "\<exists>dead. mset (idle P) = mset dead + given a + mset (idle P')
      \<and> list_all (\<lambda>w. \<not> is_alive T w) dead \<and> total P' = total P - int (length dead)"
    and "waiting P' = waiting P + waits_after a" "pending_grows P' = pending_grows P + grows_after a"
    and "config P' = config P" "stopped P' = stopped P"
proof -
  have "(\<exists>dead. mset (idle P) = mset dead + given a + mset (idle P')
      \<and> list_all (\<lambda>w. \<not> is_alive T w) dead \<and> total P' = total P - int (length dead))
    \<and> waiting P' = waiting P + waits_after a \<and> pending_grows P' = pending_grows P + grows_after a
    \<and> config P' = config P \<and> stopped P' = stopped P"
  proof (cases rule: acquire_loop_cases [of P T])
    case stop
    with assms show ?thesis by (auto intro!: exI [of _ "[]"])
  next
    case (hand dead w rest)
    with assms show ?thesis by (auto intro!: exI [of _ dead])
  next
    case grow
    with assms show ?thesis by (auto intro!: exI [of _ "idle P"])
  next
    case full
    with assms show ?thesis by (auto intro!: exI [of _ "idle P"])
  qed
  then show "\<exists>dead. mset (idle P) = mset dead + given a + mset (idle P')
      \<and> list_all (\<lambda>w. \<not> is_alive T w) dead \<and> total P' = total P - int (length dead)"
    and "waiting P' = waiting P + waits_after a" "pending_grows P' = pending_grows P + grows_after a"
    and "config P' = config P" "stopped P' = stopped P" by blast+
qed

lemma acquire_cancelled_fields [simp]:
  "idle (acquire_cancelled P) = idle P" "total (acquire_cancelled P) = total P"
  "waiting (acquire_cancelled P) = waiting P - 1"
  "pending_grows (acquire_cancelled P) = pending_grows P"
  "stopped (acquire_cancelled P) = stopped P"
  by (simp_all add: acquire_cancelled_def)

lemma acquire_wake_effect:
  assumes "acquire_wake T P = (a, P')"
  shows "\<exists>dead. mset (idle P) = mset dead + given a + mset (idle P')
      \<and> list_all (\<lambda>w. \<not> is_alive T w) dead \<and> total P' = total P - int (length dead)"
    and "waiting P' = waiting P - 1 + waits_after a"
    and "pending_grows P' = pending_grows P + grows_after a"
    and "config P' = config P" "stopped P' = stopped P"
proof -
  have "(\<exists>dead. mset (idle P) = mset dead + given a + mset (idle P')
      \<and> list_all (\<lambda>w. \<not> is_alive T w) dead \<and> total P' = total P - int (length dead))
    \<and> waiting P' = waiting P - 1 + waits_after a \<and> pending_grows P' = pending_grows P + grows_after a
    \<and> config P' = config P \<and> stopped P' = stopped P"
  proof (cases rule: acquire_wake_cases [of P T])
    case (gave_up err)
    with assms show ?thesis by (auto intro!: exI [of _ "[]"])
  next
    case again
    with assms have "acquire_loop T (acquire_cancelled P) = (a, P')" by simp
    from acquire_loop_effect [OF this] show ?thesis by simp
  qed
  then show "\<exists>dead. mset (idle P) = mset dead + given a + mset (idle P')
      \<and> list_all (\<lambda>w. \<not> is_alive T w) dead \<and> total P' = total P - int (length dead)"
    and "waiting P' = waiting P - 1 + waits_after a"
    and "pending_grows P' = pending_grows P + grows_after a"
    and "config P' = config P" "stopped P' = stopped P" by blast+
qed

lemma after_acquire_tally [simp]:
  "tally held (after_acquire a R) = given a + tally held R"
  "tally waits (after_acquire a R) = waits_after a + tally waits R"
  "tally grows (after_acquire a R) = grows_after a + tally grows R"
  "tally holds (after_acquire a R) = tally holds R"
  "tally spawns (after_acquire a R) = tally spawns R"
  "tally born (after_acquire a R) = tally born R"
  by (cases a; simp)+

lemma after_start_simps [simp]:
  "st (after_start n R s) = st s" "procs (after_start n R s) = procs s"
  "lost (after_start n R s) = lost s" "orphans (after_start n R s) = orphans s" "clock (after_start n R s) = clock s"
  "locked (after_start n R s) = (n > 0)"
  "tasks (after_start n R s) = add_mset (if n = 0 then SweepSleep else StartSpawn (n - 1) Unmade) R"
  by (simp_all add: after_start_def)

lemma spawn_ok_simps [simp]:
  "st (spawn_ok w s) = spawned w (st s)" "procs (spawn_ok w s) = procs s" "lost (spawn_ok w s) = lost s"
  "orphans (spawn_ok w s) = orphans s" "clock (spawn_ok w s) = clock s" "locked (spawn_ok w s) = locked s"
  "tasks (spawn_ok w s) = tasks s"
  by (simp_all add: spawn_ok_def)

lemma spawn_orphaned_simps [simp]:
  "st (spawn_orphaned w err s) = spawn_failed err (st s)" "procs (spawn_orphaned w err s) = procs s"
  "lost (spawn_orphaned w err s) = lost s" "orphans (spawn_orphaned w err s) = add_mset w (orphans s)"
  "clock (spawn_orphaned w err s) = clock s" "locked (spawn_orphaned w err s) = locked s"
  "tasks (spawn_orphaned w err s) = tasks s"
  by (simp_all add: spawn_orphaned_def)

lemma started_proc: "started faults p s = (e, w) \<Longrightarrow> proc w = Some p"
  by (simp add: started_def placed_proc)

lemma started_fails: "started faults p s = (Some e, w) \<Longrightarrow> job_object (st s) \<noteq> None"
  using placed_without_job by (cases "job_object (st s)") (auto simp: started_def)

lemma segment_fields [simp]:
  "idle (spawned w P) = idle P @ [w]" "total (spawned w P) = total P + 1"
  "waiting (spawned w P) = waiting P" "pending_grows (spawned w P) = pending_grows P"
  "stopped (spawned w P) = stopped P"
  "idle (spawn_failed e P) = idle P" "total (spawn_failed e P) = total P"
  "waiting (spawn_failed e P) = waiting P" "pending_grows (spawn_failed e P) = pending_grows P"
  "stopped (spawn_failed e P) = stopped P"
  "idle (grow_done P) = idle P" "total (grow_done P) = total P" "waiting (grow_done P) = waiting P"
  "pending_grows (grow_done P) = pending_grows P - 1" "stopped (grow_done P) = stopped P"
  "idle (one_less P) = idle P" "total (one_less P) = total P - 1" "waiting (one_less P) = waiting P"
  "pending_grows (one_less P) = pending_grows P" "stopped (one_less P) = stopped P"
  "idle (stop_begin P) = idle P" "total (stop_begin P) = total P" "waiting (stop_begin P) = waiting P"
  "pending_grows (stop_begin P) = pending_grows P" "stopped (stop_begin P) = True"
  by (simp_all add: segment_defs)

lemma release_locked_effect:
  assumes "release_locked now P = (b, P')"
  shows "idle P' = idle P" "total P' = total P - 1" "waiting P' = waiting P"
    "pending_grows P' = pending_grows P" "stopped P' = stopped P" "config P' = config P"
    "b \<Longrightarrow> \<not> stopped P \<and> (total P' < min_workers (config P) \<or> total P' < max_workers (config P))"
  using assms by (auto simp: release_locked_def Let_def)

lemma sweep_select_effect:
  assumes "sweep_select now P = (kills, P')"
  shows "mset (idle P) = mset kills + mset (idle P')" "total P' = total P" "waiting P' = waiting P"
    "pending_grows P' = pending_grows P" "stopped P' = stopped P" "config P' = config P"
  using assms sweep_split_mset by (auto simp: sweep_select_split)

lemma next_kill_tally:
  assumes "next_kill busy done ws T = (t, T')"
    and "\<And>w vs. held (busy w vs) = add_mset w (mset vs)" "held done = {#}"
  shows "held t = mset ws"
  using assms by (cases ws) auto

lemma next_kill_neutral:
  assumes "next_kill busy done ws T = (t, T')" "f done = c" "\<And>w vs. f (busy w vs) = c"
  shows "f t = c"
  using assms by (cases ws) auto

lemma next_kill_tallies:
  assumes "next_kill SweepKill SweepSleep ws T = (t, T') \<or> next_kill StopKill StopDone ws T = (t, T')"
  shows "held t = mset ws" "waits t = 0" "grows t = 0" "holds t = 0" "spawns t = 0" "\<not> forking t"
  using assms by (cases ws; force)+

subsection \<open>The counters\<close>

definition counted :: "sys \<Rightarrow> bool" where
  "counted s \<longleftrightarrow>
     total (st s) = int (size (workers s)) \<and> waiting (st s) = tally waits (tasks s) \<and>
     pending_grows (st s) = tally grows (tasks s) \<and> tally holds (tasks s) = of_bool (locked s)"

lemma sweeping_tallies:
  "sweeping x \<Longrightarrow> waits x = 0 \<and> grows x = 0 \<and> holds x = 0 \<and> spawns x = 0 \<and> \<not> forking x"
  by (cases x) auto

lemma holds_nonneg: "0 \<le> tally holds M"
proof (induction M)
  case (add t M)
  have "0 \<le> holds t" by (cases t) simp_all
  with add show ?case by simp
qed simp

lemma one_holder: "1 + tally holds M = of_bool b \<longleftrightarrow> b \<and> tally holds M = 0"
  using holds_nonneg [of M] by (cases b) auto

lemma counted_boot: "booted c s \<Longrightarrow> counted s"
  by (auto simp: booted_def boot_def counted_def workers_def new_pool_def)

lemma counted_os: "os_step s t \<Longrightarrow> counted s \<Longrightarrow> counted t"
  by (cases rule: os_step.cases) (auto simp: counted_def workers_def)

lemma counted_pool:
  assumes "pool_step s t" "counted s"
  shows "counted t"
  using assms(1)
proof cases
  case (acquire R a P)
  from acquire_loop_effect(1) [OF acquire(4)] obtain dead where
    d: "mset (idle (st s)) = mset dead + given a + mset (idle P)"
    "total P = total (st s) - int (length dead)" by blast
  have "size (mset (idle (st s))) = length dead + size (given a) + length (idle P)"
    unfolding d by simp
  then show ?thesis using acquire assms(2) d(2) acquire_loop_effect(2,3) [OF acquire(4)]
    by (simp add: counted_def workers_def)
next
  case (wake R a P)
  from acquire_wake_effect(1) [OF wake(4)] obtain dead where
    d: "mset (idle (st s)) = mset dead + given a + mset (idle P)"
    "total P = total (st s) - int (length dead)" by blast
  have "size (mset (idle (st s))) = length dead + size (given a) + length (idle P)"
    unfolding d by simp
  then show ?thesis using wake assms(2) d(2) acquire_wake_effect(2,3) [OF wake(4)]
    by (simp add: counted_def workers_def)
next
  case (sweep R kills P t T)
  have "length (idle (st s)) = length kills + length (idle P)"
    using arg_cong [OF sweep_select_effect(1) [OF sweep(4)], of size] by simp
  then show ?thesis using sweep assms(2) sweep_select_effect(2-4) [OF sweep(4)]
      next_kill_tallies [of kills "procs s" t T]
    by (simp add: counted_def workers_def)
next
  case (sweep_count w ws R t T)
  then show ?thesis using assms(2) next_kill_tallies [of ws "procs s" t T]
    by (simp add: counted_def workers_def)
next
  case (stop_count w ws R t T)
  then show ?thesis using assms(2) next_kill_tallies [of ws "procs s" t T]
    by (simp add: counted_def workers_def)
next
  case (stop_idle R doomed P t T)
  then show ?thesis using assms(2) next_kill_tallies [of doomed "procs s" t T]
    by (auto simp: counted_def workers_def stop_collect_def tally_moves)
next
  case (stop x R)
  then show ?thesis using assms(2) sweeping_tallies [of x]
    by (simp add: counted_def workers_def)
qed (use assms(2) in \<open>auto simp: counted_def workers_def tally_moves one_holder release_locked_effect\<close>)

interpretation counts: invariant_of "booted c" sys_step counted
  using counted_boot counted_os counted_pool by unfold_locales (auto simp: sys_step_def)

subsection \<open>The bound\<close>

definition cap :: "pool_config \<Rightarrow> int" where
  "cap c = max 0 (max (min_workers c) (max_workers c))"

definition bounded :: "pool_config \<Rightarrow> sys \<Rightarrow> bool" where
  "bounded c s \<longleftrightarrow>
     config (st s) = c \<and> total (st s) + tally spawns (tasks s) \<le> cap c \<and> counted s"

lemma no_holder_no_spawn: "tally holds M = 0 \<Longrightarrow> tally spawns M = 0"
proof (induction M)
  case (add t M)
  have t: "0 \<le> holds t" "holds t = 0 \<Longrightarrow> spawns t = 0" by (cases t; simp)+
  with add.prems holds_nonneg [of M] have "holds t = 0 \<and> tally holds M = 0" by simp
  with t add.IH show ?case by simp
qed simp

lemma bounded_boot: "booted c s \<Longrightarrow> bounded c s"
  using counted_boot [of c s]
  by (auto simp: booted_def boot_def bounded_def new_pool_def cap_def)

lemma bounded_os: "os_step s t \<Longrightarrow> bounded c s \<Longrightarrow> bounded c t"
  using counted_os [of s t] by (auto simp: bounded_def elim: os_step.cases)

lemma bounded_pool:
  assumes "pool_step s t" "bounded c s"
  shows "bounded c t"
proof -
  have c: "config (st s) = c" "total (st s) + tally spawns (tasks s) \<le> cap c"
    and free: "\<not> locked s \<Longrightarrow> tally spawns (tasks s) = 0"
    using assms(2) no_holder_no_spawn by (auto simp: bounded_def counted_def)
  have "counted t" using assms counted_pool by (simp add: bounded_def)
  moreover have "config (st t) = c \<and> total (st t) + tally spawns (tasks t) \<le> cap c"
    using assms(1)
  proof cases
    case (acquire R a P)
    then show ?thesis using c acquire_loop_effect(1,4) [OF acquire(4)] by auto
  next
    case (wake R a P)
    then show ?thesis using c acquire_wake_effect(1,4) [OF wake(4)] by auto
  next
    case (release_count b w R P)
    then show ?thesis using c release_locked_effect(2,6) [OF release_count(4)] by auto
  next
    case (release_respawn b w R P)
    then show ?thesis
      using c free release_locked_effect(2,6,7) [OF release_respawn(4)] by (auto simp: cap_def)
  next
    case (grow b R)
    then show ?thesis using c free by (auto simp: grow_refused_def cap_def)
  next
    case (sweep R kills P t T)
    then show ?thesis using c sweep_select_effect(2,6) [OF sweep(4)]
        next_kill_tallies [of kills "procs s" t T] by auto
  next
    case (sweep_count w ws R t T)
    then show ?thesis using c next_kill_tallies [of ws "procs s" t T] by auto
  next
    case (stop_count w ws R t T)
    then show ?thesis using c next_kill_tallies [of ws "procs s" t T] by auto
  next
    case (stop_idle R doomed P t T)
    then show ?thesis using c next_kill_tallies [of doomed "procs s" t T]
      by (auto simp: stop_collect_def tally_moves)
  next
    case (stop x R)
    then show ?thesis using c sweeping_tallies [of x] by auto
  qed (use c in \<open>auto simp: tally_moves\<close>)
  ultimately show ?thesis by (simp add: bounded_def)
qed

interpretation bound: invariant_of "booted c" sys_step "bounded c"
  using bounded_boot bounded_os bounded_pool by unfold_locales (auto simp: sys_step_def)

text \<open>A process that is being made is one of the spawns in flight.\<close>

lemma born_spawns: "int (size (tally born M)) \<le> tally spawns M"
proof (induction M)
  case (add t M)
  have "int (size (born t)) \<le> spawns t"
    by (cases t; cases "child_of t"; simp)
  with add show ?case by simp
qed simp

subsection \<open>Processes nobody answers for\<close>

text \<open>Only a job object can refuse a process, so a pool without one forgets none.\<close>

definition jobless_clean :: "sys \<Rightarrow> bool" where
  "jobless_clean s \<longleftrightarrow> (job_object (st s) = None \<longrightarrow> orphans s = {#})"

lemma jobless_pool: "pool_step s t \<Longrightarrow> jobless_clean s \<Longrightarrow> jobless_clean t"
  by (erule pool_step.cases) (auto simp: jobless_clean_def locked_segment_job started_fails)

interpretation jobs: invariant_of "booted c" sys_step jobless_clean
  using jobless_pool
  by unfold_locales (auto simp: sys_step_def booted_def boot_def jobless_clean_def elim!: os_step.cases)

end
