(* ===== verification/PoolOwners.thy ===== *)
theory PoolOwners
  imports PoolCounts
begin

text \<open>
  Who answers for which process. A step keeps the processes there are, adds the one it made, or retires
  those that have been reaped; so no process is ever held twice, and one that has not been reaped is
  always held by the idle queue, by a task that uses, kills or spawns it, or by one of the ghosts.
\<close>

subsection \<open>Tables and owners\<close>

text \<open>What signals, exits and reaping do to a table.\<close>

definition tame :: "ptable \<Rightarrow> ptable \<Rightarrow> bool" where
  "tame T T' \<longleftrightarrow> (\<forall>p. T' p = None \<longleftrightarrow> T p = None) \<and> (\<forall>p. reaped T p \<longrightarrow> reaped T' p)"

lemma is_alive_iff: "is_alive T w \<longleftrightarrow> (\<exists>p. proc w = Some p \<and> \<not> reaped T p)"
  by (simp add: is_alive_def split: option.splits)

lemma tame_refl [simp, tame_rules]: "tame T T"
  by (simp add: tame_def)

lemma tame_trans: "tame T T' \<Longrightarrow> tame T' T'' \<Longrightarrow> tame T T''"
  by (simp add: tame_def)

lemma tame_signalled [tame_rules]: "tame T (signalled w T)"
  by (simp add: tame_def)

lemma tame_awaited [tame_rules]: "tame T (awaited w T)"
  by (simp add: tame_def awaited_keeps_reaped)

lemma tame_kill [tame_rules]: "tame T (kill w T)"
  by (simp add: kill_def' tame_trans [OF tame_signalled tame_awaited])

lemma tame_reap [tame_rules]: "T p \<noteq> None \<Longrightarrow> tame T (T(p \<mapsto> Reaped rc))"
  by (auto simp: tame_def)

lemma tame_dies [tame_rules]: "T p = Some Running \<Longrightarrow> tame T (T(p \<mapsto> Dead rc))"
  by (auto simp: tame_def) (simp add: reaped_def)

lemma tame_run: "run w c T = (r, T') \<Longrightarrow> comm_possible w c T \<Longrightarrow> tame T T'"
  by (auto simp: run_def comm_possible_def tame_kill intro!: tame_reap
      split: option.splits comm.splits)

lemma tame_next_kill: "next_kill busy done ws T = (t, T') \<Longrightarrow> tame T T'"
  by (cases ws) (auto simp: tame_signalled)

lemma tame_alive: "tame T T' \<Longrightarrow> \<not> is_alive T w \<Longrightarrow> \<not> is_alive T' w"
  by (auto simp: tame_def is_alive_def split: option.splits)

abbreviation once :: "'a multiset \<Rightarrow> bool" where
  "once M \<equiv> \<forall>x. count M x \<le> 1"

text \<open>\<open>M\<close> are the values of \<open>_proc\<close>.\<close>

definition owns :: "nat option multiset \<Rightarrow> ptable \<Rightarrow> bool" where
  "owns M T \<longleftrightarrow>
     (\<forall>x \<in># M. \<exists>p. x = Some p \<and> T p \<noteq> None) \<and> once M \<and> (\<forall>p. \<not> reaped T p \<longrightarrow> Some p \<in># M)"

lemma owns_tame: "owns M T \<Longrightarrow> tame T T' \<Longrightarrow> owns M T'"
  unfolding owns_def tame_def by metis

lemma owns_made:
  assumes "owns M T" "T p = None"
  shows "owns (add_mset (Some p) M) (T(p \<mapsto> Running))"
proof -
  have "Some p \<notin># M" using assms by (auto simp: owns_def)
  then have "count M (Some p) = 0" by (simp only: not_in_iff)
  moreover have "\<forall>x \<in># add_mset (Some p) M. \<exists>q. x = Some q \<and> (T(p \<mapsto> Running)) q \<noteq> None"
    using assms by (fastforce simp: owns_def)
  ultimately show ?thesis using assms unfolding owns_def by auto
qed

lemma owns_drop:
  assumes "owns (D + M) T" "\<forall>x \<in># D. \<forall>p. x = Some p \<longrightarrow> reaped T p"
  shows "owns M T"
proof -
  have "count M x \<le> 1" for x
  proof -
    have "count (D + M) x \<le> 1" using assms(1) unfolding owns_def by blast
    then show ?thesis by simp
  qed
  with assms show ?thesis by (fastforce simp: owns_def)
qed

subsection \<open>Tasks whose worker has ended\<close>

fun settled :: "ptable \<Rightarrow> task \<Rightarrow> bool" where
  "settled T (RelLock b w) = (\<not> is_alive T w)"
| "settled T (SweepDec w ws) = (\<not> is_alive T w)"
| "settled T (StopDec w ws) = (\<not> is_alive T w)"
| "settled T t = True"

lemma settled_tame: "tame T T' \<Longrightarrow> settled T t \<Longrightarrow> settled T' t"
  by (cases t) (auto simp: tame_alive)

lemma settled_mark [simp]: "settled T (mark t) = settled T t"
  by (cases t) auto

lemma settled_with_child [simp]: "settled T (with_child k t) = settled T t"
  by (cases t) auto

lemma settled_made:
  assumes "settled T t" "T p = None" "\<forall>w \<in># held t. \<exists>q. proc w = Some q \<and> T q \<noteq> None"
  shows "settled (T(p \<mapsto> Running)) t"
  using assms by (cases t) (auto simp: is_alive_def)

lemma awaited_not_alive: "ended T w \<Longrightarrow> \<not> is_alive (awaited w T) w"
  by (auto simp: ended_def is_alive_def awaited_reaps split: option.splits)

lemma settled_next_kill:
  "next_kill SweepKill SweepSleep ws T = (t, T') \<or> next_kill StopKill StopDone ws T = (t, T') \<Longrightarrow>
     settled T'' t"
  by (cases ws) auto

subsection \<open>What a step does to the workers\<close>

definition settled_all :: "sys \<Rightarrow> bool" where
  "settled_all s \<longleftrightarrow> (\<forall>t \<in># tasks s. settled (procs s) t)"

lemma workers_held: "t \<in># tasks s \<Longrightarrow> w \<in># held t \<Longrightarrow> w \<in># workers s"
  by (auto simp: workers_def)

lemma workers_idle: "w \<in> set (idle (st s)) \<Longrightarrow> w \<in># workers s"
  by (simp add: workers_def)

abbreviation pids :: "sys \<Rightarrow> nat option multiset" where
  "pids s \<equiv> image_mset proc (processes s)"

lemma pids_parts:
  "pids s = image_mset proc (mset (idle (st s))) + image_mset proc (tally held (tasks s)) +
     image_mset proc (lost s) + image_mset proc (tally born (tasks s)) + image_mset proc (orphans s)"
  by (simp add: processes_def workers_def)

text \<open>\<open>Worker.start\<close> makes a worker of the process it was waiting for.\<close>

lemma pids_started:
  assumes "started faults p s = (e, w)"
  shows "image_mset proc (child_process (Made p)) = {#proc w#}"
  using started_proc [OF assms] by simp

lemma awaited_dead: "ended T (process p) \<Longrightarrow> reaped (awaited (process p) T) p"
  by (auto simp: ended_def intro!: awaited_reaps)

lemma pool_step_pids:
  assumes "pool_step s t" "settled_all s"
  obtains (keep) "pids t = pids s" "tame (procs s) (procs t)"
  | (made) p where "procs s p = None" "procs t = (procs s)(p \<mapsto> Running)"
      "pids t = add_mset (Some p) (pids s)"
  | (retire) D where "pids s = D + pids t" "tame (procs s) (procs t)"
      "\<forall>x \<in># D. \<forall>p. x = Some p \<longrightarrow> reaped (procs t) p"
  using assms(1)
proof cases
  case (child_made x R p)
  then show ?thesis by (intro made [of p]) (auto simp: pids_parts born_def [of x])
next
  case (child_aborted x R p)
  then show ?thesis by (intro keep) (auto simp: pids_parts born_def [of x] tame_signalled)
next
  case (child_ended x R p)
  then show ?thesis using awaited_dead [OF child_ended(5)]
    by (intro retire [of "{#Some p#}"]) (auto simp: pids_parts born_def [of x] tame_awaited)
next
  case (start_spawned n p R faults w)
  with started_proc [OF start_spawned(3)] show ?thesis by (intro keep) (auto simp: pids_parts tally_moves)
next
  case (release_spawned b p R faults w)
  with started_proc [OF release_spawned(3)] show ?thesis by (intro keep) (auto simp: pids_parts tally_moves)
next
  case (grow_spawned b p R faults w)
  with started_proc [OF grow_spawned(3)] show ?thesis by (intro keep) (auto simp: pids_parts tally_moves)
next
  case (start_orphaned n p R faults e w)
  with started_proc [OF start_orphaned(3)] show ?thesis by (intro keep) (auto simp: pids_parts)
next
  case (release_orphaned b p R faults e w err)
  with started_proc [OF release_orphaned(3)] show ?thesis by (intro keep) (auto simp: pids_parts tally_moves)
next
  case (grow_orphaned b p R faults e w err)
  with started_proc [OF grow_orphaned(3)] show ?thesis by (intro keep) (auto simp: pids_parts tally_moves)
next
  case (acquire R a P)
  from acquire_loop_effect(1) [OF acquire(4)] obtain dead where
    "mset (idle (st s)) = mset dead + given a + mset (idle P)"
    "list_all (\<lambda>w. \<not> is_alive (procs s) w) dead" by blast
  with acquire show ?thesis
    by (intro retire [of "image_mset proc (mset dead)"]) (auto simp: pids_parts list_all_iff is_alive_iff)
next
  case (wake R a P)
  from acquire_wake_effect(1) [OF wake(4)] obtain dead where
    "mset (idle (st s)) = mset dead + given a + mset (idle P)"
    "list_all (\<lambda>w. \<not> is_alive (procs s) w) dead" by blast
  with wake show ?thesis
    by (intro retire [of "image_mset proc (mset dead)"]) (auto simp: pids_parts list_all_iff is_alive_iff)
next
  case (run_ends w R c r T)
  then show ?thesis using tame_run by (intro keep) (auto simp: pids_parts)
next
  case (release_count b w R P)
  with assms(2) release_locked_effect(1) [OF release_count(4)] show ?thesis
    by (intro retire [of "{#proc w#}"]) (auto simp: pids_parts settled_all_def is_alive_iff)
next
  case (release_respawn b w R P)
  with assms(2) release_locked_effect(1) [OF release_respawn(4)] show ?thesis
    by (intro retire [of "{#proc w#}"]) (auto simp: pids_parts settled_all_def is_alive_iff)
next
  case (sweep R kills P u T)
  with sweep_select_effect(1) [OF sweep(4)] next_kill_tallies(1,6) [of kills "procs s" u T] tame_next_kill
  show ?thesis by (intro keep) (auto simp: pids_parts)
next
  case (sweep_count w ws R u T)
  have "tame (procs s) T" using tame_next_kill [OF sweep_count(4)] .
  with sweep_count assms(2) next_kill_tallies(1,6) [of ws "procs s" u T] show ?thesis
    by (intro retire [of "{#proc w#}"]) (auto simp: pids_parts settled_all_def is_alive_iff tame_def)
next
  case (stop_count w ws R u T)
  have "tame (procs s) T" using tame_next_kill [OF stop_count(4)] .
  with stop_count assms(2) next_kill_tallies(1,6) [of ws "procs s" u T] show ?thesis
    by (intro retire [of "{#proc w#}"]) (auto simp: pids_parts settled_all_def is_alive_iff tame_def)
next
  case (stop_idle R doomed P u T)
  with next_kill_tallies(1,6) [of doomed "procs s" u T] tame_next_kill show ?thesis
    by (intro keep) (auto simp: pids_parts stop_collect_def tally_moves)
next
  case (stop x R)
  with sweeping_tallies [of x] show ?thesis by (intro keep) (auto simp: pids_parts)
next
  case (cancel_wait x R)
  then show ?thesis by (intro keep) (auto simp: pids_parts)
next
  case (cancel_release x R w)
  then show ?thesis by (intro keep) (auto simp: pids_parts)
next
  case (stop_drained x R)
  then show ?thesis by (intro keep) (auto simp: pids_parts)
qed (rule keep; auto simp: pids_parts tally_moves intro: tame_rules)+

subsection \<open>The invariant\<close>

definition owned :: "sys \<Rightarrow> bool" where
  "owned s \<longleftrightarrow> owns (pids s) (procs s) \<and> settled_all s"

lemma worker_known:
  assumes "owned s" "w \<in># workers s"
  obtains p where "proc w = Some p" "procs s p \<noteq> None"
proof -
  have "proc w \<in># pids s" using assms(2) by (auto simp: processes_def)
  with assms(1) that show ?thesis unfolding owned_def owns_def by blast
qed

lemma settled_list_tame:
  "\<forall>u \<in># R. settled T u \<Longrightarrow> tame T T' \<Longrightarrow> \<forall>u \<in># R. settled T' u"
  using settled_tame by blast

lemma settled_moved:
  assumes "\<forall>u \<in># R. settled T u"
  shows "\<forall>u \<in># notify R. settled T u" "\<forall>u \<in># notify_all R. settled T u"
    "\<forall>u \<in># image_mset mark R. settled T u" "\<forall>u \<in># after_acquire a R. settled T u"
  using assms by (auto dest!: in_notify in_notify_all) (cases a; auto split: if_splits)

lemma settled_all_made:
  assumes "owned s" "procs s p = None" "R \<subseteq># tasks s"
  shows "\<forall>u \<in># R. settled ((procs s)(p \<mapsto> Running)) u"
proof
  fix u assume "u \<in># R"
  with assms(3) have u: "u \<in># tasks s" by (rule mset_subset_eqD)
  show "settled ((procs s)(p \<mapsto> Running)) u"
  proof (rule settled_made)
    show "procs s p = None" by (rule assms(2))
    show "settled (procs s) u" using assms(1) u by (simp add: owned_def settled_all_def)
    show "\<forall>w \<in># held u. \<exists>q. proc w = Some q \<and> procs s q \<noteq> None"
      using worker_known [OF assms(1) workers_held [OF u]] by metis
  qed
qed

lemma settled_all_step:
  assumes "pool_step s t" "owned s"
  shows "settled_all t"
proof -
  have all: "\<forall>u \<in># tasks s. settled (procs s) u"
    using assms(2) by (simp add: owned_def settled_all_def)
  show ?thesis using assms(1)
  proof cases
    case (child_made x R p)
    have "settled ((procs s)(p \<mapsto> Running)) x"
      using settled_all_made [OF assms(2) child_made(5), of "{#x#}"] child_made(2) by simp
    moreover have "\<forall>u \<in># R. settled ((procs s)(p \<mapsto> Running)) u"
      using settled_all_made [OF assms(2) child_made(5), of R] child_made(2) by simp
    ultimately show ?thesis unfolding settled_all_def child_made(1) by simp
  next
    case (child_aborted x R p)
    then show ?thesis using all settled_list_tame [OF _ tame_signalled, of "add_mset x R" "procs s" "process p"]
      by (simp add: settled_all_def)
  next
    case (child_ended x R p)
    then show ?thesis using all settled_list_tame [OF _ tame_awaited, of "add_mset x R" "procs s" "process p"]
      by (simp add: settled_all_def)
  next
    case (start_spawned n p R faults w)
    then show ?thesis using all settled_moved(1) [of R "procs s"] by (simp add: settled_all_def)
  next
    case (release_spawned b p R faults w)
    then show ?thesis using all settled_moved(1) [of R "procs s"] by (simp add: settled_all_def)
  next
    case (release_orphaned b p R faults e w err)
    then show ?thesis using all settled_moved(1) [of R "procs s"] by (simp add: settled_all_def)
  next
    case (grow_spawned b p R faults w)
    then show ?thesis using all settled_moved(1) [of R "procs s"] by (simp add: settled_all_def)
  next
    case (grow_orphaned b p R faults e w err)
    then show ?thesis using all settled_moved(1) [of R "procs s"] by (simp add: settled_all_def)
  next
    case (run_ends w R c r T)
    then show ?thesis using all settled_list_tame [OF _ tame_run [OF run_ends(4,3)], of R]
      by (simp add: settled_all_def)
  next
    case (release_kill b w R)
    then show ?thesis using all settled_list_tame [OF _ tame_signalled, of R "procs s" w]
      by (simp add: settled_all_def)
  next
    case (release_killed b w R)
    then show ?thesis using all settled_list_tame [OF _ tame_awaited, of R "procs s" w]
      by (simp add: settled_all_def awaited_not_alive)
  next
    case (sweep_killed w ws R)
    then show ?thesis using all settled_list_tame [OF _ tame_awaited, of R "procs s" w]
      by (simp add: settled_all_def awaited_not_alive)
  next
    case (stop_killed w ws R)
    then show ?thesis using all settled_list_tame [OF _ tame_awaited, of R "procs s" w]
      by (simp add: settled_all_def awaited_not_alive)
  next
    case (sweep R kills P u T)
    then show ?thesis using all settled_list_tame [OF _ tame_next_kill [OF sweep(5)], of R]
      settled_next_kill [of kills "procs s" u T T] by (simp add: settled_all_def)
  next
    case (sweep_count w ws R u T)
    then show ?thesis using all settled_list_tame [OF _ tame_next_kill [OF sweep_count(4)], of R]
      settled_next_kill [of ws "procs s" u T T] by (simp add: settled_all_def)
  next
    case (stop_count w ws R u T)
    then show ?thesis using all settled_list_tame [OF _ tame_next_kill [OF stop_count(4)], of R]
      settled_next_kill [of ws "procs s" u T T] by (simp add: settled_all_def)
  next
    case (stop_idle R doomed P u T)
    then show ?thesis using all settled_list_tame [OF _ tame_next_kill [OF stop_idle(5)], of R]
      settled_next_kill [of doomed "procs s" u T T] settled_moved(2) [of R T]
      by (simp add: settled_all_def)
  next
    case (acquire R a P)
    then show ?thesis using all settled_moved(4) [of R "procs s" a] by (simp add: settled_all_def)
  next
    case (wake R a P)
    then show ?thesis using all settled_moved(4) [of R "procs s" a] by (simp add: settled_all_def)
  next
    case (release_failed b k R err)
    then show ?thesis using all settled_moved(1) [of R "procs s"] by (simp add: settled_all_def)
  next
    case (grow_failed b k R err)
    then show ?thesis using all settled_moved(1) [of R "procs s"] by (simp add: settled_all_def)
  qed (use all in \<open>auto simp: settled_all_def\<close>)
qed

lemma owned_pool: "pool_step s t \<Longrightarrow> owned s \<Longrightarrow> owned t"
proof -
  assume step: "pool_step s t" and s: "owned s"
  from s have o: "owns (pids s) (procs s)" "settled_all s" by (simp_all add: owned_def)
  from step o(2) have "owns (pids t) (procs t)"
  proof (cases rule: pool_step_pids)
    case keep
    with o(1) show ?thesis by (simp add: owns_tame)
  next
    case (made p)
    with owns_made [OF o(1), of p] show ?thesis by simp
  next
    case (retire D)
    have "owns (D + pids t) (procs t)" using owns_tame [OF o(1) retire(2)] by (simp only: retire(1))
    then show ?thesis using retire(3) by (rule owns_drop)
  qed
  with settled_all_step [OF step s] show "owned t" by (simp add: owned_def)
qed

lemma owned_os:
  assumes "os_step s t" "owned s"
  shows "owned t"
proof -
  have t: "tame (procs s) (procs t)" "pids t = pids s" "tasks t = tasks s"
    using assms(1) by (auto elim!: os_step.cases simp: tame_rules pids_parts)
  have "owns (pids s) (procs t)" using assms(2) owns_tame [OF _ t(1)] by (simp add: owned_def)
  moreover have "\<forall>u \<in># tasks s. settled (procs t) u"
    using assms(2) by (intro settled_list_tame [OF _ t(1)]) (simp add: owned_def settled_all_def)
  ultimately show ?thesis by (simp add: owned_def settled_all_def t)
qed

lemma owned_boot:
  assumes "booted c s"
  shows "owned s"
proof -
  from assms have "processes s = {#}" "procs s = Map.empty" "settled_all s"
    by (auto simp: booted_def boot_def processes_def workers_def new_pool_def settled_all_def)
  moreover have "reaped Map.empty p" for p by (simp add: reaped_def)
  ultimately show ?thesis by (simp add: owned_def owns_def)
qed

interpretation owners: invariant_of "booted c" sys_step owned
  using owned_boot owned_os owned_pool by unfold_locales (auto simp: sys_step_def)

end
