(* ===== verification/PoolStop.thy ===== *)
theory PoolStop
  imports PoolOwners
begin

text \<open>
  The phases of \<open>WorkerPool.stop\<close>, and what each rules out: once the sweep is gone nothing but the
  tasks of its snapshot can spawn, once those are drained nothing can, and once the idle queue
  has been collected it stays empty.
\<close>

declare sum_mset_0_iff [simp del]

fun phase :: "task \<Rightarrow> nat" where
  "phase StopSweep = 1"
| "phase StopDrain = 2"
| "phase StopGather = 2"
| "phase StopLock = 3"
| "phase (StopKill w ws) = 4"
| "phase (StopDec w ws) = 4"
| "phase StopDone = 4"
| "phase t = 0"

fun spawning :: "task \<Rightarrow> bool" where
  "spawning (GrowEnter b) = True"
| "spawning (GrowSpawn b k) = True"
| "spawning (RelSpawn b k) = True"
| "spawning t = False"

definition allowed :: "nat \<Rightarrow> task \<Rightarrow> bool" where
  "allowed n t \<longleftrightarrow>
     (n \<ge> 1 \<longrightarrow> \<not> starting t \<and> \<not> sweeping t) \<and> (n \<ge> 2 \<longrightarrow> spawning t \<longrightarrow> marked t) \<and>
     (n \<ge> 3 \<longrightarrow> \<not> spawning t)"

definition stops :: "task \<Rightarrow> nat" where
  "stops t = of_bool (phase t > 0)"

definition roots :: "task \<Rightarrow> nat" where
  "roots t = of_bool (starting t \<or> sweeping t)"

abbreviation stop_phase :: "sys \<Rightarrow> nat" where
  "stop_phase s \<equiv> tally phase (tasks s)"

definition closing :: "sys \<Rightarrow> bool" where
  "closing s \<longleftrightarrow>
     tally stops (tasks s) = of_bool (stopped (st s)) \<and> tally roots (tasks s) \<le> 1 \<and>
     (\<forall>t \<in># tasks s. allowed (stop_phase s) t) \<and> (stop_phase s = 4 \<longrightarrow> idle (st s) = [])"

lemma allowed_0 [simp]: "allowed 0 t"
  by (simp add: allowed_def)

lemma allowed_mark: "n \<le> 2 \<Longrightarrow> (n \<ge> 1 \<Longrightarrow> \<not> starting t \<and> \<not> sweeping t) \<Longrightarrow> allowed n (mark t)"
  by (cases t) (auto simp: allowed_def)

lemma allowed_less: "allowed n t \<Longrightarrow> m \<le> n \<Longrightarrow> allowed m t"
  by (auto simp: allowed_def)

lemma marks [simp]:
  "starting (mark t) = starting t" "sweeping (mark t) = sweeping t" "spawning (mark t) = spawning t"
  "spawning t \<Longrightarrow> marked (mark t)"
  by (cases t; simp)+

lemma phase_mark [simp]: "phase (mark t) = phase t" "stops (mark t) = stops t" "roots (mark t) = roots t"
  by (cases t; simp add: stops_def roots_def)+

lemma phase_with_child [simp]:
  "phase (with_child k t) = phase t" "stops (with_child k t) = stops t" "roots (with_child k t) = roots t"
  "spawning (with_child k t) = spawning t" "allowed n (with_child k t) = allowed n t"
  by (cases t; simp add: stops_def roots_def allowed_def)+

lemma no_stop: "tally stops M = 0 \<Longrightarrow> tally phase M = 0"
  by (induction M) (auto simp: stops_def split: if_splits)

lemma one_stop: "Suc (tally stops M) = of_bool b \<longleftrightarrow> b \<and> tally stops M = 0"
  by (cases b) auto

lemma closing_phase:
  assumes "closing s" "tasks s = add_mset x R" "phase x > 0"
  shows "stop_phase s = phase x" "tally phase R = 0" "stopped (st s)" "tally stops R = 0"
proof -
  have "Suc (tally stops R) = of_bool (stopped (st s))"
    using assms by (simp add: closing_def stops_def)
  then show "tally phase R = 0" "stopped (st s)" "tally stops R = 0"
    using no_stop one_stop by auto
  then show "stop_phase s = phase x" using assms(2) by simp
qed

lemma closing_running: "closing s \<Longrightarrow> \<not> stopped (st s) \<Longrightarrow> stop_phase s = 0"
  by (rule no_stop) (simp add: closing_def)

lemma stopped_acquire:
  "acquire_loop T P = (a, P') \<Longrightarrow> stopped P \<Longrightarrow> P' = P \<and> (\<exists>m. a = Unavailable m)"
  by (auto simp: acquire_loop_def)

lemma stopped_wake:
  assumes "acquire_wake T P = (a, P')" "stopped P"
  shows "idle P' = idle P \<and> (\<exists>m. a = Unavailable m)"
proof (cases rule: acquire_wake_cases [of P T])
  case (gave_up err)
  with assms show ?thesis by auto
next
  case again
  with assms stopped_acquire [of T "acquire_cancelled P" a P'] show ?thesis by auto
qed

lemma after_acquire_phase [simp]:
  "tally phase (after_acquire a R) = tally phase R" "tally stops (after_acquire a R) = tally stops R"
  "tally roots (after_acquire a R) = tally roots R"
  by (cases a; simp add: stops_def roots_def)+

lemma next_kill_phase:
  "next_kill StopKill StopDone ws T = (t, T') \<Longrightarrow> phase t = 4"
  "next_kill SweepKill SweepSleep ws T = (t, T') \<Longrightarrow> phase t = 0"
  "next_kill SweepKill SweepSleep ws T = (t, T') \<Longrightarrow> sweeping t"
  by (cases ws; force)+

text \<open>Steps that are not \<open>stop\<close>'s: the phase stays, and what is new must be allowed in it.\<close>

lemma closing_keep:
  assumes "closing s" "stopped (st t) = stopped (st s)"
    "tally stops (tasks t) = tally stops (tasks s)" "stop_phase t = stop_phase s"
    "tally roots (tasks t) \<le> tally roots (tasks s)"
    and "\<And>x. x \<in># tasks t \<Longrightarrow> x \<in># tasks s \<or> allowed (stop_phase s) x"
    and "stop_phase s = 4 \<Longrightarrow> idle (st t) = idle (st s)"
  shows "closing t"
  using assms by (auto simp: closing_def)

lemma acq_allowed [simp]:
  "allowed n AcqEnter" "allowed n AcqWaiting" "allowed n AcqNotified" "allowed n AcqCancelled"
  "allowed n (Using w)" "allowed n (RelNew b w)" "allowed n (RelKill b w)" "allowed n (RelLock b w)"
  by (simp_all add: allowed_def)

lemma stops_simps [simp]:
  "stops AcqEnter = 0" "stops AcqWaiting = 0" "stops AcqNotified = 0" "stops AcqCancelled = 0"
  "stops (Using w) = 0" "stops (RelNew b w) = 0" "stops (RelKill b w) = 0" "stops (RelLock b w) = 0"
  "stops (RelSpawn b k) = 0" "stops (GrowEnter b) = 0" "stops (GrowSpawn b k) = 0"
  "stops (StartSpawn n k) = 0" "stops SweepSleep = 0" "stops (SweepKill w ws) = 0"
  "stops (SweepDec w ws) = 0" "stops StopSweep = 1" "stops StopDrain = 1" "stops StopGather = 1"
  "stops StopLock = 1" "stops (StopKill w ws) = 1" "stops (StopDec w ws) = 1" "stops StopDone = 1"
  by (simp_all add: stops_def)

lemma roots_simps [simp]:
  "roots AcqEnter = 0" "roots AcqWaiting = 0" "roots AcqNotified = 0" "roots AcqCancelled = 0"
  "roots (Using w) = 0" "roots (RelNew b w) = 0" "roots (RelKill b w) = 0" "roots (RelLock b w) = 0"
  "roots (RelSpawn b k) = 0" "roots (GrowEnter b) = 0" "roots (GrowSpawn b k) = 0"
  "roots (StartSpawn n k) = 1" "roots SweepSleep = 1" "roots (SweepKill w ws) = 1"
  "roots (SweepDec w ws) = 1" "roots StopSweep = 0" "roots StopDrain = 0" "roots StopGather = 0"
  "roots StopLock = 0" "roots (StopKill w ws) = 0" "roots (StopDec w ws) = 0" "roots StopDone = 0"
  by (simp_all add: roots_def)

lemma no_root: "tally roots M = 0 \<Longrightarrow> t \<in># M \<Longrightarrow> \<not> starting t \<and> \<not> sweeping t"
  by (auto simp: roots_def sum_mset_0_iff)

lemma allowed_bounds:
  "allowed n t \<Longrightarrow> sweeping t \<or> starting t \<Longrightarrow> n = 0"
  "allowed n t \<Longrightarrow> spawning t \<Longrightarrow> n < 3"
  by (auto simp: allowed_def)

lemma next_kill_stops:
  "next_kill StopKill StopDone ws T = (t, T') \<Longrightarrow> stops t = 1 \<and> roots t = 0 \<and> allowed n t"
  "next_kill SweepKill SweepSleep ws T = (t, T') \<Longrightarrow> stops t = 0 \<and> roots t = 1"
  by (cases ws; force simp: allowed_def)+

text \<open>The steps of \<open>stop\<close> itself.\<close>

lemma closing_begins:
  assumes "closing s" "\<not> stopped (st s)" "stopped (st t)" "tasks t = add_mset StopSweep R"
    and "R \<subseteq># tasks s" "tally roots R = 0"
  shows "closing t"
proof -
  obtain N where N: "tasks s = R + N" using assms(5) by (auto simp: mset_subset_eq_exists_conv)
  have "tally stops (tasks s) = 0" using assms(1,2) by (simp add: closing_def)
  then have R: "tally stops R = 0" using N by simp
  then have "stop_phase t = 1" using no_stop assms(4) by simp
  moreover have "allowed 1 x" if "x \<in># tasks t" for x
    using that no_root [OF assms(6)] assms(4) by (auto simp: allowed_def)
  ultimately show ?thesis using R assms(3,4,6) by (simp add: closing_def)
qed

lemma closing_moves:
  assumes "closing s" "tasks s = add_mset x R" "phase x > 0" "tasks t = add_mset y R'"
    and "stops y = 1" "roots y = 0" "stopped (st t) = stopped (st s)"
    and "tally stops R' = tally stops R" "tally phase R' = tally phase R" "tally roots R' = tally roots R"
    and "\<And>z. z \<in># R' \<Longrightarrow> allowed (phase y) z" "allowed (phase y) y"
    and "phase y = 4 \<Longrightarrow> idle (st t) = []"
  shows "closing t"
proof -
  have x: "tally phase R = 0" "stopped (st s)" "tally stops R = 0"
    using closing_phase [OF assms(1,2,3)] by auto
  have "roots x = 0" using assms(3) by (cases x) auto
  moreover have "tally roots (tasks s) \<le> 1" using assms(1) by (simp add: closing_def)
  ultimately have "tally roots R \<le> 1" using assms(2) by simp
  with x assms show ?thesis by (simp add: closing_def)
qed

lemma closing_pool:
  assumes "pool_step s t" "closing s"
  shows "closing t"
proof -
  have all: "\<And>x. x \<in># tasks s \<Longrightarrow> allowed (stop_phase s) x"
    using assms(2) by (simp add: closing_def)
  have run: "stop_phase s = 0" if "\<not> stopped (st s)" using closing_running [OF assms(2) that] .
  have sweeps: "stop_phase s = 0" if "x \<in># tasks s" "sweeping x \<or> starting x" for x
    using allowed_bounds(1) [OF all [OF that(1)] that(2)] .
  have spawns: "stop_phase s < 3" if "x \<in># tasks s" "spawning x" for x
    using allowed_bounds(2) [OF all [OF that(1)] that(2)] .
  have old: "allowed m z" if "tasks s = add_mset y R" "z \<in># R" "m \<le> stop_phase s" for y z R m
    using allowed_less [OF all that(3)] that(1,2) by simp
  show ?thesis using assms(1)
  proof cases
    case (child_made x R p)
    then show ?thesis using all by (intro closing_keep [OF assms(2)]) auto
  next
    case (child_aborted x R p)
    then show ?thesis using all by (intro closing_keep [OF assms(2)]) auto
  next
    case (child_ended x R p)
    then show ?thesis using all by (intro closing_keep [OF assms(2)]) auto
  next
    case (start_spawned n p R faults w)
    then have "stop_phase s = 0" using sweeps [of "StartSpawn n (Made p)"] by simp
    with start_spawned show ?thesis
      by (intro closing_keep [OF assms(2)]) (auto simp: tally_moves)
  next
    case (start_orphaned n p R faults e w)
    then show ?thesis by (intro closing_keep [OF assms(2)]) auto
  next
    case (start_failed n k R)
    then show ?thesis by (intro closing_keep [OF assms(2)]) auto
  next
    case request
    then show ?thesis by (intro closing_keep [OF assms(2)]) auto
  next
    case (acquire R a P)
    show ?thesis
    proof (cases "stopped (st s)")
      case True
      with stopped_acquire [OF acquire(4)] acquire show ?thesis
        by (intro closing_keep [OF assms(2)]) auto
    next
      case False
      then show ?thesis using acquire run acquire_loop_effect(5) [OF acquire(4)]
        by (intro closing_keep [OF assms(2)]) auto
    qed
  next
    case (wake R a P)
    show ?thesis
    proof (cases "stopped (st s)")
      case True
      with stopped_wake [OF wake(4)] wake acquire_wake_effect(5) [OF wake(4)] show ?thesis
        by (intro closing_keep [OF assms(2)]) auto
    next
      case False
      then show ?thesis using wake run acquire_wake_effect(5) [OF wake(4)]
        by (intro closing_keep [OF assms(2)]) auto
    qed
  next
    case (cancel_wait x R)
    then show ?thesis by (intro closing_keep [OF assms(2)]) auto
  next
    case (release_count b w R P)
    then show ?thesis using release_locked_effect(1,5) [OF release_count(4)]
      by (intro closing_keep [OF assms(2)]) auto
  next
    case (release_respawn b w R P)
    then have "\<not> stopped (st s)" using release_locked_effect(7) [OF release_respawn(4)] by simp
    then show ?thesis using release_locked_effect(1,5) [OF release_respawn(4)] run release_respawn
      by (intro closing_keep [OF assms(2)]) auto
  next
    case (release_spawned b p R faults w)
    then have "stop_phase s < 3" using spawns [of "RelSpawn b (Made p)"] by simp
    with release_spawned show ?thesis
      by (intro closing_keep [OF assms(2)]) (auto simp: tally_moves dest: in_notify)
  next
    case (release_orphaned b p R faults e w err)
    then have "stop_phase s < 3" using spawns [of "RelSpawn b (Made p)"] by simp
    with release_orphaned show ?thesis
      by (intro closing_keep [OF assms(2)]) (auto simp: tally_moves dest: in_notify)
  next
    case (release_failed b k R err)
    then have "stop_phase s < 3" using spawns [of "RelSpawn b k"] by simp
    with release_failed show ?thesis
      by (intro closing_keep [OF assms(2)]) (auto simp: tally_moves dest: in_notify)
  next
    case (grow b R)
    then have "\<not> stopped (st s)" by (simp add: grow_refused_def)
    then show ?thesis using grow run by (intro closing_keep [OF assms(2)]) auto
  next
    case (grow_spawned b p R faults w)
    then have "stop_phase s < 3" using spawns [of "GrowSpawn b (Made p)"] by simp
    with grow_spawned show ?thesis
      by (intro closing_keep [OF assms(2)]) (auto simp: tally_moves dest: in_notify)
  next
    case (grow_orphaned b p R faults e w err)
    then have "stop_phase s < 3" using spawns [of "GrowSpawn b (Made p)"] by simp
    with grow_orphaned show ?thesis
      by (intro closing_keep [OF assms(2)]) (auto simp: tally_moves dest: in_notify)
  next
    case (grow_failed b k R err)
    then have "stop_phase s < 3" using spawns [of "GrowSpawn b k"] by simp
    with grow_failed show ?thesis
      by (intro closing_keep [OF assms(2)]) (auto simp: tally_moves dest: in_notify)
  next
    case (sweep R kills P u T)
    then have "stop_phase s = 0" using sweeps [of SweepSleep] by simp
    with sweep next_kill_phase(2) [OF sweep(5)] next_kill_stops(2) [OF sweep(5)] sweep_select_effect(5) [OF sweep(4)] show ?thesis
      by (intro closing_keep [OF assms(2)]) (auto simp: stops_def)
  next
    case (sweep_killed w ws R)
    then have "stop_phase s = 0" using sweeps [of "SweepKill w ws"] by simp
    with sweep_killed show ?thesis by (intro closing_keep [OF assms(2)]) auto
  next
    case (sweep_count w ws R u T)
    then have "stop_phase s = 0" using sweeps [of "SweepDec w ws"] by simp
    with sweep_count next_kill_phase(2) [OF sweep_count(4)] next_kill_stops(2) [OF sweep_count(4)] show ?thesis
      by (intro closing_keep [OF assms(2)]) (auto simp: stops_def)
  next
    case (cancel_release x R w)
    then show ?thesis by (intro closing_keep [OF assms(2)]) auto
  next
    case (stop x R)
    have "tally roots (tasks s) \<le> 1" using assms(2) by (simp add: closing_def)
    then have "tally roots R = 0" using stop(4,5) by (simp add: roots_def split: if_splits)
    with stop show ?thesis by (intro closing_begins [OF assms(2), of t R]) auto
  next
    case stop_unstarted
    then have "tally roots (tasks s) = 0" by (simp add: roots_def sum_mset_0_iff)
    with stop_unstarted show ?thesis by (intro closing_begins [OF assms(2), of t "tasks s"]) auto
  next
    case (stop_snapshot R)
    have "stop_phase s = 1" using closing_phase(1) [OF assms(2) stop_snapshot(2)] by simp
    then have one: "allowed 1 z" if "z \<in># R" for z using old [OF stop_snapshot(2) that, of 1] by simp
    show ?thesis
    proof (rule closing_moves [OF assms(2) stop_snapshot(2)])
      show "tasks t = add_mset StopDrain (image_mset mark R)" by (simp add: stop_snapshot)
      show "allowed (phase StopDrain) z" if "z \<in># image_mset mark R" for z
        using that one by (auto intro!: allowed_mark simp: allowed_def)
    qed (simp_all add: stop_snapshot tally_mark allowed_def)
  next
    case (stop_drained x R)
    then have x: "phase x = 2" by auto
    have "stop_phase s = 2" using closing_phase(1) [OF assms(2) stop_drained(2)] x by simp
    then have two: "allowed 2 z" if "z \<in># R" for z using old [OF stop_drained(2) that, of 2] by simp
    show ?thesis
    proof (rule closing_moves [OF assms(2) stop_drained(2)])
      show "tasks t = add_mset StopLock R" by (simp add: stop_drained)
      show "allowed (phase StopLock) z" if "z \<in># R" for z
        using two [OF that] stop_drained(4) that by (auto simp: allowed_def)
    qed (simp_all add: stop_drained x allowed_def)
  next
    case (stop_expired R)
    have "stop_phase s = 2" using closing_phase(1) [OF assms(2) stop_expired(2)] by simp
    then have two: "allowed 2 z" if "z \<in># R" for z using old [OF stop_expired(2) that, of 2] by simp
    then show ?thesis using two stop_expired
      by (intro closing_moves [OF assms(2) stop_expired(2)]) (auto simp: allowed_def)
  next
    case (stop_idle R doomed P u T)
    have "stop_phase s = 3" using closing_phase(1) [OF assms(2) stop_idle(2)] by simp
    then have three: "allowed 4 z" if "z \<in># R" for z
      using old [OF stop_idle(2) that, of 3] by (simp add: allowed_def)
    show ?thesis
    proof (rule closing_moves [OF assms(2) stop_idle(2)])
      show "tasks t = add_mset u (notify_all R)" by (simp add: stop_idle)
      show "allowed (phase u) z" if "z \<in># notify_all R" for z
        using in_notify_all [OF that] three next_kill_phase(1) [OF stop_idle(5)] by auto
    qed (use stop_idle next_kill_stops(1) [OF stop_idle(5)] in \<open>auto simp: tally_moves stop_collect_def\<close>)
  next
    case (stop_killed w ws R)
    have four: "stop_phase s = 4" using closing_phase(1) [OF assms(2) stop_killed(2)] by simp
    then have "allowed 4 z" if "z \<in># R" for z using old [OF stop_killed(2) that, of 4] by simp
    then show ?thesis using four assms(2) by (intro closing_moves [OF assms(2) stop_killed(2)])
      (auto simp: stop_killed closing_def, simp add: allowed_def)
  next
    case (stop_count w ws R u T)
    have four: "stop_phase s = 4" using closing_phase(1) [OF assms(2) stop_count(2)] by simp
    then have all4: "allowed 4 z" if "z \<in># R" for z using old [OF stop_count(2) that, of 4] by simp
    have u: "phase u = 4" by (rule next_kill_phase(1) [OF stop_count(4)])
    have "idle (st s) = []" using four assms(2) by (simp add: closing_def)
    then show ?thesis using all4 u next_kill_stops(1) [OF stop_count(4)]
      by (intro closing_moves [OF assms(2) stop_count(2)]) (auto simp: stop_count)
  qed (intro closing_keep [OF assms(2)]; auto)+
qed

lemma closing_os: "os_step s t \<Longrightarrow> closing s \<Longrightarrow> closing t"
  by (erule os_step.cases) (auto simp: closing_def)

lemma closing_boot: "booted c s \<Longrightarrow> closing s"
  by (auto simp: booted_def boot_def closing_def new_pool_def)

interpretation shutdown: invariant_of "booted c" sys_step closing
  using closing_boot closing_os closing_pool by unfold_locales (auto simp: sys_step_def)

end
