(* ===== verification/PoolTraces.thy ===== *)
theory PoolTraces
  imports PoolStop
begin

text \<open>
  Concrete runs of the pool, segment by segment: a request being served, a wake-up that is never
  sent, and a shutdown that leaves a process running.
\<close>

definition small :: "int \<Rightarrow> pool_config" where
  "small n = (default_config [])\<lparr>min_workers := n, max_workers := n\<rparr>"

lemma small_config [simp]:
  "min_workers (small n) = n" "max_workers (small n) = n"
  "idle_scale_to_zero_sec (small n) = Finite 60"
  by (simp_all add: small_def default_config_def)

definition pool_now :: "int \<Rightarrow> worker list \<Rightarrow> int \<Rightarrow> int \<Rightarrow> bool \<Rightarrow> pool" where
  "pool_now n ws tot wait over =
     \<lparr>config = small n, job_object = None, idle = ws, total = tot, waiting = wait, last_spawn_error = None,
      last_error = None, pending_grows = 0, last_release_at = 0, stopped = over\<rparr>"

definition sys_now :: "pool \<Rightarrow> ptable \<Rightarrow> bool \<Rightarrow> task list \<Rightarrow> worker list \<Rightarrow> rat \<Rightarrow> sys" where
  "sys_now P T l ts ws now =
     \<lparr>st = P, procs = T, locked = l, tasks = mset ts, lost = mset ws, orphans = {#}, clock = now\<rparr>"

lemmas now_defs = sys_now_def pool_now_def

definition w0 :: worker where
  "w0 = \<lparr>became_idle_at = 0, proc = Some 0\<rparr>"

definition w1 :: worker where
  "w1 = \<lparr>became_idle_at = 0, proc = Some 1\<rparr>"

lemma reach_pool_step: "pool_reach c s \<Longrightarrow> pool_step s t \<Longrightarrow> pool_reach c t"
  by (erule reach_step) (simp add: sys_step_def)

lemma reach_tick: "pool_reach c s \<Longrightarrow> 0 \<le> d \<Longrightarrow> pool_reach c (s\<lparr>clock := clock s + d\<rparr>)"
  by (erule reach_step) (auto simp: sys_step_def intro: os_step.tick)

lemma reach_boot: "pool_reach c (boot c job now)"
  by (rule reach_init) (auto simp: booted_def)

subsection \<open>One worker, one request\<close>

lemma boot_small:
  "pool_reach (small n) (sys_now (pool_now n [] 0 0 False) Map.empty (nat n > 0)
     [if nat n = 0 then SweepSleep else StartSpawn (nat n - 1) Unmade] [] 0)"
proof -
  have "boot (small n) None 0 = sys_now (pool_now n [] 0 0 False) Map.empty (nat n > 0)
      [if nat n = 0 then SweepSleep else StartSpawn (nat n - 1) Unmade] [] 0"
    by (simp add: boot_def after_start_def new_pool_def now_defs)
  with reach_boot show ?thesis by metis
qed

text \<open>\<open>start\<close> spawns one worker: the process is made, and \<open>create_subprocess_exec\<close> returns.\<close>

lemma start_spawns:
  assumes "pool_reach c s" "tasks s = {#StartSpawn n Unmade#}" "job_object (st s) = None" "procs s p = None"
  shows "pool_reach c (after_start n {#}
    (s\<lparr>procs := (procs s)(p \<mapsto> Running), st := spawned \<lparr>became_idle_at = clock s, proc = Some p\<rparr> (st s)\<rparr>))"
proof -
  let ?t = "s\<lparr>procs := (procs s)(p \<mapsto> Running), tasks := {#StartSpawn n (Made p)#}\<rparr>"
  let ?w = "\<lparr>became_idle_at = clock s, proc = Some p\<rparr>"
  have made: "pool_reach c ?t"
    by (rule reach_pool_step [OF assms(1)]) (use child_made [of s "StartSpawn n Unmade" "{#}" p] assms(2,4) in simp)
  have "started (None, None, None) p ?t = (None, ?w)"
    using assms(3) by (simp add: started_def placed_without_job new_worker_def)
  then have "pool_step ?t (after_start n (notify {#}) (spawn_ok ?w ?t))"
    by (intro start_spawned [where p = p]) simp_all
  from reach_pool_step [OF made this] show ?thesis
    by (cases n; cases s) (simp_all add: spawn_ok_def after_start_def notify_def)
qed

lemma one_idle:
  "pool_reach (small 1)
     (sys_now (pool_now 1 [w0] 1 0 False) [0 \<mapsto> Running] False [SweepSleep] [] 0)"
  using start_spawns [OF boot_small [of 1], of 0 0]
  by (simp add: now_defs after_start_def spawned_def w0_def)

lemma one_busy:
  "pool_reach (small 1)
     (sys_now (pool_now 1 [] 1 0 False) [0 \<mapsto> Running] False [Using w0, SweepSleep] [] 0)"
proof -
  have "pool_reach (small 1)
     (sys_now (pool_now 1 [w0] 1 0 False) [0 \<mapsto> Running] False [AcqEnter, SweepSleep] [] 0)"
    by (rule reach_pool_step [OF one_idle])
      (use request [of "sys_now (pool_now 1 [w0] 1 0 False) [0 \<mapsto> Running] False [SweepSleep] [] 0"]
        in \<open>simp add: now_defs\<close>)
  then show ?thesis
    by (rule reach_pool_step)
      (use acquire [of "sys_now (pool_now 1 [w0] 1 0 False) [0 \<mapsto> Running] False [AcqEnter, SweepSleep] [] 0"
         "{#SweepSleep#}" "Handed w0" "pool_now 1 [] 1 0 False"]
        in \<open>simp add: now_defs acquire_loop_def is_alive_def reaped_def w0_def\<close>)
qed

lemma one_released:
  "pool_reach (small 1)
     (sys_now (pool_now 1 [] 1 0 False) [0 \<mapsto> Running] False [RelNew False w0, SweepSleep] [] 0)"
  by (rule reach_pool_step [OF one_busy])
    (use run_cancelled [of "sys_now (pool_now 1 [] 1 0 False) [0 \<mapsto> Running] False [Using w0, SweepSleep] [] 0"
       w0 "{#SweepSleep#}"] in \<open>simp add: now_defs\<close>)

subsection \<open>A wake-up that is never sent\<close>

text \<open>
  The sweep is killing the last idle worker when a request arrives: the count is still at the
  maximum, so the request schedules no grow and waits. The sweep then counts the worker out and
  notifies nobody.
\<close>

lemma one_draining:
  "pool_reach (small 1)
     (sys_now (pool_now 1 [] 1 0 False) [0 \<mapsto> Dead killed_code] False [SweepKill w0 []] [] 100)"
proof -
  have "pool_reach (small 1)
     (sys_now (pool_now 1 [w0] 1 0 False) [0 \<mapsto> Running] False [SweepSleep] [] 100)"
    using reach_tick [OF one_idle, of 100] by (simp add: now_defs)
  then show ?thesis
    by (rule reach_pool_step)
      (use sweep [of "sys_now (pool_now 1 [w0] 1 0 False) [0 \<mapsto> Running] False [SweepSleep] [] 100"
         "{#}" "[w0]" "pool_now 1 [] 1 0 False" "SweepKill w0 []" "[0 \<mapsto> Dead killed_code]"]
        in \<open>simp add: now_defs sweep_select_def draining_def excess_allowed_def stale_def
           signalled_def w0_def\<close>)
qed

lemma one_waiting:
  "pool_reach (small 1)
     (sys_now (pool_now 1 [] 1 1 False) [0 \<mapsto> Dead killed_code] False [AcqWaiting, SweepKill w0 []] [] 100)"
proof -
  have "pool_reach (small 1)
     (sys_now (pool_now 1 [] 1 0 False) [0 \<mapsto> Dead killed_code] False [AcqEnter, SweepKill w0 []] [] 100)"
    by (rule reach_pool_step [OF one_draining])
      (use request [of "sys_now (pool_now 1 [] 1 0 False) [0 \<mapsto> Dead killed_code] False [SweepKill w0 []] [] 100"]
        in \<open>simp add: now_defs\<close>)
  then show ?thesis
    by (rule reach_pool_step)
      (use acquire [of "sys_now (pool_now 1 [] 1 0 False) [0 \<mapsto> Dead killed_code] False [AcqEnter, SweepKill w0 []] [] 100"
         "{#SweepKill w0 []#}" "Waits False" "pool_now 1 [] 1 1 False"]
        in \<open>simp add: now_defs acquire_loop_def\<close>)
qed

lemma one_stranded:
  "pool_reach (small 1)
     (sys_now (pool_now 1 [] 0 1 False) [0 \<mapsto> Reaped killed_code] False [SweepSleep, AcqWaiting] [] 100)"
proof -
  have "pool_reach (small 1)
     (sys_now (pool_now 1 [] 1 1 False) [0 \<mapsto> Reaped killed_code] False [SweepDec w0 [], AcqWaiting] [] 100)"
    by (rule reach_pool_step [OF one_waiting])
      (use sweep_killed [of "sys_now (pool_now 1 [] 1 1 False) [0 \<mapsto> Dead killed_code] False [AcqWaiting, SweepKill w0 []] [] 100"
         w0 "[]" "{#AcqWaiting#}"] in \<open>simp add: now_defs ended_def awaited_def w0_def\<close>)
  then show ?thesis
    by (rule reach_pool_step)
      (use sweep_count [of "sys_now (pool_now 1 [] 1 1 False) [0 \<mapsto> Reaped killed_code] False [SweepDec w0 [], AcqWaiting] [] 100"
         w0 "[]" "{#AcqWaiting#}" SweepSleep "[0 \<mapsto> Reaped killed_code]"]
        in \<open>simp add: now_defs one_less_def\<close>)
qed

subsection \<open>A shutdown that leaves a process running\<close>

text \<open>
  The sweep has chosen two workers and is waiting for the first to end when \<open>stop\<close> cancels it:
  the second is in no list any more, and nobody signals it.
\<close>

lemma two_idle:
  "pool_reach (small 2)
     (sys_now (pool_now 2 [w0, w1] 2 0 False) [0 \<mapsto> Running, 1 \<mapsto> Running] False [SweepSleep] [] 0)"
proof -
  have "pool_reach (small 2) (sys_now (pool_now 2 [w0] 1 0 False) [0 \<mapsto> Running] True [StartSpawn 0 Unmade] [] 0)"
    using start_spawns [OF boot_small [of 2], of 1 0]
    by (simp add: now_defs after_start_def spawned_def w0_def)
  from start_spawns [OF this, of 0 1] show ?thesis
    by (simp add: now_defs after_start_def spawned_def w0_def w1_def)
qed

lemma two_draining:
  "pool_reach (small 2)
     (sys_now (pool_now 2 [] 2 0 False) [0 \<mapsto> Dead killed_code, 1 \<mapsto> Running] False [SweepKill w0 [w1]] [] 100)"
proof -
  have "pool_reach (small 2)
     (sys_now (pool_now 2 [w0, w1] 2 0 False) [0 \<mapsto> Running, 1 \<mapsto> Running] False [SweepSleep] [] 100)"
    using reach_tick [OF two_idle, of 100] by (simp add: now_defs)
  then show ?thesis
    by (rule reach_pool_step)
      (use sweep [of "sys_now (pool_now 2 [w0, w1] 2 0 False) [0 \<mapsto> Running, 1 \<mapsto> Running] False [SweepSleep] [] 100"
         "{#}" "[w0, w1]" "pool_now 2 [] 2 0 False" "SweepKill w0 [w1]" "[0 \<mapsto> Dead killed_code, 1 \<mapsto> Running]"]
        in \<open>simp add: now_defs sweep_select_def draining_def excess_allowed_def stale_def
           signalled_def w0_def w1_def fun_upd_twist\<close>)
qed

lemma two_orphaned:
  "pool_reach (small 2)
     (sys_now (pool_now 2 [] 2 0 True) [0 \<mapsto> Dead killed_code, 1 \<mapsto> Running] False [StopDone] [w0, w1] 100)"
proof -
  let ?T = "[0 \<mapsto> Dead killed_code, 1 \<mapsto> Running] :: ptable"
  let ?s = "\<lambda>t ws. sys_now (pool_now 2 [] 2 0 True) ?T False [t] ws 100"
  have "pool_reach (small 2) (?s StopSweep [w0, w1])"
    by (rule reach_pool_step [OF two_draining])
      (use stop [of "sys_now (pool_now 2 [] 2 0 False) ?T False [SweepKill w0 [w1]] [] 100"
         "SweepKill w0 [w1]" "{#}"] in \<open>simp add: now_defs stop_begin_def\<close>)
  then have "pool_reach (small 2) (?s StopDrain [w0, w1])"
    by (rule reach_pool_step)
      (use stop_snapshot [of "?s StopSweep [w0, w1]" "{#}"] in \<open>simp add: now_defs\<close>)
  then have "pool_reach (small 2) (?s StopLock [w0, w1])"
    by (rule reach_pool_step)
      (use stop_drained [of "?s StopDrain [w0, w1]" StopDrain "{#}"] in \<open>simp add: now_defs\<close>)
  then show ?thesis
    by (rule reach_pool_step)
      (use stop_idle [of "?s StopLock [w0, w1]" "{#}" "[]" "pool_now 2 [] 2 0 True" StopDone ?T]
        in \<open>simp add: now_defs stop_collect_def notify_all_def\<close>)
qed

subsection \<open>A process the pool forgets\<close>

text \<open>
  On a machine with job objects, a pool that is empty and may grow to one worker: a request schedules a
  spawn, the process is made, the job object refuses it, the spawn raises and the request with it. The
  pool is as it was, but for one more process.
\<close>

definition elastic :: pool_config where
  "elastic = (default_config [])\<lparr>min_workers := 0, max_workers := 1\<rparr>"

definition refusal :: exn where
  "refusal = Exn (us ''error'') []"

definition refusing :: "ustring option \<Rightarrow> int \<Rightarrow> int \<Rightarrow> bool \<Rightarrow> task list \<Rightarrow> ptable \<Rightarrow> worker multiset \<Rightarrow> sys" where
  "refusing err wait grow l ts T M =
     \<lparr>st = \<lparr>config = elastic, job_object = Some 0, idle = [], total = 0, waiting = wait,
              last_spawn_error = err, last_error = None, pending_grows = grow, last_release_at = 0,
              stopped = False\<rparr>,
      procs = T, locked = l, tasks = mset ts, lost = {#}, orphans = M, clock = 0\<rparr>"

lemma refusing_boot: "pool_reach elastic (refusing None 0 0 False [SweepSleep] Map.empty {#})"
proof -
  have "boot elastic (Some 0) 0 = refusing None 0 0 False [SweepSleep] Map.empty {#}"
    by (simp add: boot_def after_start_def new_pool_def refusing_def elastic_def)
  with reach_boot show ?thesis by metis
qed

lemma refusing_round:
  assumes "pool_reach elastic (refusing err 0 0 False [SweepSleep] T M)" "T p = None"
  shows "pool_reach elastic (refusing (Some []) 0 0 False [SweepSleep] (T(p \<mapsto> Running)) (add_mset (process p) M))"
proof -
  let ?T = "T(p \<mapsto> Running)"
  have "pool_reach elastic (refusing err 0 0 False [AcqEnter, SweepSleep] T M)"
    by (rule reach_pool_step [OF assms(1)])
      (use request [of "refusing err 0 0 False [SweepSleep] T M"] in \<open>simp add: refusing_def\<close>)
  then have "pool_reach elastic (refusing err 1 1 False [GrowEnter False, AcqWaiting, SweepSleep] T M)"
    by (rule reach_pool_step)
      (use acquire [of "refusing err 0 0 False [AcqEnter, SweepSleep] T M" "{#SweepSleep#}" "Waits True"
         "st (refusing err 1 1 False [] T M)"]
        in \<open>simp add: refusing_def elastic_def acquire_loop_def schedule_grow_def\<close>)
  then have "pool_reach elastic (refusing err 1 1 True [GrowSpawn False Unmade, AcqWaiting, SweepSleep] T M)"
    by (rule reach_pool_step)
      (use grow [of "refusing err 1 1 False [GrowEnter False, AcqWaiting, SweepSleep] T M" False
         "{#AcqWaiting, SweepSleep#}"] in \<open>simp add: refusing_def elastic_def grow_refused_def\<close>)
  then have "pool_reach elastic (refusing err 1 1 True [GrowSpawn False (Made p), AcqWaiting, SweepSleep] ?T M)"
    by (rule reach_pool_step)
      (use child_made [of "refusing err 1 1 True [GrowSpawn False Unmade, AcqWaiting, SweepSleep] T M"
         "GrowSpawn False Unmade" "{#AcqWaiting, SweepSleep#}" p] assms(2) in \<open>simp add: refusing_def\<close>)
  then have "pool_reach elastic (refusing (Some []) 1 0 False [AcqNotified, SweepSleep] ?T (add_mset (process p) M))"
    by (rule reach_pool_step)
      (use grow_orphaned [of "refusing err 1 1 True [GrowSpawn False (Made p), AcqWaiting, SweepSleep] ?T M" False p
         "{#AcqWaiting, SweepSleep#}" "(None, Some refusal, None)" refusal "process p" "[]"]
        in \<open>simp add: refusing_def started_def placed_def assign_process_to_job_def process_def
          spawn_orphaned_def spawn_failed_def grow_done_def notify_def\<close>)
  then show ?thesis
    by (rule reach_pool_step)
      (use wake [of "refusing (Some []) 1 0 False [AcqNotified, SweepSleep] ?T (add_mset (process p) M)" "{#SweepSleep#}"
         "Unavailable (us ''worker spawn failed: '')" "st (refusing (Some []) 0 0 False [] T M)"]
        in \<open>simp add: refusing_def acquire_wake_def\<close>)
qed

end
