(* ===== verification/PoolProps.thy ===== *)
theory PoolProps
  imports PoolTraces
begin

text \<open>
  What the pool promises in every reachable state, from the invariants of the sibling theories,
  and three states it can reach that it means to rule out.
\<close>

subsection \<open>One worker, one user\<close>

lemma reach_invs:
  assumes "pool_reach c s"
  shows "counted s" "bounded c s" "owned s" "closing s" "jobless_clean s"
  using assms counts.inv_reach bound.inv_reach owners.inv_reach shutdown.inv_reach jobs.inv_reach by blast+

lemma once_apart:
  assumes "once (image_mset proc W)" "{#v, w#} \<subseteq># W"
  shows "proc v \<noteq> proc w"
proof
  assume eq: "proc v = proc w"
  have "image_mset proc {#v, w#} \<subseteq># image_mset proc W" using assms(2) by (rule image_mset_subseteq_mono)
  then have "count (image_mset proc {#v, w#}) (proc w) \<le> count (image_mset proc W) (proc w)"
    by (rule mset_subset_eq_count)
  also have "\<dots> \<le> 1" using assms(1) by blast
  finally show False using eq by simp
qed

lemma owned_once: "owned s \<Longrightarrow> once (image_mset proc (processes s))"
  by (simp add: owned_def owns_def)

lemma owned_apart: "owned s \<Longrightarrow> {#v, w#} \<subseteq># processes s \<Longrightarrow> proc v \<noteq> proc w"
  by (rule once_apart [OF owned_once])

lemma using_split: "Using w \<in># R \<Longrightarrow> {#w#} \<subseteq># tally held R"
  by (auto dest!: multi_member_split)

text \<open>The worker of a running execution is none of those another task, a spawn or the queue has.\<close>

lemma using_apart:
  assumes "owned s" "tasks s = add_mset x R" "Using w \<in># R" "v \<in># held x + born x"
  shows "proc v \<noteq> proc w"
proof -
  have "{#v, w#} = {#v#} + {#w#}" by simp
  also have "\<dots> \<subseteq># (held x + born x) + tally held R"
    using assms(3,4) using_split by (intro subset_mset.add_mono) auto
  also have "\<dots> \<subseteq># processes s" using assms(2) by (simp add: processes_def workers_def)
  finally show ?thesis using owned_apart [OF assms(1)] by blast
qed

lemma using_apart_idle:
  assumes "owned s" "Using w \<in># tasks s" "v \<in> set (idle (st s))"
  shows "proc v \<noteq> proc w"
proof -
  have "{#v, w#} = {#v#} + {#w#}" by simp
  also have "\<dots> \<subseteq># mset (idle (st s)) + tally held (tasks s)"
    using assms(2,3) using_split by (intro subset_mset.add_mono) auto
  also have "\<dots> \<subseteq># processes s" by (simp add: processes_def workers_def)
  finally show ?thesis using owned_apart [OF assms(1)] by blast
qed

lemma next_kill_other:
  assumes "next_kill busy done ws T = (t, T')" "\<forall>v \<in> set ws. proc v \<noteq> Some p"
  shows "T' p = T p"
  using assms by (cases ws) (auto simp: signalled_other)

lemma using_step:
  assumes "owned s" "pool_step s t" "Using w \<in># tasks s" "Using w \<in># tasks t" "proc w = Some p"
  shows "procs t p = procs s p"
proof -
  have known: "procs s p \<noteq> None"
    using worker_known [OF assms(1) workers_held [OF assms(3)]] assms(5) by force
  have other: "proc v \<noteq> Some p" if "tasks s = add_mset x R" "Using w \<in># R" "v \<in># held x + born x" for x R v
    using using_apart [OF assms(1) that] assms(5) by simp
  show ?thesis using assms(2)
  proof cases
    case (child_aborted x R q)
    then have "Using w \<in># R" using assms(3) by auto
    with other [OF child_aborted(2), of "process q"] child_aborted(4) show ?thesis
      using child_aborted(1) by (simp add: signalled_other born_def)
  next
    case (child_ended x R q)
    then have "Using w \<in># R" using assms(3) by auto
    with other [OF child_ended(2), of "process q"] child_ended(4) show ?thesis
      using child_ended(1) by (simp add: awaited_other born_def)
  next
    case (run_ends v R c r T)
    then have "Using w \<in># R" using assms(4) by simp
    with other [OF run_ends(2)] run_other [OF run_ends(4)] show ?thesis using run_ends(1) by simp
  next
    case (release_kill b v R)
    then have "Using w \<in># R" using assms(4) by simp
    with other [OF release_kill(2)] show ?thesis using release_kill(1) by (simp add: signalled_other)
  next
    case (release_killed b v R)
    then have "Using w \<in># R" using assms(4) by simp
    with other [OF release_killed(2)] show ?thesis using release_killed(1) by (simp add: awaited_other)
  next
    case (sweep R kills P u T)
    have "set kills \<subseteq> set (idle (st s))"
      using arg_cong [OF sweep_select_effect(1) [OF sweep(4)], of set_mset] by simp
    then have "\<forall>v \<in> set kills. proc v \<noteq> Some p"
      using using_apart_idle [OF assms(1,3)] assms(5) by auto
    from next_kill_other [OF sweep(5) this] show ?thesis using sweep(1) by simp
  next
    case (sweep_killed v ws R)
    then have "Using w \<in># R" using assms(4) by simp
    with other [OF sweep_killed(2)] show ?thesis using sweep_killed(1) by (simp add: awaited_other)
  next
    case (sweep_count v ws R u T)
    then have "Using w \<in># R" using assms(3) by simp
    with other [OF sweep_count(2)] have "\<forall>v \<in> set ws. proc v \<noteq> Some p" by simp
    from next_kill_other [OF sweep_count(4) this] show ?thesis using sweep_count(1) by simp
  next
    case (stop_idle R doomed P u T)
    have "\<forall>v \<in> set doomed. proc v \<noteq> Some p"
      using using_apart_idle [OF assms(1,3)] assms(5) stop_idle(4) by (auto simp: stop_collect_def)
    from next_kill_other [OF stop_idle(5) this] show ?thesis using stop_idle(1) by simp
  next
    case (stop_killed v ws R)
    then have "Using w \<in># R" using assms(4) by simp
    with other [OF stop_killed(2)] show ?thesis using stop_killed(1) by (simp add: awaited_other)
  next
    case (stop_count v ws R u T)
    then have "Using w \<in># R" using assms(3) by simp
    with other [OF stop_count(2)] have "\<forall>v \<in> set ws. proc v \<noteq> Some p" by simp
    from next_kill_other [OF stop_count(4) this] show ?thesis using stop_count(1) by simp
  qed (use known in auto)
qed

subsection \<open>One worker, one prompt\<close>

text \<open>The processes that are being made, idle or in use. Nothing comes back to them.\<close>

definition serving :: "sys \<Rightarrow> nat set" where
  "serving s = {p. (\<exists>w \<in> set (idle (st s)). proc w = Some p) \<or> (\<exists>w. Using w \<in># tasks s \<and> proc w = Some p)
                 \<or> (\<exists>x \<in># tasks s. forking x \<and> child_of x = Made p)}"

lemma using_notify [simp]: "Using w \<in># notify M \<longleftrightarrow> Using w \<in># M"
  by (simp add: notify_def in_diff_count)

lemma using_notify_all [simp]: "Using w \<in># notify_all M \<longleftrightarrow> Using w \<in># M"
proof (induction M)
  case (add t M)
  have "(notified t = Using w) = (t = Using w)" by (cases t) (simp_all add: notified_def)
  with add show ?case by (simp add: notify_all_def eq_commute)
qed (simp add: notify_all_def)

lemma using_mark: "Using w \<in># image_mset mark M \<longleftrightarrow> Using w \<in># M"
proof (induction M)
  case (add t M)
  have "(mark t = Using w) = (t = Using w)" by (cases t) simp_all
  with add show ?case by (simp add: eq_commute)
qed simp

lemma handed_sets:
  "acquire_loop T P = (a, P') \<or> acquire_wake T P = (a, P') \<Longrightarrow>
     set_mset (given a) \<union> set (idle P') \<subseteq> set (idle P)"
proof -
  assume "acquire_loop T P = (a, P') \<or> acquire_wake T P = (a, P')"
  then obtain dead where "mset (idle P) = mset dead + given a + mset (idle P')"
    using acquire_loop_effect(1) acquire_wake_effect(1) by blast
  from arg_cong [OF this, of set_mset] show ?thesis by auto
qed

lemma using_after_acquire: "Using w \<in># after_acquire a R \<longleftrightarrow> w \<in># given a \<or> Using w \<in># R"
  by (cases a) auto

lemma using_next_kill:
  "next_kill SweepKill SweepSleep ws T = (t, T') \<or> next_kill StopKill StopDone ws T = (t, T') \<Longrightarrow>
     t \<noteq> Using w"
  by (cases ws) auto

lemma using_with_child [simp]: "forking x \<Longrightarrow> Using w \<noteq> with_child k x" "forking x \<Longrightarrow> Using w \<noteq> x"
  by (cases x; simp)+

text \<open>Where a step takes its users, its idle workers and its unfinished processes from.\<close>

lemma user_from:
  assumes "pool_step s t" "Using w \<in># tasks t"
  shows "Using w \<in># tasks s \<or> w \<in> set (idle (st s))"
  using assms(1)
proof cases
  case (acquire R a P)
  then show ?thesis using assms(2) handed_sets [OF disjI1, OF acquire(4)] by (auto simp: using_after_acquire)
next
  case (wake R a P)
  then show ?thesis using assms(2) handed_sets [OF disjI2, OF wake(4)] by (auto simp: using_after_acquire)
next
  case (sweep R kills P u T)
  then show ?thesis using assms(2) using_next_kill [of kills "procs s" u T w] by auto
next
  case (sweep_count v ws R u T)
  then show ?thesis using assms(2) using_next_kill [of ws "procs s" u T w] by auto
next
  case (stop_count v ws R u T)
  then show ?thesis using assms(2) using_next_kill [of ws "procs s" u T w] by auto
next
  case (stop_idle R doomed P u T)
  then show ?thesis using assms(2) using_next_kill [of doomed "procs s" u T w] by auto
next
  case (stop_snapshot R)
  then show ?thesis using assms(2) using_mark [of w R] by (simp del: set_image_mset)
qed (use assms(2) in \<open>auto split: if_splits\<close>)

lemma idle_from:
  assumes "pool_step s t" "w \<in> set (idle (st t))"
  shows "w \<in> set (idle (st s)) \<or> (\<exists>p. \<exists>x \<in># tasks s. forking x \<and> child_of x = Made p \<and> proc w = Some p)"
  using assms(1)
proof cases
  case (acquire R a P)
  then show ?thesis using assms(2) handed_sets [OF disjI1, OF acquire(4)] by auto
next
  case (wake R a P)
  then show ?thesis using assms(2) handed_sets [OF disjI2, OF wake(4)] by auto
next
  case (release_count b v R P)
  then show ?thesis using assms(2) release_locked_effect(1) [OF release_count(4)] by auto
next
  case (release_respawn b v R P)
  then show ?thesis using assms(2) release_locked_effect(1) [OF release_respawn(4)] by auto
next
  case (sweep R kills P u T)
  then show ?thesis using assms(2) arg_cong [OF sweep_select_effect(1) [OF sweep(4)], of set_mset] by auto
next
  case (stop_idle R doomed P u T)
  then show ?thesis using assms(2) by (auto simp: stop_collect_def)
next
  case (start_spawned n p R faults v)
  then show ?thesis using assms(2) started_proc [OF start_spawned(3)] by auto
next
  case (release_spawned b p R faults v)
  then show ?thesis using assms(2) started_proc [OF release_spawned(3)] by auto
next
  case (grow_spawned b p R faults v)
  then show ?thesis using assms(2) started_proc [OF grow_spawned(3)] by auto
qed (use assms(2) in auto)

lemma forking_moved:
  "forking u \<Longrightarrow> u \<in># notify M \<longleftrightarrow> u \<in># M" "forking u \<Longrightarrow> u \<in># notify_all M \<longleftrightarrow> u \<in># M"
  "forking u \<Longrightarrow> u \<in># after_acquire a M \<longleftrightarrow> u \<in># M"
proof -
  show "forking u \<Longrightarrow> u \<in># notify M \<longleftrightarrow> u \<in># M" by (auto simp: notify_def in_diff_count)
  show "forking u \<Longrightarrow> u \<in># notify_all M \<longleftrightarrow> u \<in># M"
  proof (induction M)
    case (add t M)
    then have "(notified t = u) = (t = u)" by (auto simp: notified_def)
    with add show ?case by (auto simp: notify_all_def)
  qed (simp add: notify_all_def)
  show "forking u \<Longrightarrow> u \<in># after_acquire a M \<longleftrightarrow> u \<in># M" by (cases a) auto
qed

lemma child_from:
  assumes "pool_step s t" "u \<in># tasks t" "forking u" "child_of u = Made p"
  shows "(\<exists>x \<in># tasks s. forking x \<and> child_of x = Made p) \<or> procs s p = None"
  using assms(1)
proof cases
  case (sweep R kills P v T)
  then show ?thesis using assms(2-4) next_kill_tallies(6) [of kills "procs s" v T] by auto
next
  case (sweep_count w ws R v T)
  then show ?thesis using assms(2-4) next_kill_tallies(6) [of ws "procs s" v T] by auto
next
  case (stop_count w ws R v T)
  then show ?thesis using assms(2-4) next_kill_tallies(6) [of ws "procs s" v T] by auto
next
  case (stop_idle R doomed P v T)
  then show ?thesis using assms(2-4) next_kill_tallies(6) [of doomed "procs s" v T] by (auto simp: forking_moved)
qed (use assms(2-4) in \<open>auto simp: forking_moved split: if_splits\<close>)

lemma serving_step:
  assumes "pool_step s t" "p \<in> serving t"
  shows "p \<in> serving s \<or> procs s p = None"
  using assms(2) user_from [OF assms(1)] idle_from [OF assms(1)] child_from [OF assms(1), of _ p]
  by (fastforce simp: serving_def)

text \<open>What a step does to the process table: signals and reaping, or one process for a task that spawns.\<close>

lemma pool_step_table:
  assumes "pool_step s t"
  obtains (tame) "tame (procs s) (procs t)"
  | (made) p x where "procs s p = None" "procs t = (procs s)(p \<mapsto> Running)"
      "x \<in># tasks s" "forking x" "with_child (Made p) x \<in># tasks t"
  using assms
proof cases
  case (child_made x R p)
  then show ?thesis by (intro made [of p x]) auto
next
  case (run_ends v R c r T)
  then show ?thesis using tame_run [OF run_ends(4,3)] by (intro tame) simp
next
  case (sweep R kills P u T)
  then show ?thesis using tame_next_kill [OF sweep(5)] by (intro tame) simp
next
  case (sweep_count v ws R u T)
  then show ?thesis using tame_next_kill [OF sweep_count(4)] by (intro tame) simp
next
  case (stop_idle R doomed P u T)
  then show ?thesis using tame_next_kill [OF stop_idle(5)] by (intro tame) simp
next
  case (stop_count v ws R u T)
  then show ?thesis using tame_next_kill [OF stop_count(4)] by (intro tame) simp
qed (rule tame; simp add: tame_rules)+

lemma known_pool_step: "pool_step s t \<Longrightarrow> procs s p \<noteq> None \<Longrightarrow> procs t p \<noteq> None"
  by (elim pool_step_table) (auto simp: tame_def)

lemma spent_steps:
  assumes "sys_step\<^sup>*\<^sup>* s t" "procs s p \<noteq> None" "p \<notin> serving s"
  shows "procs t p \<noteq> None \<and> p \<notin> serving t"
  using assms(1)
proof (induction rule: rtranclp_induct)
  case (step t u)
  from step.hyps(2) have "pool_step t u \<or> os_step t u" by (simp add: sys_step_def)
  then show ?case
  proof
    assume "os_step t u"
    then have "serving u = serving t" "procs t p \<noteq> None \<Longrightarrow> procs u p \<noteq> None"
      by (auto simp: serving_def elim!: os_step.cases)
    with step.IH show ?thesis by blast
  next
    assume st: "pool_step t u"
    have "p \<notin> serving u" using serving_step [OF st, of p] step.IH by blast
    with known_pool_step [OF st] step.IH show ?thesis by blast
  qed
qed (use assms in blast)

lemma released_apart:
  assumes "owned s" "tasks s = add_mset x R" "held x = {#w#}" "\<forall>v. x \<noteq> Using v" "proc w = Some p"
  shows "p \<notin> serving s"
proof
  assume "p \<in> serving s"
  then consider v where "v \<in> set (idle (st s))" "proc v = Some p" | v where "Using v \<in># tasks s" "proc v = Some p"
    | y where "y \<in># tasks s" "forking y" "child_of y = Made p"
    by (auto simp: serving_def)
  then show False
  proof cases
    case (1 v)
    have "{#v, w#} = {#v#} + {#w#}" by simp
    also have "\<dots> \<subseteq># mset (idle (st s)) + tally held (tasks s)"
      using 1 assms(2,3) by (intro subset_mset.add_mono) auto
    also have "\<dots> \<subseteq># processes s" by (simp add: processes_def workers_def)
    finally have "{#v, w#} \<subseteq># processes s" .
    from owned_apart [OF assms(1) this] 1 assms(5) show False by simp
  next
    case (2 v)
    then have "Using v \<in># R" using assms(2,4) by auto
    from using_apart [OF assms(1,2) this, of w] assms(3,5) 2 show False by simp
  next
    case (3 y)
    from multi_member_split [OF 3(1)] obtain Q where "tasks s = add_mset y Q" ..
    then have "{#process p#} \<subseteq># tally born (tasks s)" using 3 by (simp add: born_def)
    moreover have "{#w#} \<subseteq># tally held (tasks s)" using assms(2,3) by simp
    ultimately have "{#process p#} + {#w#} \<subseteq># tally born (tasks s) + tally held (tasks s)"
      by (rule subset_mset.add_mono)
    moreover have "{#process p, w#} = {#process p#} + {#w#}" by simp
    ultimately have "{#process p, w#} \<subseteq># tally born (tasks s) + tally held (tasks s)" by (simp only:)
    also have "\<dots> \<subseteq># processes s" by (simp add: processes_def workers_def)
    finally have "{#process p, w#} \<subseteq># processes s" .
    from owned_apart [OF assms(1) this] assms(5) show False by simp
  qed
qed

subsection \<open>After a shutdown\<close>

lemma stop_phase_mono:
  assumes "pool_step s t" "closing s"
  shows "stop_phase s \<le> stop_phase t"
  using assms(1)
proof cases
  case (sweep R kills P u T)
  then show ?thesis using next_kill_phase(2) [OF sweep(5)] by simp
next
  case (sweep_count w ws R u T)
  then show ?thesis using next_kill_phase(2) [OF sweep_count(4)] by simp
next
  case (stop x R)
  then show ?thesis using closing_running [OF assms(2)] by simp
next
  case (stop_idle R doomed P u T)
  then show ?thesis using next_kill_phase(1) [OF stop_idle(5)] by (simp add: tally_moves)
next
  case (stop_count w ws R u T)
  then show ?thesis using next_kill_phase(1) [OF stop_count(4)] by simp
qed (auto simp: tally_moves)

lemma closed_step:
  assumes "pool_step s t" "closing s" "stop_phase s \<ge> 3"
  shows "procs s p = None \<Longrightarrow> procs t p = None" "Using w \<in># tasks t \<Longrightarrow> Using w \<in># tasks s"
proof -
  have all: "x \<in># tasks s \<Longrightarrow> allowed 3 x" for x
    using assms(2,3) allowed_less unfolding closing_def by blast
  have over: "stopped (st s)" using closing_running [OF assms(2)] assms(3) by auto
  show "procs t p = None" if "procs s p = None" using assms(1)
  proof (cases rule: pool_step_table)
    case tame
    with that show ?thesis by (simp add: tame_def)
  next
    case (made q x)
    with all [of x] show ?thesis by (cases x) (auto simp: allowed_def)
  qed
  show "Using w \<in># tasks s" if "Using w \<in># tasks t" using assms(1)
  proof cases
    case (acquire R a P)
    then show ?thesis using that stopped_acquire [OF acquire(4) over] by auto
  next
    case (wake R a P)
    then show ?thesis using that stopped_wake [OF wake(4) over] by auto
  next
    case (sweep R kills P u T)
    then show ?thesis using that using_next_kill [of kills "procs s" u T w] by auto
  next
    case (sweep_count v ws R u T)
    then show ?thesis using that using_next_kill [of ws "procs s" u T w] by auto
  next
    case (stop_idle R doomed P u T)
    then show ?thesis using that using_next_kill [of doomed "procs s" u T w] by auto
  next
    case (stop_count v ws R u T)
    then show ?thesis using that using_next_kill [of ws "procs s" u T w] by auto
  next
    case (stop_snapshot R)
    then show ?thesis using that using_mark [of w R] by (simp del: set_image_mset)
  qed (use that in \<open>auto split: if_splits\<close>)
qed

lemma stop_phase_le:
  assumes "closing s"
  shows "stop_phase s \<le> 4"
proof (cases "\<exists>x. x \<in># tasks s \<and> phase x > 0")
  case True
  then obtain x where x: "x \<in># tasks s" "phase x > 0" by blast
  from multi_member_split [OF x(1)] obtain R where "tasks s = add_mset x R" ..
  from closing_phase(1) [OF assms this x(2)] show ?thesis by (cases x) simp_all
next
  case False
  then have "stop_phase s = 0" by (simp add: sum_mset_0_iff)
  then show ?thesis by simp
qed

lemma closed_steps:
  assumes "sys_step\<^sup>*\<^sup>* s t" "closing s" "stop_phase s = 4"
  shows "closing t \<and> stop_phase t = 4 \<and> (procs s p = None \<longrightarrow> procs t p = None) \<and>
    (Using w \<in># tasks t \<longrightarrow> Using w \<in># tasks s)"
  using assms(1)
proof (induction rule: rtranclp_induct)
  case (step t u)
  from step.hyps(2) have "pool_step t u \<or> os_step t u" by (simp add: sys_step_def)
  then show ?case
  proof
    assume os: "os_step t u"
    then have "tasks u = tasks t" "procs t p = None \<Longrightarrow> procs u p = None"
      by (auto elim!: os_step.cases)
    with step.IH closing_os [OF os] show ?thesis by simp
  next
    assume st: "pool_step t u"
    have u: "closing u" using closing_pool [OF st] step.IH by blast
    have "stop_phase u = 4" using stop_phase_le [OF u] stop_phase_mono [OF st] step.IH by simp
    with u closed_step [OF st] step.IH show ?thesis by simp
  qed
qed (use assms in blast)

subsection \<open>Processes counted\<close>



lemma idle_only:
  assumes "counted s" "total (st s) = int (length (idle (st s)))"
  shows "lost s = {#}" "t \<in># tasks s \<Longrightarrow> held t = {#}"
proof -
  have "size (workers s) = length (idle (st s)) + size (tally held (tasks s)) + size (lost s)"
    by (simp only: workers_def size_union size_mset)
  moreover have "size (workers s) = length (idle (st s))" using assms by (simp add: counted_def)
  ultimately have sz: "size (tally held (tasks s)) = 0" "size (lost s) = 0" by linarith+
  then show "lost s = {#}" by simp
  show "held t = {#}" if "t \<in># tasks s"
  proof -
    from multi_member_split [OF that] obtain R where "tasks s = add_mset t R" ..
    with sz(1) show ?thesis by simp
  qed
qed

lemma owner_after_stop:
  assumes "closing s" "owned s" "StopDone \<in># tasks s" "\<not> reaped (procs s) p"
  obtains w where "proc w = Some p" "w \<in># lost s \<or> w \<in># orphans s"
  | w b where "proc w = Some p" "Using w \<in># tasks s \<or> RelNew b w \<in># tasks s \<or> RelKill b w \<in># tasks s"
proof -
  from multi_member_split [OF assms(3)] obtain R where R: "tasks s = add_mset StopDone R" ..
  note ph = closing_phase [OF assms(1) R]
  have idle: "idle (st s) = []" using assms(1) ph(1) by (simp add: closing_def)
  from assms(2,4) obtain w where w: "w \<in># processes s" "proc w = Some p"
    unfolding owned_def owns_def by fastforce
  show ?thesis
  proof (cases "w \<in># lost s \<or> w \<in># orphans s")
    case True
    with w(2) that(1) show ?thesis by blast
  next
    case False
    with w(1) idle R obtain x where x: "x \<in># R" "w \<in># held x + born x"
      by (auto simp: processes_def workers_def in_Union_mset_iff)
    have "phase x = 0" using ph(2) x(1) by (simp add: sum_mset_0_iff)
    moreover have "allowed 4 x" using assms(1) ph(1) R x(1) by (simp add: closing_def)
    moreover have "settled (procs s) x" using assms(2) R x(1) by (simp add: owned_def settled_all_def)
    ultimately show ?thesis using x R w(2) assms(4) that(2) [of w]
      by (cases x) (auto simp: allowed_def is_alive_def)
  qed
qed

section \<open>Properties\<close>

text \<open>C1.
  In every state a pool can reach, \<open>_total\<close> is the number of workers there are (idle, held by a
  task, or lost to a cancelled one), \<open>_waiting\<close> the number of suspended acquires,
  \<open>_pending_grows\<close> the number of grow tasks, and the lock has at most one holder.\<close>

theorem pool_accounted:
  assumes "pool_reach c s"
  shows "total (st s) = int (length (idle (st s)) + size (\<Sum>t\<in>#tasks s. held t) + size (lost s))
    \<and> waiting (st s) = (\<Sum>t\<in>#tasks s. waits t) \<and> pending_grows (st s) = (\<Sum>t\<in>#tasks s. grows t)
    \<and> (\<Sum>t\<in>#tasks s. holds t) = of_bool (locked s)"
  using reach_invs(1) [OF assms] by (simp add: counted_def workers_def)

theorem pool_accounted_witness:
  "let s = sys_now (pool_now 1 [] 1 1 False) [0 \<mapsto> Dead killed_code] False
             [AcqWaiting, SweepKill w0 []] [] 100
   in total (st s) = 1 \<and> (\<Sum>t\<in>#tasks s. waits t) = 1"
  using pool_accounted [OF one_waiting] by (simp add: now_defs)



text \<open>C3.
  No process has two owners: no two of the idle workers, the executions, the releases, the sweep, the
  shutdown and the spawns under way hold the same one. One that has not been reaped has exactly one
  owner, or was abandoned, once: by a task that was cancelled (\<open>lost\<close>) or by a spawn whose process the
  job object refused (\<open>orphans\<close>), which needs a job object.
\<close>

theorem process_owned_once:
  assumes "pool_reach c s"
  shows "(let owners = count (image_mset proc (mset (idle (st s)) + (\<Sum>t\<in>#tasks s. held t)
                          + (\<Sum>t\<in>#tasks s. born t))) (Some p);
              abandoned = count (image_mset proc (lost s + orphans s)) (Some p)
          in owners + abandoned \<le> 1 \<and> (reaped (procs s) p \<or> owners + abandoned = 1))
    \<and> (job_object (st s) = None \<longrightarrow> orphans s = {#})"
proof -
  have o: "once (pids s)" "\<not> reaped (procs s) p \<Longrightarrow> Some p \<in># pids s"
    using reach_invs(3) [OF assms] by (simp_all add: owned_def owns_def)
  have one: "count (pids s) (Some p) = 1" if "\<not> reaped (procs s) p"
  proof -
    have "0 < count (pids s) (Some p)" using o(2) [OF that] by (simp only: count_greater_zero_iff)
    moreover have "count (pids s) (Some p) \<le> 1" using o(1) by blast
    ultimately show ?thesis by linarith
  qed
  have "pids s = image_mset proc (mset (idle (st s)) + tally held (tasks s) + tally born (tasks s)) +
      image_mset proc (lost s + orphans s)"
    by (simp add: pids_parts)
  then have "count (pids s) (Some p) =
      count (image_mset proc (mset (idle (st s)) + tally held (tasks s) + tally born (tasks s))) (Some p) +
      count (image_mset proc (lost s + orphans s)) (Some p)"
    by (simp only: count_union)
  with o(1) one reach_invs(5) [OF assms] show ?thesis unfolding Let_def jobless_clean_def by metis
qed

theorem process_owned_once_witness:
  "count (image_mset proc (mset [w0, w1])) (Some 1) = 1"
  using process_owned_once [OF two_idle, of 1] by (simp add: now_defs reaped_def Let_def)

text \<open>C4.
  A worker that is running a prompt is left alone: as long as its execution goes on, no step of
  another request, of a release, of the sweep or of the shutdown touches its process.\<close>

theorem busy_worker_untouched:
  assumes "pool_reach c s" "pool_step s t" "Using w \<in># tasks s" "Using w \<in># tasks t" "proc w = Some p"
  shows "procs t p = procs s p"
  by (rule using_step [OF reach_invs(3) [OF assms(1)] assms(2-5)])

theorem busy_worker_untouched_witness:
  "let s = sys_now (pool_now 1 [] 1 0 False) [0 \<mapsto> Running] False [Using w0, SweepSleep] [] 0
   in procs (s\<lparr>tasks := add_mset AcqEnter (tasks s)\<rparr>) 0 = Some Running"
  using busy_worker_untouched [OF one_busy request, of w0 0]
  by (simp add: sys_now_def w0_def)

text \<open>C5.
  Workers are one-shot: once the release of a worker has begun, no step of the system puts it
  back on the idle queue or hands it to a request.\<close>

theorem workers_one_shot:
  assumes "pool_reach c s" "x \<in># tasks s" "x \<in> {RelNew b w, RelKill b w, RelLock b w}"
    and "sys_step\<^sup>*\<^sup>* s t"
  shows "w \<notin> set (idle (st t)) \<and> Using w \<notin># tasks t"
proof -
  note o = reach_invs(3) [OF assms(1)]
  from multi_member_split [OF assms(2)] obtain R where R: "tasks s = add_mset x R" ..
  have x: "held x = {#w#}" "\<forall>v. x \<noteq> Using v" using assms(3) by auto
  then have "w \<in># workers s" using workers_held [OF assms(2)] by simp
  from worker_known [OF o this] obtain p where p: "proc w = Some p" "procs s p \<noteq> None" .
  have "p \<notin> serving s" using released_apart [OF o R x p(1)] .
  from spent_steps [OF assms(4) p(2) this] p(1) show ?thesis by (auto simp: serving_def)
qed

theorem workers_one_shot_witness:
  "w0 \<notin> set (idle (pool_now 1 [] 1 0 False))"
  using workers_one_shot [OF one_released, of "RelNew False w0" False w0, OF _ _ rtranclp.rtrancl_refl]
  by (simp add: sys_now_def)

text \<open>C6.
  A finished shutdown is final: from then on the idle queue is empty, no process is spawned and
  no request is handed a worker, whatever was still in flight.\<close>

theorem stop_is_final:
  assumes "pool_reach c s" "StopDone \<in># tasks s" "sys_step\<^sup>*\<^sup>* s t"
  shows "stopped (st t) \<and> idle (st t) = [] \<and> (procs s p = None \<longrightarrow> procs t p = None)
    \<and> (Using w \<in># tasks t \<longrightarrow> Using w \<in># tasks s)"
proof -
  note cl = reach_invs(4) [OF assms(1)]
  from multi_member_split [OF assms(2)] obtain R where "tasks s = add_mset StopDone R" ..
  from closing_phase(1) [OF cl this] have "stop_phase s = 4" by simp
  from closed_steps [OF assms(3) cl this] have t: "closing t" "stop_phase t = 4"
    and rest: "procs s p = None \<longrightarrow> procs t p = None" "Using w \<in># tasks t \<longrightarrow> Using w \<in># tasks s" by blast+
  have "stopped (st t)" using closing_running [OF t(1)] t(2) by auto
  with t rest show ?thesis by (simp add: closing_def)
qed

theorem stop_is_final_witness:
  "let s = sys_now (pool_now 2 [] 2 0 True) [0 \<mapsto> Dead killed_code, 1 \<mapsto> Running] False [StopDone] [w0, w1] 100
   in stopped (st (s\<lparr>tasks := add_mset AcqEnter (tasks s)\<rparr>))"
  using stop_is_final [OF two_orphaned, of "sys_now (pool_now 2 [] 2 0 True)
      [0 \<mapsto> Dead killed_code, 1 \<mapsto> Running] False [AcqEnter, StopDone] [w0, w1] 100" 0 w0]
    request [of "sys_now (pool_now 2 [] 2 0 True) [0 \<mapsto> Dead killed_code, 1 \<mapsto> Running] False [StopDone] [w0, w1] 100"]
  by (simp add: sys_now_def sys_step_def r_into_rtranclp)

text \<open>C7.
  When \<open>stop\<close> has returned, a process that is still there belongs to a request that was in flight
  (it is running, or its release is about to kill it), to a task that was cancelled in mid-kill, or is
  one a job object refused; without a job object the last cannot be.
\<close>

theorem stop_leaves_only_busy:
  assumes "pool_reach c s" "StopDone \<in># tasks s" "\<not> reaped (procs s) p"
  shows "\<exists>w b. proc w = Some p \<and>
    (Using w \<in># tasks s \<or> RelNew b w \<in># tasks s \<or> RelKill b w \<in># tasks s \<or>
     w \<in># lost s \<or> w \<in># orphans s \<and> job_object (st s) \<noteq> None)"
  by (rule owner_after_stop [OF reach_invs(4,3) [OF assms(1)] assms(2,3)])
    (use reach_invs(5) [OF assms(1)] in \<open>auto simp: jobless_clean_def\<close>)

theorem stop_leaves_only_busy_witness:
  "\<exists>w. proc w = Some 1 \<and> w \<in> set [w0, w1]"
  using stop_leaves_only_busy [OF two_orphaned, of 1] by (auto simp: sys_now_def reaped_def)

text \<open>C10.
  What \<open>acquire\<close> does under the lock, on every branch. A stopped pool raises at once and is left as it
  is. Otherwise the workers at the front that are known to be dead are dropped and leave the count; the
  first one after them is handed out, the rest kept in order; when there is none the request waits, and
  schedules a grow exactly if the count is then below \<open>max_workers\<close>.
\<close>

theorem acquire_hands_oldest:
  "acquire_loop T P =
     (if stopped P then (Unavailable (us ''pool is shutting down''), P)
      else case dropWhile (\<lambda>w. \<not> is_alive T w) (idle P) of
             w # rest \<Rightarrow>
               (Handed w, P\<lparr>idle := rest,
                  total := total P - int (length (takeWhile (\<lambda>w. \<not> is_alive T w) (idle P)))\<rparr>)
           | [] \<Rightarrow>
               (let left = total P - int (length (idle P)); grow = left < max_workers (config P)
                in (Waits grow, P\<lparr>idle := [], total := left, waiting := waiting P + 1,
                      pending_grows := pending_grows P + of_bool grow\<rparr>)))"
proof (cases rule: acquire_loop_cases [of P T])
  case stop
  then show ?thesis by simp
next
  case (hand dead w rest)
  then have "dropWhile (\<lambda>w. \<not> is_alive T w) (idle P) = w # rest"
    "takeWhile (\<lambda>w. \<not> is_alive T w) (idle P) = dead"
    by (simp_all add: list_all_iff takeWhile_append2 dropWhile_append2)
  with hand show ?thesis by simp
next
  case grow
  then have gone: "dropWhile (\<lambda>w. \<not> is_alive T w) (idle P) = []" by (simp add: list_all_iff)
  with grow show ?thesis by (simp only: gone) (simp add: Let_def)
next
  case full
  then have gone: "dropWhile (\<lambda>w. \<not> is_alive T w) (idle P) = []" by (simp add: list_all_iff)
  with full show ?thesis by (simp only: gone) (simp add: Let_def)
qed

text \<open>A woken acquire gives up on a failed spawn only when nothing can satisfy it any more (no idle
  worker and no other spawn pending), with the recorded error in its message, or because the
  pool was stopped; otherwise it gets a worker or waits again.\<close>

theorem wake_gives_up:
  "fst (acquire_wake T P) = Unavailable msg \<longleftrightarrow>
     Some msg = (case (last_spawn_error P, idle P, pending_grows P = 0) of
         (Some err, [], True) \<Rightarrow> Some (us ''worker spawn failed: '' @ err)
       | _ \<Rightarrow> (if stopped P then Some (us ''pool is shutting down'') else None))"
proof -
  have loop: "fst (acquire_loop T Q) = Unavailable msg \<longleftrightarrow> stopped Q \<and> msg = us ''pool is shutting down''" for Q
    by (rule acquire_loop_cases [of Q T]) auto
  show ?thesis
    by (cases "last_spawn_error P"; cases "idle P"; cases "pending_grows P = 0")
      (auto simp: acquire_wake_def loop)
qed

text \<open>C11.
  What a round of the scale-down loop takes. The drain to zero happens only when nothing holds a worker
  (no execution, no release, no other kill), so a request or job in flight holds it off, and it takes the
  whole idle queue. Otherwise the round takes exactly the front ones of the workers that have been idle
  past the timeout, as many as there are idle beyond \<open>min_workers\<close>; so it leaves \<open>min_workers\<close> of them
  (or all, when there are fewer), loses none, and does not change the count before a kill is done.
\<close>

theorem sweep_takes:
  assumes "pool_reach c s" "sweep_select (clock s) (st s) = (kills, P)"
  shows "if draining (clock s) (st s)
    then (\<forall>t \<in># tasks s. held t = {#}) \<and> lost s = {#} \<and> kills = idle (st s) \<and> idle P = []
    else kills = take (nat (int (length (idle (st s))) - min_workers (config (st s))))
        (filter (\<lambda>w. exceeds (clock s - became_idle_at w) (idle_timeout_sec (config (st s)))) (idle (st s)))
      \<and> min (int (length (idle (st s)))) (min_workers (config (st s))) \<le> int (length (idle P))
      \<and> mset (idle (st s)) = mset kills + mset (idle P) \<and> total P = total (st s)"
proof (cases "draining (clock s) (st s)")
  case True
  then have "total (st s) = int (length (idle (st s)))" by (simp add: draining_def)
  from idle_only [OF reach_invs(1) [OF assms(1)] this] sweep_drains_all [OF True] assms(2) True
  show ?thesis by simp
next
  case False
  with sweep_keeps_min [OF assms(2)] sweep_kills [OF assms(2)] sweep_select_effect(1,2) [OF assms(2)]
  show ?thesis by simp
qed

text \<open>After a hundred seconds the one idle worker goes, after fifty it stays.\<close>

theorem sweep_takes_witness:
  "fst (sweep_select 100 (pool_now 1 [w0] 1 0 False)) = [w0] \<and>
   length (idle (snd (sweep_select 50 (pool_now 1 [w0] 1 0 False)))) \<ge> 1"
proof -
  let ?s = "\<lambda>now. sys_now (pool_now 1 [w0] 1 0 False) [0 \<mapsto> Running] False [SweepSleep] [] now"
  have r: "pool_reach (small 1) (?s 100)" "pool_reach (small 1) (?s 50)"
    using reach_tick [OF one_idle, of 100] reach_tick [OF one_idle, of 50] by (simp_all add: now_defs)
  have "draining (clock (?s 100)) (st (?s 100))" "\<not> draining (clock (?s 50)) (st (?s 50))"
    by (simp_all add: draining_def now_defs)
  with sweep_takes [OF r(1) surjective_pairing] sweep_takes [OF r(2) surjective_pairing]
  show ?thesis by (simp add: now_defs)
qed

text \<open>C12.
  A wake-up can be lost. The pool reaches a state in which a request waits although no worker
  exists, none is pending and the count is below the maximum; and no step but a new request, a
  cancellation (the acquire timeout) or a shutdown changes that.\<close>

theorem wakeup_can_be_lost:
  "\<exists>s. pool_reach (small 1) s \<and> tasks s = {#SweepSleep, AcqWaiting#} \<and> idle (st s) = []
     \<and> total (st s) < max_workers (config (st s)) \<and> pending_grows (st s) = 0
     \<and> Collect (sys_step s) \<subseteq> {t. tasks t = tasks s \<or> tasks t = add_mset AcqEnter (tasks s)
                                  \<or> tasks t = {#SweepSleep, AcqCancelled#} \<or> stopped (st t)}"
proof (intro exI conjI subsetI)
  let ?s = "sys_now (pool_now 1 [] 0 1 False) [0 \<mapsto> Reaped killed_code] False [SweepSleep, AcqWaiting] [] 100"
  show "pool_reach (small 1) ?s" by (rule one_stranded)
  fix t assume "t \<in> Collect (sys_step ?s)"
  then have "pool_step ?s t \<or> os_step ?s t" by (simp add: sys_step_def)
  then show "t \<in> {t. tasks t = tasks ?s \<or> tasks t = add_mset AcqEnter (tasks ?s)
                    \<or> tasks t = {#SweepSleep, AcqCancelled#} \<or> stopped (st t)}"
  proof
    assume "os_step ?s t"
    then show ?thesis by (auto elim: os_step.cases)
  next
    assume "pool_step ?s t"
    then show ?thesis
    proof cases
      case (sweep R kills P u T)
      then have "R = {#AcqWaiting#}" by (auto simp: sys_now_def add_eq_conv_ex)
      moreover have "kills = []" using sweep(4) by (auto simp: now_defs sweep_select_def)
      ultimately show ?thesis using sweep by (simp add: sys_now_def)
    qed (auto simp: sys_now_def add_eq_conv_ex)
  qed
qed (simp_all add: now_defs)

text \<open>C13.
  \<open>stop\<close> can return with an idle worker's process still running: when it cancels the sweep while
  that waits for one of the workers it chose, the ones after it are in no list any more and
  nothing signals them.\<close>

theorem stop_can_leave_idle_running:
  "\<exists>s p. pool_reach (small 2) s \<and> tasks s = {#StopDone#} \<and> idle (st s) = []
     \<and> procs s p = Some Running \<and> total (st s) = 2"
  by (intro exI conjI, rule two_orphaned) (auto simp: now_defs)

text \<open>C30.
  A spawn whose process the job object refuses leaves that process running, and the pool does not count
  it. So where \<open>assign_process_to_job\<close> keeps failing any number of processes can come to run under a
  \<open>max_workers\<close> of 1, with \<open>_total\<close> at 0 and no task left that knows of them.
\<close>

theorem refused_processes_pile_up:
  "\<exists>s. pool_reach elastic s \<and> max_workers elastic = 1 \<and> total (st s) = 0 \<and> tasks s = {#SweepSleep#}
     \<and> card {p. procs s p = Some Running} = n"
proof -
  have "\<exists>err M. pool_reach elastic (refusing err 0 0 False [SweepSleep] (\<lambda>p. if p < n then Some Running else None) M)"
  proof (induction n)
    case 0
    show ?case using refusing_boot by (intro exI [of _ None] exI [of _ "{#}"]) simp
  next
    case (Suc n)
    then obtain err M where
      "pool_reach elastic (refusing err 0 0 False [SweepSleep] (\<lambda>p. if p < n then Some Running else None) M)" by blast
    from refusing_round [OF this, of n] have "pool_reach elastic (refusing (Some []) 0 0 False [SweepSleep]
      ((\<lambda>p. if p < n then Some Running else None)(n \<mapsto> Running)) (add_mset (process n) M))" by simp
    moreover have "(\<lambda>p. if p < n then Some Running else None)(n \<mapsto> Running) = (\<lambda>p. if p < Suc n then Some Running else None)"
      by auto
    ultimately show ?case by metis
  qed
  then obtain err M where
    r: "pool_reach elastic (refusing err 0 0 False [SweepSleep] (\<lambda>p. if p < n then Some Running else None) M)" by blast
  have "{p. (if p < n then Some Running else None) = Some Running} = {..< n}" by auto
  with r show ?thesis
    by (intro exI [of _ "refusing err 0 0 False [SweepSleep] (\<lambda>p. if p < n then Some Running else None) M"])
      (simp add: refusing_def elastic_def)
qed

end
