(* ===== verification/PoolLife.thy ===== *)
theory PoolLife
  imports PoolProps
begin

text \<open>
  The contract of the pool towards one worker process, as an abstract life: a process is made by a spawn,
  becomes a warm worker, may serve one prompt, and is retired; from each of these it may be dropped. Every step of the pool, seen through \<open>stage_of\<close>, is
  a step of that life or none.
\<close>

subsection \<open>The abstract life\<close>

datatype stage = Unborn | Starting | Warm | Busy | Retired

inductive life :: "stage \<Rightarrow> stage \<Rightarrow> bool" where
  makes: "life Unborn Starting"
| starts: "life Starting Warm"
| aborts: "life Starting Retired"
| serves: "life Warm Busy"
| dropped: "life Warm Retired"
| retires: "life Busy Retired"

inductive_simps life_from [simp]: "life Unborn x" "life Starting x" "life Warm x" "life Busy x" "life Retired x"

text \<open>The stages are ordered by how far a process has come, and a life only goes forward.\<close>

fun rank :: "stage \<Rightarrow> nat" where
  "rank Unborn = 0"
| "rank Starting = 1"
| "rank Warm = 2"
| "rank Busy = 3"
| "rank Retired = 4"

lemma rank_inject: "rank x = rank y \<longleftrightarrow> x = y"
  by (cases x; cases y) simp_all

instantiation stage :: linorder
begin

definition less_eq_stage :: "stage \<Rightarrow> stage \<Rightarrow> bool" where
  "less_eq_stage x y \<longleftrightarrow> rank x \<le> rank y"

definition less_stage :: "stage \<Rightarrow> stage \<Rightarrow> bool" where
  "less_stage x y \<longleftrightarrow> rank x < rank y"

instance
  by standard (auto simp: less_eq_stage_def less_stage_def rank_inject)

end

lemma life_forward: "life x y \<Longrightarrow> x < y"
  by (cases x; cases y) (simp_all add: less_stage_def)

lemma life_later: "life\<^sup>*\<^sup>* x y \<Longrightarrow> x \<le> y"
  by (induction rule: rtranclp_induct) (auto dest: life_forward)

subsection \<open>The stage of a process\<close>

definition stage_of :: "nat \<Rightarrow> sys \<Rightarrow> stage" where
  "stage_of p s =
     (if procs s p = None then Unborn
      else if \<exists>w. Using w \<in># tasks s \<and> proc w = Some p then Busy
      else if \<exists>w \<in> set (idle (st s)). proc w = Some p then Warm
      else if \<exists>x \<in># tasks s. forking x \<and> child_of x = Made p then Starting
      else Retired)"

text \<open>A process that appears belongs to the spawn that made it.\<close>

lemma made_starting:
  assumes "pool_step s t" "procs s p = None" "procs t p \<noteq> None"
  shows "\<exists>x \<in># tasks t. forking x \<and> child_of x = Made p"
  using assms(1)
proof (cases rule: pool_step_table)
  case tame
  then have "procs t p = None \<longleftrightarrow> procs s p = None" by (simp add: tame_def)
  with assms(2,3) show ?thesis by simp
next
  case (made q x)
  then have "q = p" using assms(2,3) by (auto split: if_splits)
  with made show ?thesis by (intro bexI [of _ "with_child (Made p) x"]) simp_all
qed

lemma processes_known:
  assumes "owned s" "w \<in># processes s" "proc w = Some p"
  shows "procs s p \<noteq> None"
proof -
  have "Some p \<in># pids s" using assms(2) unfolding assms(3) [symmetric] by simp
  with assms(1) show ?thesis unfolding owned_def owns_def by blast
qed

lemma child_processes: "x \<in># tasks s \<Longrightarrow> forking x \<Longrightarrow> child_of x = Made p \<Longrightarrow> process p \<in># processes s"
  by (auto simp: processes_def born_def intro!: bexI [of _ x])

lemma stage_of_cases:
  assumes "owned s"
  shows "stage_of p s = Unborn \<longleftrightarrow> procs s p = None"
    and "stage_of p s = Busy \<longleftrightarrow> (\<exists>w. Using w \<in># tasks s \<and> proc w = Some p)"
    and "stage_of p s = Warm \<longleftrightarrow> (\<exists>w \<in> set (idle (st s)). proc w = Some p)"
    and "stage_of p s = Starting \<longleftrightarrow> (\<exists>x \<in># tasks s. forking x \<and> child_of x = Made p)"
proof -
  let ?busy = "\<exists>w. Using w \<in># tasks s \<and> proc w = Some p" and ?warm = "\<exists>w \<in> set (idle (st s)). proc w = Some p"
    and ?starting = "\<exists>x \<in># tasks s. forking x \<and> child_of x = Made p"
  have known: "procs s p \<noteq> None" if "?busy \<or> ?warm \<or> ?starting"
    using that processes_known [OF assms] workers_held [of "Using _" s] workers_idle child_processes [of _ s p]
    by (fastforce simp: processes_def)
  then have unknown: "\<not> ?busy \<and> \<not> ?warm \<and> \<not> ?starting" if "procs s p = None" using that by blast
  have busy_warm: "\<not> ?busy" if ?warm using that using_apart_idle [OF assms] by metis
  have busy_starting: "\<not> ?busy" if st: ?starting
  proof
    assume ?busy
    then obtain w where w: "Using w \<in># tasks s" "proc w = Some p" by blast
    obtain x where x: "x \<in># tasks s" "forking x" "child_of x = Made p" using st by blast
    from multi_member_split [OF x(1)] obtain R where R: "tasks s = add_mset x R" ..
    with w(1) x(2) have "Using w \<in># R" by auto
    from using_apart [OF assms R this, of "process p"] x(3) w(2) show False by (simp add: born_def)
  qed
  have warm_starting: "\<not> ?warm" if st: ?starting
  proof
    assume ?warm
    then obtain w where w: "w \<in> set (idle (st s))" "proc w = Some p" by blast
    obtain x where x: "x \<in># tasks s" "child_of x = Made p" using st by blast
    have "{#process p, w#} = {#w#} + {#process p#}" by simp
    also have "\<dots> \<subseteq># mset (idle (st s)) + tally born (tasks s)"
      using multi_member_split [OF x(1)] x(2) w(1) by (intro subset_mset.add_mono) (auto simp: born_def)
    also have "\<dots> \<subseteq># processes s" by (simp add: processes_def workers_def)
    finally have "{#process p, w#} \<subseteq># processes s" .
    from owned_apart [OF assms this] w(2) show False by simp
  qed
  show "stage_of p s = Unborn \<longleftrightarrow> procs s p = None" by (simp add: stage_of_def)
  show "stage_of p s = Busy \<longleftrightarrow> ?busy"
    using unknown by (cases "procs s p = None") (auto simp: stage_of_def)
  show "stage_of p s = Warm \<longleftrightarrow> ?warm"
    using unknown busy_warm by (cases "procs s p = None") (auto simp: stage_of_def)
  show "stage_of p s = Starting \<longleftrightarrow> ?starting"
    using unknown busy_starting warm_starting by (cases "procs s p = None") (auto simp: stage_of_def)
qed

lemma stage_os:
  assumes "os_step s t"
  shows "stage_of p t = stage_of p s"
proof -
  have "tasks t = tasks s" "st t = st s" "procs t p = None \<longleftrightarrow> procs s p = None"
    using assms by (auto elim!: os_step.cases split: if_splits)
  then show ?thesis by (simp only: stage_of_def)
qed

lemma stage_pool:
  assumes "pool_step s t" "owned s"
  shows "stage_of p t = stage_of p s \<or> life (stage_of p s) (stage_of p t)"
proof -
  note t = stage_of_cases [OF owned_pool [OF assms], of p]
  note s = stage_of_cases [OF assms(2), of p]
  have unborn: "stage_of p t = Unborn \<Longrightarrow> stage_of p s = Unborn"
    using known_pool_step [OF assms(1), of p] t(1) s(1) by auto
  have busy: "stage_of p s \<in> {Busy, Warm}" if "stage_of p t = Busy"
    using that user_from [OF assms(1)] t(2) s(2,3) by blast
  have warm: "stage_of p s \<in> {Warm, Starting}" if warm_t: "stage_of p t = Warm"
  proof -
    obtain w where w: "w \<in> set (idle (st t))" "proc w = Some p" using warm_t t(3) by auto
    from idle_from [OF assms(1) w(1)] w(2) s(3,4) show ?thesis by auto
  qed
  have starting: "stage_of p s \<in> {Starting, Unborn}" if starting_t: "stage_of p t = Starting"
  proof -
    obtain u where "u \<in># tasks t" "forking u" "child_of u = Made p" using starting_t t(4) by blast
    from child_from [OF assms(1) this] s(1,4) show ?thesis by blast
  qed
  have made: "stage_of p t \<in> {Unborn, Starting}" if "stage_of p s = Unborn"
    using that made_starting [OF assms(1), of p] t(1,4) s(1) by (cases "procs t p = None") simp_all
  from unborn busy warm starting made show ?thesis by (cases "stage_of p s"; cases "stage_of p t") auto
qed

interpretation lives: simulation "booted c" sys_step owned life "stage_of p"
  using stage_pool stage_os by unfold_locales (auto simp: sys_step_def)

section \<open>Properties\<close>

text \<open>C9.
  The pool implements the one-prompt life of a worker process: seen through \<open>stage_of\<close>, whatever
  happens from a reachable state on is a run of the abstract life, and so a process that has
  served never serves or idles again, and one that was dropped never serves.\<close>

theorem pool_refines_life:
  assumes "pool_reach c s" "sys_step\<^sup>*\<^sup>* s t"
  shows "life\<^sup>*\<^sup>* (stage_of p s) (stage_of p t) \<and> stage_of p s \<le> stage_of p t"
  using lives.sim_reach [OF assms, of p] life_later by blast

theorem pool_refines_life_witness:
  "stage_of 0 (sys_now (pool_now 1 [] 1 0 False) [0 \<mapsto> Running] False [RelNew False w0, SweepSleep] [] 0) = Retired"
proof -
  let ?s = "sys_now (pool_now 1 [] 1 0 False) [0 \<mapsto> Running] False [Using w0, SweepSleep] [] 0"
  let ?t = "sys_now (pool_now 1 [] 1 0 False) [0 \<mapsto> Running] False [RelNew False w0, SweepSleep] [] 0"
  have "pool_step ?s (?s\<lparr>tasks := add_mset (RelNew False w0) {#SweepSleep#}\<rparr>)"
    by (rule run_cancelled) (simp add: sys_now_def)
  then have "sys_step\<^sup>*\<^sup>* ?s ?t" by (intro r_into_rtranclp) (simp add: sys_step_def sys_now_def)
  from pool_refines_life [OF one_busy this, of 0] show ?thesis
    by (simp add: stage_of_def sys_now_def pool_now_def w0_def less_eq_stage_def)
qed

end
