(* ===== verification/PoolLive.thy ===== *)
theory PoolLive
  imports PoolLife
begin

text \<open>
  \<open>stop\<close> can always finish: from every state in which it has begun there is a run to its end, and
  \<open>stop_work\<close> bounds its length. The run is the cancellation of what is pending, the locked section
  and the kills, so none of the pool's tasks can block a shutdown for good.
\<close>

subsection \<open>The work that is left\<close>

text \<open>
  How many steps a task may still cost a shutdown. A pending release costs at most two, one to get
  it suspended and one to cancel it; a spawn that is cancelled kills its process and waits for it; a doomed worker costs its death, the end of the wait for it and
  the count.
\<close>

fun child_toll :: "child \<Rightarrow> nat" where
  "child_toll (Made p) = 4"
| "child_toll (Aborted p) = 3"
| "child_toll _ = 1"

fun toll :: "task \<Rightarrow> nat" where
  "toll (RelNew b w) = 2"
| "toll (RelKill b w) = 1"
| "toll (RelLock b w) = 1"
| "toll (RelSpawn b k) = child_toll k"
| "toll (GrowEnter b) = 1"
| "toll (GrowSpawn b k) = child_toll k"
| "toll StopSweep = 4"
| "toll StopDrain = 3"
| "toll StopGather = 2"
| "toll StopLock = 1"
| "toll (StopKill w ws) = 3 + 3 * length ws"
| "toll (StopDec w ws) = 1 + 3 * length ws"
| "toll t = 0"

definition stop_work :: "sys \<Rightarrow> nat" where
  "stop_work s = tally toll (tasks s) + 3 * length (idle (st s))"

lemma toll_mark [simp]: "toll (mark t) = toll t"
  by (cases t) simp_all

lemma toll_next_kill: "next_kill StopKill StopDone ws T = (t, T') \<Longrightarrow> toll t = 3 * length ws"
  by (cases ws) auto

lemma stopper:
  assumes "closing s" "stopped (st s)"
  obtains x R where "tasks s = add_mset x R" "phase x > 0"
proof -
  have "tally stops (tasks s) \<noteq> 0" using assms by (simp add: closing_def)
  then obtain x where x: "x \<in># tasks s" "stops x \<noteq> 0" by (auto simp: sum_mset_0_iff)
  from multi_member_split [OF x(1)] x(2) that show ?thesis by (auto simp: stops_def)
qed

text \<open>Nothing holds the lock once the pending tasks are through.\<close>

lemma unlocked_late:
  assumes "counted s" "closing s" "stop_phase s \<ge> 3"
  shows "\<not> locked s"
proof -
  have "holds t = 0" if "t \<in># tasks s" for t
  proof -
    have "allowed (stop_phase s) t" using assms(2) that by (simp add: closing_def)
    then have "\<not> starting t" "\<not> spawning t" using assms(3) by (auto simp: allowed_def)
    then show ?thesis by (cases t) simp_all
  qed
  then have "tally holds (tasks s) = 0" by (intro sum_mset.neutral) auto
  with assms(1) show ?thesis by (simp add: counted_def)
qed

subsection \<open>One task of the snapshot\<close>

lemma advanceI:
  "pool_step s t \<Longrightarrow> stop_work t < stop_work s \<Longrightarrow> stopped (st t) = stopped (st s) \<Longrightarrow>
     \<exists>n t. (sys_step ^^ n) s t \<and> n + stop_work t \<le> stop_work s \<and> 0 < n \<and> stopped (st t) = stopped (st s)"
  by (intro exI [of _ "1 :: nat"] exI [of _ t]) (simp add: sys_step_def relcompp.simps)

text \<open>A process that has to end before the task can go on may die first.\<close>

lemma ended_step:
  assumes "proc w = Some p"
  obtains "ended (procs s) w"
  | "sys_step s (s\<lparr>procs := (procs s)(p \<mapsto> Dead killed_code)\<rparr>)"
proof (cases "ended (procs s) w")
  case False
  with assms have "procs s p = Some Running" by (auto simp: ended_def split: option.splits)
  from that(2) dies [OF this] show thesis by (simp add: sys_step_def)
qed (rule that(1))

text \<open>The process of a spawn that is being cancelled is killed and waited for.\<close>

lemma fork_step:
  assumes "tasks s = add_mset x R" "forking x" "child_of x \<notin> {Unmade, Gone}" "toll x = child_toll (child_of x)"
    and "\<And>k. toll (with_child k x) = child_toll k"
  shows "\<exists>n t. (sys_step ^^ n) s t \<and> n + stop_work t \<le> stop_work s \<and> 0 < n \<and> stopped (st t) = stopped (st s)"
proof (cases "child_of x")
  case (Made p)
  show ?thesis
    by (rule advanceI [OF child_aborted [OF assms(1,2) Made]])
      (simp_all add: stop_work_def assms(1,4,5) Made)
next
  case (Aborted p)
  consider "ended (procs s) (process p)" | "sys_step s (s\<lparr>procs := (procs s)(p \<mapsto> Dead killed_code)\<rparr>)"
    by (rule ended_step [of "process p" p s]) simp_all
  then show ?thesis
  proof cases
    case 1
    show ?thesis
      by (rule advanceI [OF child_ended [OF assms(1,2) Aborted 1]])
        (simp_all add: stop_work_def assms(1,4,5) Aborted)
  next
    case 2
    let ?d = "s\<lparr>procs := (procs s)(p \<mapsto> Dead killed_code)\<rparr>"
    let ?t = "?d\<lparr>procs := awaited (process p) (procs ?d), tasks := add_mset (with_child Gone x) R\<rparr>"
    have "ended (procs ?d) (process p)" by (simp add: ended_def)
    with child_ended [of ?d x R p] assms(1,2) Aborted have "sys_step ?d ?t" by (simp add: sys_step_def)
    with 2 have "(sys_step ^^ 2) s ?t" by (auto simp: numeral_2_eq_2 relcompp.simps)
    then show ?thesis
      by (intro exI conjI) (assumption, simp_all add: stop_work_def assms(1,4,5) Aborted)
  qed
qed (use assms(3) in simp_all)

lemma pending_step:
  assumes "tasks s = add_mset StopGather R" "x \<in># R" "marked x"
  shows "\<exists>n t. (sys_step ^^ n) s t \<and> n + stop_work t \<le> stop_work s \<and> 0 < n \<and> stopped (st t) = stopped (st s)"
proof -
  from multi_member_split [OF assms(2)] obtain Q where Q: "R = add_mset x Q" ..
  have s: "tasks s = add_mset x (add_mset StopGather Q)" using assms(1) Q by simp
  have g: "StopGather \<in># tasks s" using assms(1) by simp
  show ?thesis
  proof (cases x)
    case (RelNew b w)
    then have x: "x = RelNew True w" using assms(3) by simp
    show ?thesis
    proof (cases "is_alive (procs s) w")
      case True
      show ?thesis
        by (rule advanceI [OF release_kill [OF s [unfolded x] True]]) (simp_all add: stop_work_def s x)
    next
      case False
      show ?thesis
        by (rule advanceI [OF release_dead [OF s [unfolded x] False]]) (simp_all add: stop_work_def s x)
    qed
  next
    case (RelKill b w)
    then have x: "x \<in> {RelKill True w, RelLock True w}" using assms(3) by simp
    show ?thesis
      by (rule advanceI [OF cancel_release [OF g s x]]) (simp_all add: stop_work_def s RelKill)
  next
    case (RelLock b w)
    then have x: "x \<in> {RelKill True w, RelLock True w}" using assms(3) by simp
    show ?thesis
      by (rule advanceI [OF cancel_release [OF g s x]]) (simp_all add: stop_work_def s RelLock)
  next
    case (RelSpawn b k)
    then have b: "b = True" using assms(3) by simp
    show ?thesis
    proof (cases "k \<in> {Unmade, Gone}")
      case True
      show ?thesis
        by (rule advanceI [OF cancel_release_spawn [OF g s [unfolded RelSpawn b] True]])
          (use True in \<open>auto simp: stop_work_def s RelSpawn\<close>)
    next
      case False
      with RelSpawn show ?thesis by (intro fork_step [OF s]) (cases k; simp)+
    qed
  next
    case (GrowEnter b)
    then have x: "x = GrowEnter True" using assms(3) by simp
    show ?thesis
      by (rule advanceI [OF cancel_grow [OF g s [unfolded x]]]) (simp_all add: stop_work_def s x)
  next
    case (GrowSpawn b k)
    then have b: "b = True" using assms(3) by simp
    show ?thesis
    proof (cases "k \<in> {Unmade, Gone}")
      case True
      show ?thesis
        by (rule advanceI [OF cancel_grow_spawn [OF g s [unfolded GrowSpawn b] True]])
          (use True in \<open>auto simp: stop_work_def s GrowSpawn\<close>)
    next
      case False
      with GrowSpawn show ?thesis by (intro fork_step [OF s]) (cases k; simp)+
    qed
  qed (use assms(3) in simp_all)
qed

subsection \<open>The shutdown moves on\<close>

text \<open>Two steps at most bring it nearer to its end, in whatever state it is.\<close>

lemma nearerI:
  "pool_step s t \<Longrightarrow> stop_work t < stop_work s \<Longrightarrow> stopped (st t) \<Longrightarrow>
     \<exists>n t. (sys_step ^^ n) s t \<and> n + stop_work t \<le> stop_work s \<and> 0 < n \<and> stopped (st t)"
  by (intro exI [of _ "1 :: nat"] exI [of _ t]) (simp add: sys_step_def relcompp.simps)

lemma stop_advances:
  assumes "counted s" "closing s" "stopped (st s)" "StopDone \<notin># tasks s"
  shows "\<exists>n t. (sys_step ^^ n) s t \<and> n + stop_work t \<le> stop_work s \<and> 0 < n \<and> stopped (st t)"
proof -
  obtain x R where s: "tasks s = add_mset x R" and x: "phase x > 0"
    using stopper [OF assms(2,3)] .
  have ph: "stop_phase s = phase x" by (rule closing_phase(1) [OF assms(2) s x])
  have free: "\<not> locked s" if "phase x \<ge> 3" using unlocked_late [OF assms(1,2)] ph that by simp
  show ?thesis
  proof (cases x)
    case StopSweep
    show ?thesis
      by (rule nearerI [OF stop_snapshot [OF s [unfolded StopSweep]]])
        (simp_all add: stop_work_def s StopSweep tally_mark assms(3))
  next
    case StopDrain
    show ?thesis
      by (rule nearerI [OF stop_expired [OF s [unfolded StopDrain]]])
        (simp_all add: stop_work_def s StopDrain assms(3))
  next
    case StopGather
    show ?thesis
    proof (cases "\<forall>u \<in># R. \<not> marked u")
      case True
      show ?thesis
        by (rule nearerI [OF stop_drained [OF s _ True]])
          (simp_all add: stop_work_def s StopGather assms(3))
    next
      case False
      then obtain u where "u \<in># R" "marked u" by blast
      from pending_step [OF s [unfolded StopGather] this] show ?thesis
        using nearerI assms(3) by blast
    qed
  next
    case StopLock
    obtain doomed P where c: "stop_collect (st s) = (doomed, P)" by (cases "stop_collect (st s)")
    obtain u T where k: "next_kill StopKill StopDone doomed (procs s) = (u, T)"
      by (cases "next_kill StopKill StopDone doomed (procs s)")
    have "\<not> locked s" using free StopLock by simp
    from stop_idle [OF s [unfolded StopLock] this c k] show ?thesis
      by (rule nearerI)
        (use c toll_next_kill [OF k] assms(3) in
          \<open>auto simp: stop_work_def s StopLock stop_collect_def tally_moves\<close>)
  next
    case (StopKill w ws)
    show ?thesis
    proof (cases "ended (procs s) w")
      case True
      show ?thesis
        by (rule nearerI [OF stop_killed [OF s [unfolded StopKill] True]])
          (simp_all add: stop_work_def s StopKill assms(3))
    next
      case False
      then obtain p where p: "proc w = Some p" "procs s p = Some Running"
        by (auto simp: ended_def split: option.splits)
      let ?d = "s\<lparr>procs := (procs s)(p \<mapsto> Dead killed_code)\<rparr>"
      have "sys_step s ?d" using dies [OF p(2)] by (simp add: sys_step_def)
      moreover have "ended (procs ?d) w" by (simp add: ended_def p(1))
      with stop_killed [of ?d w ws R] s StopKill
      have "sys_step ?d (?d\<lparr>procs := awaited w (procs ?d), tasks := add_mset (StopDec w ws) R\<rparr>)"
        by (simp add: sys_step_def)
      ultimately have "(sys_step ^^ 2) s (?d\<lparr>procs := awaited w (procs ?d), tasks := add_mset (StopDec w ws) R\<rparr>)"
        by (auto simp: numeral_2_eq_2 relcompp.simps)
      then show ?thesis
        by (intro exI conjI) (assumption, simp_all add: stop_work_def s StopKill assms(3))
    qed
  next
    case (StopDec w ws)
    obtain u T where k: "next_kill StopKill StopDone ws (procs s) = (u, T)"
      by (cases "next_kill StopKill StopDone ws (procs s)")
    have "\<not> locked s" using free StopDec by simp
    from stop_count [OF s [unfolded StopDec] this k] show ?thesis
      by (rule nearerI) (simp_all add: stop_work_def s StopDec toll_next_kill [OF k] assms(3))
  qed (use assms(4) s x in simp_all)
qed

lemma stop_ends:
  assumes "counted s" "closing s" "stopped (st s)"
  shows "\<exists>n t. n \<le> stop_work s \<and> (sys_step ^^ n) s t \<and> StopDone \<in># tasks t"
  using assms
proof (induction "stop_work s" arbitrary: s rule: less_induct)
  case less
  show ?case
  proof (cases "StopDone \<in># tasks s")
    case True
    then show ?thesis by (intro exI [of _ 0] exI [of _ s]) simp
  next
    case False
    from stop_advances [OF less.prems False] obtain n t where
      t: "(sys_step ^^ n) s t" "n + stop_work t \<le> stop_work s" "0 < n" "stopped (st t)" by blast
    from t(1) have st: "sys_step\<^sup>*\<^sup>* s t" by (rule relpowp_imp_rtranclp)
    have "counted t" "closing t"
      using counts.inv_steps [OF st less.prems(1)] shutdown.inv_steps [OF st less.prems(2)] by auto
    with less.hyps [of t] t obtain m u where "m \<le> stop_work t" "(sys_step ^^ m) t u" "StopDone \<in># tasks u"
      by auto
    with t show ?thesis
      by (intro exI [of _ "n + m"] exI [of _ u]) (auto simp: relpowp_add)
  qed
qed

section \<open>Properties\<close>

text \<open>C8.
  A shutdown can always finish. From every reachable state in which \<open>stop\<close> has begun, whatever
  requests, releases, spawns and sweeps were under way, a run of at most \<open>stop_work\<close> steps ends it, and
  then no idle worker is left: nothing can deadlock it.
\<close>

theorem stop_can_finish:
  assumes "pool_reach c s" "stopped (st s)"
  shows "\<exists>n t. n \<le> stop_work s \<and> (sys_step ^^ n) s t \<and> StopDone \<in># tasks t \<and> idle (st t) = []"
proof -
  note inv = counts.inv_reach [OF assms(1)] shutdown.inv_reach [OF assms(1)]
  from stop_ends [OF inv assms(2)] obtain n t where
    t: "n \<le> stop_work s" "(sys_step ^^ n) s t" "StopDone \<in># tasks t" by blast
  have "closing t" using shutdown.inv_steps [OF relpowp_imp_rtranclp [OF t(2)] inv(2)] .
  moreover from multi_member_split [OF t(3)] obtain R where "tasks t = add_mset StopDone R" ..
  with closing_phase(1) [OF \<open>closing t\<close> this] have "stop_phase t = 4" by simp
  ultimately have "idle (st t) = []" by (simp add: closing_def)
  with t show ?thesis by blast
qed

text \<open>A shutdown that begins with two idle workers.\<close>

theorem stop_can_finish_witness:
  "\<exists>n t. n \<le> 10 \<and>
     (sys_step ^^ n) (sys_now (pool_now 2 [w0, w1] 2 0 True) [0 \<mapsto> Running, 1 \<mapsto> Running] False [StopSweep] [] 0) t \<and>
     StopDone \<in># tasks t \<and> idle (st t) = []"
proof -
  let ?s = "sys_now (pool_now 2 [w0, w1] 2 0 True) [0 \<mapsto> Running, 1 \<mapsto> Running] False [StopSweep] [] 0"
  have r: "pool_reach (small 2) ?s"
    by (rule reach_pool_step [OF two_idle])
      (use stop [of "sys_now (pool_now 2 [w0, w1] 2 0 False) [0 \<mapsto> Running, 1 \<mapsto> Running] False [SweepSleep] [] 0"
         SweepSleep "{#}"] in \<open>simp add: now_defs stop_begin_def\<close>)
  have "stop_work ?s = 10" by (simp add: stop_work_def now_defs)
  with stop_can_finish [OF r] show ?thesis by (simp add: now_defs)
qed

end
