(* ===== verification/Errors.thy ===== *)
theory Errors
  imports Json
begin

text \<open>
  \<open>src/claude_pool/errors.py\<close>: the classification of a failed run by the structured values of
  the CLI's output. The values arrive as decoded JSON, so the status is a \<open>json\<close> value; Python's
  \<open>in frozenset(...)\<close> compares by value (\<open>429.0 == 429\<close>) and raises TypeError on a list or a
  dict, which are unhashable.
\<close>

definition DEFAULT_RETRY_AFTER_SEC :: int where
  "DEFAULT_RETRY_AFTER_SEC = 60"

definition RATE_LIMIT_STATUSES :: "int list" where
  "RATE_LIMIT_STATUSES = [429, 529]"

definition AUTH_STATUSES :: "int list" where
  "AUTH_STATUSES = [401, 403]"

definition AUTH_ERROR_CODES :: "ustring list" where
  "AUTH_ERROR_CODES = [us ''authentication_failed'']"

record failure =
  kind :: ustring
  status :: int
  retryable :: bool
  retry_after_sec :: "int option"

definition unhashable :: "string \<Rightarrow> exn" where
  "unhashable t = Exn (us ''TypeError'') (us (''unhashable type: '' @ [CHR 0x27] @ t @ [CHR 0x27]))"

fun in_int_set :: "int list \<Rightarrow> json \<Rightarrow> exn + bool" where
  "in_int_set S (JInt n) = Inr (List.member S n)"
| "in_int_set S (JBool b) = Inr (List.member S (if b then 1 else 0))"
| "in_int_set S (JFloat (Finite q)) = Inr (list_ex (\<lambda>n. of_int n = q) S)"
| "in_int_set S (JFloat _) = Inr False"
| "in_int_set S JNull = Inr False"
| "in_int_set S (JStr _) = Inr False"
| "in_int_set S (JList _) = Inl (unhashable ''list'')"
| "in_int_set S (JObj _) = Inl (unhashable ''dict'')"

definition classify :: "json \<Rightarrow> ustring \<Rightarrow> exn + failure" where
  "classify api_error_status api_error_code =
     (case in_int_set RATE_LIMIT_STATUSES api_error_status of
        Inl e \<Rightarrow> Inl e
      | Inr limited \<Rightarrow>
          (if limited
           then Inr \<lparr>kind = us ''rate_limited'', status = 429, retryable = True,
                     retry_after_sec = Some DEFAULT_RETRY_AFTER_SEC\<rparr>
           else (case in_int_set AUTH_STATUSES api_error_status of
                   Inl e \<Rightarrow> Inl e
                 | Inr auth \<Rightarrow>
                     (if auth \<or> List.member AUTH_ERROR_CODES api_error_code
                      then Inr \<lparr>kind = us ''not_authenticated'', status = 503, retryable = False,
                                retry_after_sec = None\<rparr>
                      else Inr \<lparr>kind = us ''worker_failed'', status = 502, retryable = False,
                                retry_after_sec = None\<rparr>))))"

text \<open>\<open>classify()\<close>, for a worker that died without a result line.\<close>

definition classify_nothing :: failure where
  "classify_nothing = \<lparr>kind = us ''worker_failed'', status = 502, retryable = False,
     retry_after_sec = None\<rparr>"

lemma classify_nothing: "classify JNull [] = Inr classify_nothing"
  by (simp add: classify_def classify_nothing_def AUTH_ERROR_CODES_def)

fun hashable :: "json \<Rightarrow> bool" where
  "hashable (JList _) = False"
| "hashable (JObj _) = False"
| "hashable _ = True"

lemma in_int_set_hashable: "(\<exists>b. in_int_set S j = Inr b) \<longleftrightarrow> hashable j"
  by (cases "(S, j)" rule: in_int_set.cases) auto

lemma in_int_set_unhashable: "(\<exists>e. in_int_set S j = Inl e) \<longleftrightarrow> \<not> hashable j"
  by (cases "(S, j)" rule: in_int_set.cases) auto

lemmas classify_cases = classify_def RATE_LIMIT_STATUSES_def AUTH_STATUSES_def AUTH_ERROR_CODES_def

lemma classify_int:
  "classify (JInt n) code = Inr
     (if n = 429 \<or> n = 529
      then \<lparr>kind = us ''rate_limited'', status = 429, retryable = True, retry_after_sec = Some 60\<rparr>
      else if n = 401 \<or> n = 403 \<or> code = us ''authentication_failed''
      then \<lparr>kind = us ''not_authenticated'', status = 503, retryable = False, retry_after_sec = None\<rparr>
      else classify_nothing)"
  by (simp add: classify_cases classify_nothing_def DEFAULT_RETRY_AFTER_SEC_def)

lemma classify_null:
  "classify JNull code = Inr
     (if code = us ''authentication_failed''
      then \<lparr>kind = us ''not_authenticated'', status = 503, retryable = False, retry_after_sec = None\<rparr>
      else classify_nothing)"
  by (simp add: classify_cases classify_nothing_def)

lemma classify_total: "hashable j \<Longrightarrow> \<exists>f. classify j code = Inr f"
proof -
  assume "hashable j"
  then obtain b b' where "in_int_set RATE_LIMIT_STATUSES j = Inr b" "in_int_set AUTH_STATUSES j = Inr b'"
    using in_int_set_hashable by metis
  then show ?thesis by (auto simp: classify_def)
qed

lemma classify_raises: "\<not> hashable j \<Longrightarrow> \<exists>e. classify j code = Inl e"
  using in_int_set_unhashable [of RATE_LIMIT_STATUSES j] by (auto simp: classify_def)

text \<open>What every verdict satisfies, whatever the values.\<close>

lemma classify_verdict:
  assumes "classify j code = Inr f"
  shows "(kind f, status f, retryable f, retry_after_sec f) \<in>
    {(us ''rate_limited'', 429, True, Some 60), (us ''not_authenticated'', 503, False, None),
     (us ''worker_failed'', 502, False, None)}"
  using assms by (auto simp: classify_def classify_nothing_def DEFAULT_RETRY_AFTER_SEC_def split: sum.splits if_splits)

end
