(* ===== verification/Runner.thy ===== *)
theory Runner
  imports Pool Errors
begin

text \<open>
  \<open>src/claude_pool/runner.py\<close>: one prompt from \<open>acquire\<close> to its outcome. What the awaited calls
  came back with is the input: the acquire, the run, and whether the wait for the release was
  cancelled. The release itself is a task of the pool (\<open>PoolSystem\<close>); what \<open>execute\<close> decides is
  whether it starts one.
\<close>

record outcome =
  succeeded :: bool
  answer :: json
  took_ms :: json
  error_text :: json
  failed_as :: "failure option"

definition ok_outcome :: "json \<Rightarrow> json \<Rightarrow> outcome" where
  "ok_outcome t ms =
     \<lparr>succeeded = True, answer = t, took_ms = ms, error_text = JStr [], failed_as = None\<rparr>"

definition failed_outcome :: "json \<Rightarrow> failure \<Rightarrow> json \<Rightarrow> outcome" where
  "failed_outcome err f ms =
     \<lparr>succeeded = False, answer = JStr [], took_ms = ms, error_text = err, failed_as = Some f\<rparr>"

definition pool_unavailable :: failure where
  "pool_unavailable =
     \<lparr>kind = us ''pool_unavailable'', status = 503, retryable = True, retry_after_sec = None\<rparr>"

definition timed_out :: failure where
  "timed_out = \<lparr>kind = us ''timeout'', status = 504, retryable = True, retry_after_sec = None\<rparr>"

definition note_outcome :: "outcome \<Rightarrow> pool \<Rightarrow> pool" where
  "note_outcome r P = (if succeeded r then note_success P else note_failure (error_text r) P)"

text \<open>
  \<open>pool.acquire()\<close> gives a worker, raises PoolUnavailableError with its message, or is cancelled.
  A run is the one of \<open>Worker\<close>, or cancelled.
\<close>

datatype acquire_end = Acquired worker | NoWorker ustring | AcquireCancelled

datatype run_end = RunEnds ran | RunCancelled

datatype exec_end = Returned outcome | Raised exn | Cancelled

definition run_outcome :: "ran \<Rightarrow> exn + outcome" where
  "run_outcome r =
     (case r of
        RanTimeout \<Rightarrow> Inr (failed_outcome (jstr ''worker timed out'') timed_out (JInt 0))
      | RanWorkerError msg \<Rightarrow> Inr (failed_outcome (JStr msg) classify_nothing (JInt 0))
      | RanRaised e \<Rightarrow> Inl e
      | RanResult res \<Rightarrow>
          (if is_error res
           then (case classify (api_error_status res) (api_error_code res) of
                   Inl e \<Rightarrow> Inl e
                 | Inr f \<Rightarrow> Inr (failed_outcome (result_text res) f (duration_ms res)))
           else Inr (ok_outcome (result_text res) (duration_ms res))))"

text \<open>
  A \<open>return\<close> in an except branch has noted its outcome before \<open>finally\<close> awaits the release; a
  run that returned is classified and noted after it.
\<close>

definition noted_early :: "ran \<Rightarrow> bool" where
  "noted_early r = (case r of RanTimeout \<Rightarrow> True | RanWorkerError _ \<Rightarrow> True | _ \<Rightarrow> False)"

fun execute :: "acquire_end \<Rightarrow> run_end \<Rightarrow> bool \<Rightarrow> pool \<Rightarrow> exec_end \<times> worker option \<times> pool" where
  "execute AcquireCancelled r severed P = (Cancelled, None, P)"
| "execute (NoWorker msg) r severed P =
     (let out = failed_outcome (JStr msg) pool_unavailable (JInt 0)
      in (Returned out, None, note_outcome out P))"
| "execute (Acquired w) RunCancelled severed P = (Cancelled, Some w, P)"
| "execute (Acquired w) (RunEnds r) severed P =
     (case run_outcome r of
        Inl e \<Rightarrow> (if severed then Cancelled else Raised e, Some w, P)
      | Inr out \<Rightarrow>
          (if severed then (Cancelled, Some w, if noted_early r then note_outcome out P else P)
           else (Returned out, Some w, note_outcome out P)))"

subsection \<open>Facts\<close>

definition known_failure :: "failure \<Rightarrow> bool" where
  "known_failure f \<longleftrightarrow>
     (kind f, status f, retryable f, retry_after_sec f) \<in>
       {(us ''rate_limited'', 429, True, Some 60), (us ''not_authenticated'', 503, False, None),
        (us ''worker_failed'', 502, False, None), (us ''pool_unavailable'', 503, True, None),
        (us ''timeout'', 504, True, None)}"

definition sound_outcome :: "outcome \<Rightarrow> bool" where
  "sound_outcome r \<longleftrightarrow>
     (case failed_as r of None \<Rightarrow> succeeded r \<and> error_text r = JStr []
      | Some f \<Rightarrow> \<not> succeeded r \<and> known_failure f \<and> answer r = JStr [])"

lemma sound_ok [simp]: "sound_outcome (ok_outcome t ms)"
  by (simp add: sound_outcome_def ok_outcome_def)

lemma sound_failed [simp]: "sound_outcome (failed_outcome err f ms) = known_failure f"
  by (simp add: sound_outcome_def failed_outcome_def)

lemma known_fixed [simp]:
  "known_failure pool_unavailable" "known_failure timed_out" "known_failure classify_nothing"
  by (simp_all add: known_failure_def pool_unavailable_def timed_out_def classify_nothing_def)

lemma known_classified: "classify j code = Inr f \<Longrightarrow> known_failure f"
  using classify_verdict [of j code f] unfolding known_failure_def by blast

lemma run_outcome_sound: "run_outcome r = Inr out \<Longrightarrow> sound_outcome out"
  by (auto simp: run_outcome_def known_classified split: ran.splits if_splits sum.splits)

lemma execute_sound: "fst (execute a r severed P) = Returned out \<Longrightarrow> sound_outcome out"
  using run_outcome_sound
  by (cases "(a, r, severed, P)" rule: execute.cases) (auto simp: Let_def split: sum.splits if_splits)

end
