(* ===== verification/PyRepr.thy ===== *)
theory PyRepr
  imports Json
begin

text \<open>
  Python's \<open>repr\<close> of a string, which the code puts into messages. Which characters outside ASCII
  are printable is the Unicode database's business, so that test is a parameter.
\<close>

definition hex_padded :: "nat \<Rightarrow> nat \<Rightarrow> ustring" where
  "hex_padded width n = map (\<lambda>i. hex_digit (n div 16 ^ i mod 16)) (rev [0..<width])"

definition repr_char :: "(nat \<Rightarrow> bool) \<Rightarrow> nat \<Rightarrow> nat \<Rightarrow> ustring" where
  "repr_char is_printable quote c =
     (if c = quote \<or> c = 0x5C then [0x5C, c]
      else if c = 0x09 then us [CHR 0x5C, CHR 0x74]
      else if c = 0x0A then us [CHR 0x5C, CHR 0x6E]
      else if c = 0x0D then us [CHR 0x5C, CHR 0x72]
      else if 0x20 \<le> c \<and> c < 0x7F \<or> 0x80 \<le> c \<and> is_printable c then [c]
      else if c \<le> 0xFF then us [CHR 0x5C, CHR 0x78] @ hex_padded 2 c
      else if c \<le> 0xFFFF then us [CHR 0x5C, CHR 0x75] @ hex_padded 4 c
      else us [CHR 0x5C, CHR 0x55] @ hex_padded 8 c)"

definition repr_str :: "(nat \<Rightarrow> bool) \<Rightarrow> ustring \<Rightarrow> ustring" where
  "repr_str is_printable s =
     (let quote = (if 0x27 \<in> set s \<and> 0x22 \<notin> set s then 0x22 else 0x27)
      in [quote] @ concat (map (repr_char is_printable quote) s) @ [quote])"

definition repr_exn :: "(nat \<Rightarrow> bool) \<Rightarrow> exn \<Rightarrow> ustring" where
  "repr_exn is_printable e =
     exn_class e @ us ''('' @ repr_str is_printable (exn_message e) @ us '')''"

text \<open>
  \<open>repr\<close> and \<open>str\<close> of a JSON value, which an f-string writes; \<open>float_repr\<close> is
  \<open>float.__repr__\<close>.
\<close>

fun repr_json :: "(nat \<Rightarrow> bool) \<Rightarrow> (pyfloat \<Rightarrow> ustring) \<Rightarrow> json \<Rightarrow> ustring" where
  "repr_json is_printable float_repr JNull = us ''None''"
| "repr_json is_printable float_repr (JBool b) = (if b then us ''True'' else us ''False'')"
| "repr_json is_printable float_repr (JInt n) = show_int n"
| "repr_json is_printable float_repr (JFloat f) = float_repr f"
| "repr_json is_printable float_repr (JStr s) = repr_str is_printable s"
| "repr_json is_printable float_repr (JList xs) =
     us ''['' @ intercalate (us '', '') (map (repr_json is_printable float_repr) xs) @ us '']''"
| "repr_json is_printable float_repr (JObj d) =
     us ''{'' @ intercalate (us '', '')
       (map (\<lambda>(k, v). repr_str is_printable k @ us '': '' @ repr_json is_printable float_repr v) d) @ us ''}''"

definition str_json :: "(nat \<Rightarrow> bool) \<Rightarrow> (pyfloat \<Rightarrow> ustring) \<Rightarrow> json \<Rightarrow> ustring" where
  "str_json is_printable float_repr j =
     (case j of JStr s \<Rightarrow> s | _ \<Rightarrow> repr_json is_printable float_repr j)"

lemma str_json_simps [simp]:
  "str_json p fr (JStr s) = s" "str_json p fr (JInt n) = show_int n"
  "str_json p fr (JBool b) = (if b then us ''True'' else us ''False'')" "str_json p fr JNull = us ''None''"
  by (simp_all add: str_json_def)

text \<open>A string of ordinary ASCII without quotes or backslashes is written as it is.\<close>

lemma repr_plain:
  assumes "list_all (\<lambda>c. 0x20 \<le> c \<and> c < 0x7F \<and> c \<noteq> 0x27 \<and> c \<noteq> 0x5C) s"
  shows "repr_str is_printable s = [0x27] @ s @ [0x27]"
proof -
  have "concat (map (repr_char is_printable 0x27) s) = s"
    using assms by (induction s) (auto simp: repr_char_def)
  moreover have "0x27 \<notin> set s" using assms by (auto simp: list_all_iff)
  ultimately show ?thesis by (simp add: repr_str_def)
qed

end
