(* ===== verification/Jobs.thy ===== *)
theory Jobs
  imports Runner PyRepr
begin

text \<open>
  \<open>src/claude_pool/jobs.py\<close>: the store of background jobs. \<open>_jobs\<close> and \<open>_tasks\<close> are dictionaries
  in insertion order. A task of \<open>_tasks\<close> is created but not started, running, or done with its
  callback still to come; asyncio never runs the body of a task that is cancelled before its
  start. Ids and times are inputs.
\<close>

datatype job_status = RUNNING | SUCCEEDED | FAILED | CANCELLED

fun status_text :: "job_status \<Rightarrow> ustring" where
  "status_text RUNNING = us ''running''"
| "status_text SUCCEEDED = us ''succeeded''"
| "status_text FAILED = us ''failed''"
| "status_text CANCELLED = us ''cancelled''"

definition TERMINAL_STATUSES :: "job_status list" where
  "TERMINAL_STATUSES = [SUCCEEDED, FAILED, CANCELLED]"

definition PROMPT_PREVIEW_CHARS :: nat where
  "PROMPT_PREVIEW_CHARS = 80"

record job =
  job_id :: ustring
  prompt_preview :: ustring
  job_timeout_sec :: pyfloat
  job_status :: job_status
  created_at :: rat
  finished_at :: "rat option"
  job_text :: json
  job_duration_ms :: json
  job_error :: json
  job_failure :: "failure option"

definition new_job :: "ustring \<Rightarrow> ustring \<Rightarrow> pyfloat \<Rightarrow> rat \<Rightarrow> job" where
  "new_job jid prompt timeout now =
     \<lparr>job_id = jid, prompt_preview = take PROMPT_PREVIEW_CHARS prompt, job_timeout_sec = timeout,
      job_status = RUNNING, created_at = now, finished_at = None, job_text = JStr [],
      job_duration_ms = JInt 0, job_error = JStr [], job_failure = None\<rparr>"

definition is_terminal :: "job \<Rightarrow> bool" where
  "is_terminal j = List.member TERMINAL_STATUSES (job_status j)"

definition opt_json :: "('a \<Rightarrow> json) \<Rightarrow> 'a option \<Rightarrow> json" where
  "opt_json f v = (case v of None \<Rightarrow> JNull | Some x \<Rightarrow> f x)"

definition to_dict :: "job \<Rightarrow> (ustring, json) dict" where
  "to_dict j =
     [(us ''job_id'', JStr (job_id j)),
      (us ''status'', JStr (status_text (job_status j))),
      (us ''prompt_preview'', JStr (prompt_preview j)),
      (us ''created_at'', JFloat (Finite (created_at j))),
      (us ''finished_at'', opt_json (\<lambda>t. JFloat (Finite t)) (finished_at j))] @
     (case job_status j of
        SUCCEEDED \<Rightarrow> [(us ''text'', job_text j), (us ''duration_ms'', job_duration_ms j)]
      | FAILED \<Rightarrow>
          [(us ''error'', job_error j),
           (us ''kind'', JStr (case job_failure j of None \<Rightarrow> us ''worker_failed'' | Some f \<Rightarrow> kind f)),
           (us ''retryable'', JBool (case job_failure j of None \<Rightarrow> False | Some f \<Rightarrow> retryable f))] @
          (case job_failure j of
             None \<Rightarrow> []
           | Some f \<Rightarrow>
               (case retry_after_sec f of
                  None \<Rightarrow> [] | Some n \<Rightarrow> [(us ''retry_after_sec'', JInt n)])) @
          (if truthy (job_duration_ms j) then [(us ''duration_ms'', job_duration_ms j)] else [])
      | _ \<Rightarrow> [])"

subsection \<open>The store\<close>

datatype job_task = TaskNew ustring | TaskRunning | TaskDone

record store =
  retention_sec :: pyfloat
  max_kept :: int
  jobs :: "(ustring, job) dict"
  job_tasks :: "(ustring, job_task) dict"

definition new_store :: "pyfloat \<Rightarrow> int \<Rightarrow> store" where
  "new_store retention kept = \<lparr>retention_sec = retention, max_kept = kept, jobs = [], job_tasks = []\<rparr>"

definition expired :: "pyfloat \<Rightarrow> rat \<Rightarrow> job \<Rightarrow> bool" where
  "expired retention now j =
     (is_terminal j \<and> (case finished_at j of None \<Rightarrow> False | Some t \<Rightarrow> exceeds (now - t) retention))"

definition finish_time :: "job \<Rightarrow> rat" where
  "finish_time j = (case finished_at j of None \<Rightarrow> 0 | Some t \<Rightarrow> t)"

definition reap :: "rat \<Rightarrow> store \<Rightarrow> store" where
  "reap now S =
     (let kept = filter (\<lambda>(k, j). \<not> expired (retention_sec S) now j) (jobs S);
          finished = sort_key finish_time (filter is_terminal (map snd kept));
          overflow = int (length kept) - max_kept S;
          dropped = take (nat (max 0 overflow)) finished
      in S\<lparr>jobs := fold AList.delete (map job_id dropped) kept\<rparr>)"

definition submit :: "ustring \<Rightarrow> pyfloat \<Rightarrow> ustring \<Rightarrow> rat \<Rightarrow> store \<Rightarrow> job \<times> store" where
  "submit prompt timeout jid now S =
     (let S' = reap now S;
          j = new_job jid prompt timeout now
      in (j, S'\<lparr>jobs := AList.update jid j (jobs S'),
               job_tasks := AList.update jid (TaskNew prompt) (job_tasks S')\<rparr>))"

text \<open>
  \<open>_finish\<close> writes to the job object, which the store still holds if its id is there. The end of
  \<open>_run\<close>, by how \<open>execute\<close> ended; \<open>pr\<close> tells which non-ASCII
  characters \<open>repr\<close> prints.
\<close>

definition finish :: "job_status \<Rightarrow> rat \<Rightarrow> job \<Rightarrow> job" where
  "finish new_status now j = j\<lparr>job_status := new_status, finished_at := Some now\<rparr>"

definition cancelled_job :: "rat \<Rightarrow> job \<Rightarrow> job" where
  "cancelled_job now j = (finish CANCELLED now j)\<lparr>job_error := jstr ''cancelled''\<rparr>"

definition run_ended :: "(nat \<Rightarrow> bool) \<Rightarrow> exec_end \<Rightarrow> rat \<Rightarrow> job \<Rightarrow> job" where
  "run_ended pr e now j =
     (case e of
        Cancelled \<Rightarrow> cancelled_job now j
      | Raised x \<Rightarrow>
          (finish FAILED now j)\<lparr>job_error := JStr (us ''unexpected error: '' @ repr_exn pr x),
                                job_failure := Some classify_nothing\<rparr>
      | Returned r \<Rightarrow>
          (if succeeded r
           then (finish SUCCEEDED now j)\<lparr>job_text := answer r, job_duration_ms := took_ms r\<rparr>
           else (finish FAILED now j)\<lparr>job_error := error_text r, job_failure := failed_as r,
                                      job_duration_ms := took_ms r\<rparr>))"

definition put_task :: "ustring \<Rightarrow> job_task \<Rightarrow> store \<Rightarrow> store" where
  "put_task jid t S = S\<lparr>job_tasks := AList.update jid t (job_tasks S)\<rparr>"

definition change_job :: "ustring \<Rightarrow> (job \<Rightarrow> job) \<Rightarrow> store \<Rightarrow> store" where
  "change_job jid f S = S\<lparr>jobs := AList.map_entry jid f (jobs S)\<rparr>"

definition task_started :: "ustring \<Rightarrow> store \<Rightarrow> store" where
  "task_started jid S = put_task jid TaskRunning S"

definition task_ended :: "(nat \<Rightarrow> bool) \<Rightarrow> ustring \<Rightarrow> exec_end \<Rightarrow> rat \<Rightarrow> store \<Rightarrow> store" where
  "task_ended pr jid e now S = put_task jid TaskDone (change_job jid (run_ended pr e now) S)"

definition task_gone :: "ustring \<Rightarrow> store \<Rightarrow> store" where
  "task_gone jid S = S\<lparr>job_tasks := AList.delete jid (job_tasks S)\<rparr>"

definition get_job :: "ustring \<Rightarrow> store \<Rightarrow> job option" where
  "get_job jid S = map_of (jobs S) jid"

text \<open>\<open>sorted(..., reverse=True)\<close> keeps equal elements in their order.\<close>

definition list_jobs :: "rat \<Rightarrow> store \<Rightarrow> job list \<times> store" where
  "list_jobs now S =
     (let S' = reap now S in (rev (sort_key created_at (rev (map snd (jobs S')))), S'))"

text \<open>
  What \<open>task.cancel()\<close> and the wait for the task do: a task that has not started is dropped
  without running; one that has started ends as \<open>execute\<close> lets it end.
\<close>

definition cancel_task :: "(nat \<Rightarrow> bool) \<Rightarrow> ustring \<Rightarrow> exec_end \<Rightarrow> rat \<Rightarrow> store \<Rightarrow> store" where
  "cancel_task pr jid e now S =
     (case map_of (job_tasks S) jid of
        Some (TaskNew prompt) \<Rightarrow> put_task jid TaskDone S
      | Some TaskRunning \<Rightarrow> task_ended pr jid e now S
      | _ \<Rightarrow> S)"

definition cancel_job :: "(nat \<Rightarrow> bool) \<Rightarrow> ustring \<Rightarrow> exec_end \<Rightarrow> rat \<Rightarrow> store \<Rightarrow> job option \<times> store" where
  "cancel_job pr jid e now S =
     (case map_of (jobs S) jid of
        None \<Rightarrow> (None, S)
      | Some j \<Rightarrow>
          (let S' =
             (case map_of (job_tasks S) jid of
                Some (TaskNew prompt) \<Rightarrow> cancel_task pr jid e now S
              | Some TaskRunning \<Rightarrow> cancel_task pr jid e now S
              | _ \<Rightarrow> (if is_terminal j then S else change_job jid (cancelled_job now) S))
           in (map_of (jobs S') jid, S')))"

text \<open>\<open>shutdown\<close> cancels every task; each ends in its own way and at its own time.\<close>

definition shutdown_jobs :: "(nat \<Rightarrow> bool) \<Rightarrow> (ustring \<Rightarrow> exec_end) \<Rightarrow> (ustring \<Rightarrow> rat) \<Rightarrow> store \<Rightarrow> store" where
  "shutdown_jobs pr e now S =
     fold (\<lambda>jid. cancel_task pr jid (e jid) (now jid)) (map fst (job_tasks S)) S"

definition job_stats :: "store \<Rightarrow> (ustring, json) dict" where
  "job_stats S =
     [(us ''total'', JInt (int (length (jobs S)))),
      (us ''running'', JInt (int (length (filter (\<lambda>j. job_status j = RUNNING) (map snd (jobs S))))))]"

end
