(* ===== verification/JobsProps.thy ===== *)
theory JobsProps
  imports Jobs
begin

text \<open>
  The job store as a transition system over its operations, its invariant, and what the store
  promises: a finished job never changes, a running one is never dropped, the store is bounded,
  and listing is sorted.
\<close>

subsection \<open>Jobs\<close>

definition job_ok :: "job \<Rightarrow> bool" where
  "job_ok j =
     (case job_status j of
        RUNNING \<Rightarrow> finished_at j = None
      | SUCCEEDED \<Rightarrow> finished_at j \<noteq> None
      | FAILED \<Rightarrow> finished_at j \<noteq> None \<and> (\<exists>f. job_failure j = Some f \<and> known_failure f)
      | CANCELLED \<Rightarrow> finished_at j \<noteq> None)"

lemma terminal_iff: "is_terminal j \<longleftrightarrow> job_status j \<noteq> RUNNING"
  by (cases "job_status j") (simp_all add: is_terminal_def TERMINAL_STATUSES_def)

lemma job_ok_new [simp]: "job_ok (new_job jid prompt timeout now)"
  by (simp add: job_ok_def new_job_def)

lemma job_ok_cancelled [simp]: "job_ok (cancelled_job now j)"
  by (simp add: job_ok_def cancelled_job_def finish_def)

definition fair_end :: "exec_end \<Rightarrow> bool" where
  "fair_end e = (\<exists>a r severed P. e = fst (execute a r severed P))"

lemma job_ok_ended:
  assumes "fair_end e"
  shows "job_ok (run_ended pr e now j)"
proof (cases e)
  case (Returned out)
  then have "sound_outcome out" using assms execute_sound unfolding fair_end_def by metis
  with Returned show ?thesis
    by (auto simp: run_ended_def job_ok_def finish_def sound_outcome_def split: option.splits)
qed (simp_all add: run_ended_def job_ok_def finish_def cancelled_job_def)

lemma ended_terminal [simp]:
  "is_terminal (run_ended pr e now j)" "is_terminal (cancelled_job now j)"
  by (auto simp: terminal_iff run_ended_def cancelled_job_def finish_def split: exec_end.splits)

lemma same_id [simp]:
  "job_id (run_ended pr e now j) = job_id j" "job_id (cancelled_job now j) = job_id j"
  "job_id (new_job jid prompt timeout now) = jid"
  "created_at (run_ended pr e now j) = created_at j" "created_at (cancelled_job now j) = created_at j"
  by (auto simp: run_ended_def cancelled_job_def finish_def new_job_def split: exec_end.splits)

subsection \<open>Reaping\<close>

definition fresh_jobs :: "rat \<Rightarrow> store \<Rightarrow> (ustring, job) dict" where
  "fresh_jobs now S = filter (\<lambda>(k, j). \<not> expired (retention_sec S) now j) (jobs S)"

definition overflowing :: "rat \<Rightarrow> store \<Rightarrow> job list" where
  "overflowing now S =
     take (nat (int (length (fresh_jobs now S)) - max_kept S))
       (sort_key finish_time (filter is_terminal (map snd (fresh_jobs now S))))"

lemma jobs_reap:
  "jobs (reap now S) = filter (\<lambda>(k, j). k \<notin> job_id ` set (overflowing now S)) (fresh_jobs now S)"
proof -
  have "nat (max 0 x) = nat x" for x by simp
  then show ?thesis by (simp add: reap_def overflowing_def fresh_jobs_def Let_def dict_dels)
qed

lemma reap_fields [simp]:
  "job_tasks (reap now S) = job_tasks S" "max_kept (reap now S) = max_kept S"
  "retention_sec (reap now S) = retention_sec S"
  by (simp_all add: reap_def Let_def)

definition jobs_ok :: "(ustring, job) dict \<Rightarrow> bool" where
  "jobs_ok d \<longleftrightarrow> dict_ok d \<and> (\<forall>(k, j) \<in> set d. job_id j = k \<and> job_ok j)"

lemma jobs_ok_filter: "jobs_ok d \<Longrightarrow> jobs_ok (filter P d)"
  by (auto simp: jobs_ok_def dict_ok_filter)

lemma jobs_ok_id: "jobs_ok d \<Longrightarrow> map_of d k = Some j \<Longrightarrow> job_id j = k \<and> job_ok j"
  by (auto simp: jobs_ok_def dest: map_of_SomeD)

lemma overflowing_mem:
  "j \<in> set (overflowing now S) \<Longrightarrow> is_terminal j \<and> (\<exists>k. (k, j) \<in> set (fresh_jobs now S))"
proof -
  assume "j \<in> set (overflowing now S)"
  from in_set_takeD [OF this [unfolded overflowing_def]] show ?thesis by auto
qed

lemma reap_lookup:
  assumes "jobs_ok (jobs S)"
  shows "map_of (jobs (reap now S)) k =
    (case map_of (jobs S) k of None \<Rightarrow> None
     | Some j \<Rightarrow> if expired (retention_sec S) now j \<or> j \<in> set (overflowing now S) then None else Some j)"
proof -
  have d: "dict_ok (jobs S)" "dict_ok (fresh_jobs now S)" "jobs_ok (fresh_jobs now S)"
    using assms jobs_ok_filter by (auto simp: jobs_ok_def fresh_jobs_def dict_ok_filter)
  have id: "k \<in> job_id ` set (overflowing now S) \<longleftrightarrow> j \<in> set (overflowing now S)"
    if "map_of (fresh_jobs now S) k = Some j" for j
  proof
    assume "k \<in> job_id ` set (overflowing now S)"
    then obtain j' where j': "j' \<in> set (overflowing now S)" "k = job_id j'" by blast
    then obtain k' where "(k', j') \<in> set (fresh_jobs now S)" using overflowing_mem by blast
    with d(2,3) have "map_of (fresh_jobs now S) k = Some j'"
      using j'(2) dict_in_iff jobs_ok_id by (metis)
    with that j'(1) show "j \<in> set (overflowing now S)" by simp
  next
    assume "j \<in> set (overflowing now S)"
    with jobs_ok_id [OF d(3) that] show "k \<in> job_id ` set (overflowing now S)" by auto
  qed
  have fresh: "map_of (fresh_jobs now S) k =
    (case map_of (jobs S) k of None \<Rightarrow> None
     | Some j \<Rightarrow> if \<not> expired (retention_sec S) now j then Some j else None)"
    unfolding fresh_jobs_def by (rule map_of_filter_snd [OF d(1)])
  show ?thesis unfolding jobs_reap
    using map_of_filter_snd [OF d(2), of "\<lambda>k j. k \<notin> job_id ` set (overflowing now S)" k] fresh id
    by (auto split: option.splits if_splits)
qed

lemma reap_keeps_running:
  assumes "jobs_ok (jobs S)" "map_of (jobs S) k = Some j" "\<not> is_terminal j"
  shows "map_of (jobs (reap now S)) k = Some j"
  using assms overflowing_mem [of j now S] by (auto simp: reap_lookup expired_def)

lemma jobs_ok_reap: "jobs_ok (jobs S) \<Longrightarrow> jobs_ok (jobs (reap now S))"
  by (simp add: jobs_reap fresh_jobs_def jobs_ok_filter)

lemma length_filter_mono: "(\<And>x. P x \<Longrightarrow> Q x) \<Longrightarrow> length (filter P xs) \<le> length (filter Q xs)"
  by (induction xs) auto

definition running_count :: "store \<Rightarrow> nat" where
  "running_count S = length (filter (\<lambda>(k, j). \<not> is_terminal j) (jobs S))"

lemma distinct_overflowing:
  assumes "jobs_ok (jobs S)"
  shows "distinct (map job_id (overflowing now S))"
proof -
  let ?F = "fresh_jobs now S"
  have ok: "jobs_ok ?F" using assms by (simp add: fresh_jobs_def jobs_ok_filter)
  then have "map job_id (map snd ?F) = map fst ?F" by (auto simp: jobs_ok_def)
  then have "distinct (map job_id (map snd ?F))" using ok by (simp only: jobs_ok_def)
  then have d: "distinct (map job_id (filter is_terminal (map snd ?F)))" by (rule distinct_map_filter)
  have "mset (map job_id (sort_key finish_time xs)) = mset (map job_id xs)" for xs by simp
  from mset_eq_imp_distinct_iff [OF this] d show ?thesis
    unfolding overflowing_def take_map [symmetric] by (simp add: distinct_take)
qed

lemma length_reap:
  assumes "jobs_ok (jobs S)"
  shows "int (length (jobs (reap now S))) \<le> max (max_kept S) (int (running_count S))"
proof -
  let ?F = "fresh_jobs now S" and ?D = "overflowing now S"
  let ?I = "job_id ` set ?D" and ?m = "nat (int (length (fresh_jobs now S)) - max_kept S)"
  let ?fin = "filter is_terminal (map snd ?F)"
  have okF: "jobs_ok ?F" using assms by (simp add: fresh_jobs_def jobs_ok_filter)
  show ?thesis
  proof (cases "length ?fin \<le> ?m")
    case True
    then have "set ?D = set ?fin" by (simp add: overflowing_def)
    then have "filter (\<lambda>(k, j). k \<notin> ?I) ?F = filter (\<lambda>(k, j). k \<notin> ?I \<and> \<not> is_terminal j) ?F"
    proof (intro filter_cong refl)
      fix x assume x: "x \<in> set ?F"
      obtain k j where kj: "x = (k, j)" by (cases x)
      have "job_id j = k" using okF x kj by (auto simp: jobs_ok_def)
      moreover have "j \<in> set ?D" if "is_terminal j" using that x kj \<open>set ?D = set ?fin\<close> by force
      ultimately show "(case x of (k, j) \<Rightarrow> k \<notin> ?I) = (case x of (k, j) \<Rightarrow> k \<notin> ?I \<and> \<not> is_terminal j)"
        using kj by auto
    qed
    also have "length \<dots> \<le> length (filter (\<lambda>(k, j). \<not> is_terminal j) ?F)"
      by (rule length_filter_mono) auto
    also have "\<dots> \<le> running_count S"
      unfolding running_count_def fresh_jobs_def filter_filter by (rule length_filter_mono) auto
    finally have "length (jobs (reap now S)) \<le> running_count S" by (simp add: jobs_reap)
    then show ?thesis by simp
  next
    case False
    have "?m = length (map job_id ?D)" using False by (simp add: overflowing_def)
    also have "\<dots> = card ?I" using distinct_card [OF distinct_overflowing [OF assms, of now]] by simp
    also have "\<dots> \<le> card (fst ` set (filter (\<lambda>(k, j). k \<in> ?I) ?F))"
    proof (rule card_mono)
      show "?I \<subseteq> fst ` set (filter (\<lambda>(k, j). k \<in> ?I) ?F)"
        using okF overflowing_mem [of _ now S] by (fastforce simp: jobs_ok_def image_iff)
    qed simp
    also have "\<dots> \<le> length (filter (\<lambda>(k, j). k \<in> ?I) ?F)"
      using card_image_le card_length le_trans by blast
    finally have "?m \<le> length (filter (\<lambda>(k, j). k \<in> ?I) ?F)" .
    moreover have "length (filter (\<lambda>(k, j). k \<in> ?I) ?F) + length (jobs (reap now S)) = length ?F"
      unfolding jobs_reap using sum_length_filter_compl [of "\<lambda>(k, j). k \<in> ?I" ?F]
      by (simp add: case_prod_unfold)
    ultimately show ?thesis by linarith
  qed
qed

subsection \<open>The store as a system\<close>

inductive store_step :: "(nat \<Rightarrow> bool) \<Rightarrow> store \<Rightarrow> store \<Rightarrow> bool" for pr where
  submits: "map_of (jobs S) jid = None \<Longrightarrow> map_of (job_tasks S) jid = None \<Longrightarrow>
    store_step pr S (snd (submit prompt timeout jid now S))"
| starts: "map_of (job_tasks S) jid = Some (TaskNew prompt) \<Longrightarrow> store_step pr S (task_started jid S)"
| ends: "map_of (job_tasks S) jid = Some TaskRunning \<Longrightarrow> fair_end e \<Longrightarrow>
    store_step pr S (task_ended pr jid e now S)"
| goes: "map_of (job_tasks S) jid = Some TaskDone \<Longrightarrow> store_step pr S (task_gone jid S)"
| lists: "store_step pr S (snd (list_jobs now S))"
| cancels: "fair_end e \<Longrightarrow> store_step pr S (snd (cancel_job pr jid e now S))"
| shuts: "(\<And>k. fair_end (e k)) \<Longrightarrow> store_step pr S (shutdown_jobs pr e now S)"

definition store_ok :: "store \<Rightarrow> bool" where
  "store_ok S \<longleftrightarrow>
     jobs_ok (jobs S) \<and>
     (\<forall>k t. map_of (job_tasks S) k = Some t \<longrightarrow> t \<noteq> TaskDone \<longrightarrow>
        (\<exists>j. map_of (jobs S) k = Some j \<and> job_status j = RUNNING))"

definition store_init :: "pyfloat \<Rightarrow> int \<Rightarrow> store \<Rightarrow> bool" where
  "store_init retention kept S \<longleftrightarrow> S = new_store retention kept"

lemma jobs_ok_change:
  assumes "jobs_ok d" "\<And>j. map_of d k = Some j \<Longrightarrow> job_id (f j) = job_id j \<and> job_ok (f j)"
  shows "jobs_ok (AList.map_entry k f d)"
proof -
  have ok: "dict_ok (AList.map_entry k f d)" using assms(1) by (simp add: jobs_ok_def)
  have "job_id j = k' \<and> job_ok j" if "(k', j) \<in> set (AList.map_entry k f d)" for k' j
  proof -
    have "map_of (AList.map_entry k f d) k' = Some j" using that ok by (simp only: dict_in_iff)
    then show ?thesis using assms jobs_ok_id [OF assms(1)] by (auto split: if_splits)
  qed
  with ok show ?thesis by (auto simp: jobs_ok_def)
qed

lemma jobs_ok_update:
  assumes "jobs_ok d" "job_id j = k" "job_ok j"
  shows "jobs_ok (AList.update k j d)"
proof -
  have ok: "dict_ok (AList.update k j d)" using assms(1) by (simp add: jobs_ok_def dict.ok_put)
  have "job_id j' = k' \<and> job_ok j'" if "(k', j') \<in> set (AList.update k j d)" for k' j'
  proof -
    have "map_of (AList.update k j d) k' = Some j'" using that ok by (simp only: dict_in_iff)
    then show ?thesis using assms jobs_ok_id [OF assms(1)]
      by (auto simp: dict.get_put split: if_splits)
  qed
  with ok show ?thesis by (auto simp: jobs_ok_def)
qed

lemma put_task_simps [simp]:
  "jobs (put_task k t S) = jobs S" "map_of (job_tasks (put_task k t S)) k' = (if k' = k then Some t else map_of (job_tasks S) k')"
  "max_kept (put_task k t S) = max_kept S" "retention_sec (put_task k t S) = retention_sec S"
  by (simp_all add: put_task_def dict.get_put)

lemma change_job_simps [simp]:
  "jobs (change_job k f S) = AList.map_entry k f (jobs S)" "job_tasks (change_job k f S) = job_tasks S"
  "max_kept (change_job k f S) = max_kept S" "retention_sec (change_job k f S) = retention_sec S"
  by (simp_all add: change_job_def)

lemma store_ok_ended: "store_ok S \<Longrightarrow> fair_end e \<Longrightarrow> store_ok (task_ended pr k e now S)"
  by (auto simp: store_ok_def task_ended_def job_ok_ended intro!: jobs_ok_change)

lemma store_ok_cancel_task:
  assumes "store_ok S" "fair_end e"
  shows "store_ok (cancel_task pr k e now S)"
  using assms store_ok_ended [OF assms]
  by (auto simp: cancel_task_def split: option.splits job_task.splits) (auto simp: store_ok_def)

lemma store_ok_shutdown:
  assumes "store_ok S" "\<And>k. fair_end (e k)"
  shows "store_ok (shutdown_jobs pr e now S)"
proof -
  have "store_ok (fold (\<lambda>k. cancel_task pr k (e k) (now k)) ks S)" for ks
    using assms by (induction ks arbitrary: S) (simp_all add: store_ok_cancel_task)
  then show ?thesis by (simp add: shutdown_jobs_def)
qed

lemma store_ok_reap: "store_ok S \<Longrightarrow> store_ok (reap now S)"
  unfolding store_ok_def using jobs_ok_reap reap_keeps_running terminal_iff by (metis reap_fields(1))

lemma store_ok_submit:
  assumes "store_ok S"
  shows "store_ok (snd (submit prompt timeout jid now S))"
proof -
  have "job_status (new_job jid prompt timeout now) = RUNNING" by (simp add: new_job_def)
  then show ?thesis using store_ok_reap [OF assms, of now]
    by (auto simp: submit_def Let_def store_ok_def jobs_ok_update dict.get_put)
qed

lemma store_ok_gone:
  assumes "store_ok S"
  shows "store_ok (task_gone k S)"
  using assms by (auto simp: store_ok_def task_gone_def dict.get_del)

lemma store_ok_cancel:
  assumes "store_ok S" "fair_end e"
  shows "store_ok (snd (cancel_job pr k e now S))"
proof -
  have "store_ok (change_job k (cancelled_job now) S)"
    if "map_of (job_tasks S) k = None \<or> map_of (job_tasks S) k = Some TaskDone"
    using assms(1) that by (auto simp: store_ok_def intro!: jobs_ok_change)
  then show ?thesis using assms store_ok_cancel_task [OF assms]
    by (auto simp: cancel_job_def Let_def split: option.splits job_task.splits)
qed

lemma store_ok_step: "store_step pr S S' \<Longrightarrow> store_ok S \<Longrightarrow> store_ok S'"
proof (induction rule: store_step.induct)
  case (starts S k prompt)
  then show ?case by (auto simp: store_ok_def task_started_def)
next
  case (lists S now)
  then show ?case by (simp add: list_jobs_def Let_def store_ok_reap)
qed (simp_all add: store_ok_submit store_ok_ended store_ok_gone store_ok_cancel store_ok_shutdown)

lemma store_ok_init: "store_init retention kept S \<Longrightarrow> store_ok S"
  by (simp add: store_init_def new_store_def store_ok_def jobs_ok_def)

interpretation job_store: invariant_of "store_init retention kept" "store_step pr" store_ok
  using store_ok_init store_ok_step by unfold_locales

abbreviation store_reach :: "(nat \<Rightarrow> bool) \<Rightarrow> pyfloat \<Rightarrow> int \<Rightarrow> store \<Rightarrow> bool" where
  "store_reach pr retention kept \<equiv> reach (store_init retention kept) (store_step pr)"

subsection \<open>What a step does to one job\<close>

text \<open>A job's fate in a step: it stays, a terminal one may be dropped, a running one may end.\<close>

definition fate :: "job \<Rightarrow> job option \<Rightarrow> bool" where
  "fate j after =
     (case after of None \<Rightarrow> is_terminal j
      | Some j' \<Rightarrow> j' = j \<or> (\<not> is_terminal j \<and> is_terminal j'))"

lemma fate_refl [simp]: "fate j (Some j)"
  by (simp add: fate_def)

lemma busy_running:
  "store_ok S \<Longrightarrow> map_of (job_tasks S) k = Some TaskRunning \<Longrightarrow> map_of (jobs S) k = Some j \<Longrightarrow>
     \<not> is_terminal j"
  by (force simp: store_ok_def terminal_iff)

lemma fate_cancel_task:
  assumes "store_ok S" "map_of (jobs S) k = Some j"
  shows "fate j (map_of (jobs (cancel_task pr k' e now S)) k)"
  using assms busy_running [OF assms(1), of k j]
  by (auto simp: cancel_task_def task_ended_def fate_def split: option.splits job_task.splits)

lemma fate_trans: "fate j (Some j') \<Longrightarrow> fate j' (Some j'') \<Longrightarrow> fate j (Some j'')"
  by (auto simp: fate_def)

lemma fate_shutdown:
  assumes "store_ok S" "\<And>k. fair_end (e k)" "map_of (jobs S) k = Some j"
  shows "\<exists>j'. map_of (jobs (fold (\<lambda>k. cancel_task pr k (e k) (now k)) ks S)) k = Some j' \<and> fate j (Some j')"
  using assms
proof (induction ks arbitrary: S j)
  case (Cons k' ks)
  have "\<exists>j'. map_of (jobs (cancel_task pr k' (e k') (now k') S)) k = Some j'"
    using Cons.prems(3) by (auto simp: cancel_task_def task_ended_def split: option.splits job_task.splits)
  then obtain j' where j': "map_of (jobs (cancel_task pr k' (e k') (now k') S)) k = Some j'" ..
  with fate_cancel_task [OF Cons.prems(1,3), of pr k' "e k'" "now k'"] have "fate j (Some j')" by simp
  from Cons.IH [OF store_ok_cancel_task [OF Cons.prems(1,2)] Cons.prems(2) j'] obtain j'' where
    "map_of (jobs (fold (\<lambda>k. cancel_task pr k (e k) (now k)) (k' # ks) S)) k = Some j''" "fate j' (Some j'')"
    by auto
  with fate_trans [OF \<open>fate j (Some j')\<close>] show ?case by blast
qed auto

lemma fate_reap: "store_ok S \<Longrightarrow> map_of (jobs S) k = Some j \<Longrightarrow> fate j (map_of (jobs (reap now S)) k)"
  using overflowing_mem by (auto simp: store_ok_def reap_lookup fate_def expired_def)

lemma fate_step:
  assumes "store_step pr S S'" "store_ok S" "map_of (jobs S) k = Some j"
  shows "fate j (map_of (jobs S') k)"
  using assms
proof (induction rule: store_step.induct)
  case (submits S k' prompt timeout now)
  then show ?case using fate_reap [of S k j now]
    by (auto simp: submit_def Let_def dict.get_put)
next
  case (ends S k' e now)
  then show ?case using busy_running [of S k j] by (auto simp: task_ended_def fate_def)
next
  case (lists S now)
  then show ?case by (simp add: list_jobs_def Let_def fate_reap)
next
  case (cancels e S k' now)
  have "fate j (map_of (jobs (change_job k' (cancelled_job now) S)) k)"
    if "k' = k \<Longrightarrow> \<not> is_terminal j" using cancels that by (auto simp: fate_def)
  with cancels fate_cancel_task [of S k j pr k' e now] show ?case
    by (auto simp: cancel_job_def Let_def split: option.splits job_task.splits)
next
  case (shuts e S now)
  then show ?case using fate_shutdown [of S e k j pr now "map fst (job_tasks S)"]
    by (auto simp: shutdown_jobs_def)
qed (simp_all add: task_started_def task_gone_def)

text \<open>After a shutdown no task of the store is left to run.\<close>

lemma cancel_task_ends:
  "map_of (job_tasks (cancel_task ok k e now S)) k \<in> {None, Some TaskDone}"
  "k' \<noteq> k \<Longrightarrow> map_of (job_tasks (cancel_task ok k e now S)) k' = map_of (job_tasks S) k'"
  by (auto simp: cancel_task_def task_ended_def split: option.splits job_task.splits)

lemma cancel_tasks_end:
  "map_of (job_tasks (fold (\<lambda>k. cancel_task ok k (e k) (now k)) ks S)) k \<in>
     (if k \<in> set ks then {None, Some TaskDone} else {map_of (job_tasks S) k})"
proof (induction ks rule: rev_induct)
  case (snoc k' ks)
  then show ?case using cancel_task_ends [where k = k' and S = "fold (\<lambda>k. cancel_task ok k (e k) (now k)) ks S"]
    by (cases "k = k'") (auto split: if_splits)
qed simp

lemma shutdown_ends_tasks:
  "map_of (job_tasks (shutdown_jobs ok e now S)) k \<in> {None, Some TaskDone}"
proof (cases "k \<in> set (map fst (job_tasks S))")
  case True
  with cancel_tasks_end [of ok e now "map fst (job_tasks S)" S k] show ?thesis
    unfolding shutdown_jobs_def by simp
next
  case False
  then have "map_of (job_tasks S) k = None" by (simp add: map_of_eq_None_iff)
  with False cancel_tasks_end [of ok e now "map fst (job_tasks S)" S k] show ?thesis
    unfolding shutdown_jobs_def by simp
qed

subsection \<open>A small run\<close>

definition asked :: "ustring \<Rightarrow> rat \<Rightarrow> job" where
  "asked k now = new_job k (us ''PONG'') (Finite 120) now"

definition store_now :: "(ustring, job) dict \<Rightarrow> (ustring, job_task) dict \<Rightarrow> store" where
  "store_now js ts = \<lparr>retention_sec = Finite 600, max_kept = 1, jobs = js, job_tasks = ts\<rparr>"

abbreviation one_job_reach :: "store \<Rightarrow> bool" where
  "one_job_reach \<equiv> store_reach (\<lambda>_. True) (Finite 600) 1"

lemma cancelled_fair: "fair_end Cancelled"
proof -
  have "Cancelled = fst (execute AcquireCancelled RunCancelled False (new_pool (default_config []) None 0))"
    by simp
  then show ?thesis unfolding fair_end_def by blast
qed

lemma run_submitted:
  "one_job_reach (store_now [(us ''a'', asked (us ''a'') 0)] [(us ''a'', TaskNew (us ''PONG''))])"
proof -
  have "one_job_reach (new_store (Finite 600) 1)" by (rule reach_init) (simp add: store_init_def)
  then have "one_job_reach (snd (submit (us ''PONG'') (Finite 120) (us ''a'') 0 (new_store (Finite 600) 1)))"
    by (rule reach_step) (rule submits; simp add: new_store_def)
  then show ?thesis by (simp add: submit_def Let_def new_store_def reap_def asked_def store_now_def)
qed

lemma run_started: "one_job_reach (store_now [(us ''a'', asked (us ''a'') 0)] [(us ''a'', TaskRunning)])"
  using reach_step [OF run_submitted starts [of _ "us ''a''" "us ''PONG''"]]
  by (simp add: store_now_def task_started_def put_task_def)

lemma run_cancelled_done:
  "one_job_reach (store_now [(us ''a'', cancelled_job 1 (asked (us ''a'') 0))] [(us ''a'', TaskDone)])"
  using reach_step [OF run_started ends [of _ "us ''a''" Cancelled _ 1, OF _ cancelled_fair]]
  by (simp add: store_now_def task_ended_def put_task_def change_job_def run_ended_def)

lemma two_finished:
  "one_job_reach (store_now [(us ''a'', cancelled_job 1 (asked (us ''a'') 0)),
     (us ''b'', cancelled_job 3 (asked (us ''b'') 2))] [(us ''a'', TaskDone), (us ''b'', TaskDone)])"
proof -
  let ?a = "(us ''a'', cancelled_job 1 (asked (us ''a'') 0))"
  have "one_job_reach (snd (submit (us ''PONG'') (Finite 120) (us ''b'') 2 (store_now [?a] [(us ''a'', TaskDone)])))"
    by (rule reach_step [OF run_cancelled_done], rule submits) (simp_all add: store_now_def)
  moreover have "fresh_jobs 2 (store_now [?a] [(us ''a'', TaskDone)]) = [?a]"
    by (simp add: fresh_jobs_def store_now_def expired_def cancelled_job_def finish_def)
  ultimately have
    "one_job_reach (store_now [?a, (us ''b'', asked (us ''b'') 2)] [(us ''a'', TaskDone), (us ''b'', TaskNew (us ''PONG''))])"
    by (simp add: submit_def Let_def reap_def fresh_jobs_def store_now_def asked_def)
  from reach_step [OF this starts [of _ "us ''b''" "us ''PONG''"]]
  have "one_job_reach (store_now [?a, (us ''b'', asked (us ''b'') 2)] [(us ''a'', TaskDone), (us ''b'', TaskRunning)])"
    by (simp add: store_now_def task_started_def put_task_def)
  from reach_step [OF this ends [of _ "us ''b''" Cancelled _ 3, OF _ cancelled_fair]] show ?thesis
    by (simp add: store_now_def task_ended_def put_task_def change_job_def run_ended_def)
qed

definition unavailable_end :: exec_end where
  "unavailable_end = Returned (failed_outcome (jstr ''busy'') pool_unavailable (JInt 0))"

lemma unavailable_fair: "fair_end unavailable_end"
proof -
  have "unavailable_end =
      fst (execute (NoWorker (us ''busy'')) RunCancelled False (new_pool (default_config []) None 0))"
    by (simp add: unavailable_end_def Let_def)
  then show ?thesis unfolding fair_end_def by blast
qed

lemma run_failed:
  "one_job_reach (store_now [(us ''a'', run_ended (\<lambda>_. True) unavailable_end 1 (asked (us ''a'') 0))] [(us ''a'', TaskDone)])"
  using reach_step [OF run_started ends [of _ "us ''a''" unavailable_end _ 1, OF _ unavailable_fair]]
  by (simp add: store_now_def task_ended_def put_task_def change_job_def)

section \<open>Properties\<close>

text \<open>A finished job is final: no submit, listing, cancellation, shutdown or other job's end changes
  it; it stays as it is until it is dropped.\<close>

theorem finished_job_final:
  assumes "store_reach pr retention kept S" "store_step pr S S'"
    and "map_of (jobs S) k = Some j" "is_terminal j" "map_of (jobs S') k = Some j'"
  shows "j' = j"
  using fate_step [OF assms(2) job_store.inv_reach [OF assms(1)] assms(3)] assms(4,5)
  by (auto simp: fate_def)

theorem finished_job_final_witness:
  "map_of (jobs (snd (list_jobs 5 (store_now [(us ''a'', cancelled_job 1 (asked (us ''a'') 0))] []))))
     (us ''a'') \<in> {None, Some (cancelled_job 1 (asked (us ''a'') 0))}"
proof -
  let ?S = "store_now [(us ''a'', cancelled_job 1 (asked (us ''a'') 0))] []"
  have r: "one_job_reach ?S"
    using reach_step [OF run_cancelled_done goes [of _ "us ''a''"]] by (simp add: store_now_def task_gone_def)
  have m: "map_of (jobs ?S) (us ''a'') = Some (cancelled_job 1 (asked (us ''a'') 0))"
    by (simp add: store_now_def)
  from finished_job_final [OF r lists [of _ ?S 5] m] show ?thesis
    by (cases "map_of (jobs (snd (list_jobs 5 ?S))) (us ''a'')") auto
qed

text \<open>A running job is never dropped: whatever the store does, its result still has somewhere to
  land, and the only change it can undergo is to finish.\<close>

theorem running_job_kept:
  assumes "store_reach pr retention kept S" "store_step pr S S'"
    and "map_of (jobs S) k = Some j" "\<not> is_terminal j"
  shows "\<exists>j'. map_of (jobs S') k = Some j' \<and> (j' = j \<or> is_terminal j')"
  using fate_step [OF assms(2) job_store.inv_reach [OF assms(1)] assms(3)] assms(4)
  by (auto simp: fate_def split: option.splits)

theorem running_job_kept_witness:
  "\<exists>j'. map_of (jobs (snd (list_jobs 5 (store_now [(us ''a'', asked (us ''a'') 0)] [(us ''a'', TaskRunning)]))))
     (us ''a'') = Some j'"
proof -
  let ?S = "store_now [(us ''a'', asked (us ''a'') 0)] [(us ''a'', TaskRunning)]"
  have "map_of (jobs ?S) (us ''a'') = Some (asked (us ''a'') 0)" by (simp add: store_now_def)
  moreover have "\<not> is_terminal (asked (us ''a'') 0)" by (simp add: asked_def terminal_iff new_job_def)
  ultimately show ?thesis using running_job_kept [OF run_started lists [of _ ?S 5]] by blast
qed

text \<open>C19.
  The store is bounded: after a submit it holds at most one job more than the larger of
  \<open>max_jobs\<close> and the number of running ones.\<close>

theorem store_bounded:
  assumes "store_reach pr retention kept S" "map_of (jobs S) jid = None"
  shows "int (length (jobs (snd (submit prompt timeout jid now S))))
    \<le> max (max_kept S) (int (running_count S)) + 1"
proof -
  have "jobs_ok (jobs S)" using job_store.inv_reach [OF assms(1)] by (simp add: store_ok_def)
  moreover have "length (AList.update jid j d) \<le> length d + 1" for j and d :: "(ustring, job) dict"
    by (induction d) auto
  moreover note length_reap [of S now]
  ultimately have "int (length (AList.update jid (new_job jid prompt timeout now) (jobs (reap now S))))
    \<le> int (length (jobs (reap now S))) + 1"
    and "int (length (jobs (reap now S))) \<le> max (max_kept S) (int (running_count S))"
    by (metis of_nat_1 of_nat_add of_nat_le_iff, blast)
  then have "int (length (AList.update jid (new_job jid prompt timeout now) (jobs (reap now S))))
    \<le> max (max_kept S) (int (running_count S)) + 1" by linarith
  then show ?thesis by (simp add: submit_def Let_def)
qed

theorem store_bounded_witness:
  "int (length (jobs (snd (submit (us ''b'') (Finite 1) (us ''b'') 2
     (store_now [(us ''a'', cancelled_job 1 (asked (us ''a'') 0))] [(us ''a'', TaskDone)]))))) \<le> 2"
proof -
  let ?S = "store_now [(us ''a'', cancelled_job 1 (asked (us ''a'') 0))] [(us ''a'', TaskDone)]"
  have "map_of (jobs ?S) (us ''b'') = None" "running_count ?S = 0" "max_kept ?S = 1"
    by (simp_all add: store_now_def running_count_def)
  with store_bounded [OF run_cancelled_done, of "us ''b''" "us ''b''" "Finite 1" 2] show ?thesis by simp
qed

text \<open>C20.
  Reaping is oldest first and only on overflow: a finished job that is within its retention time
  goes only if the store holds more than \<open>max_jobs\<close>, and then every finished job that stays
  finished no earlier.\<close>

theorem reap_oldest_first:
  assumes "store_reach pr retention kept S"
    and "map_of (jobs S) k = Some j" "map_of (jobs (reap now S)) k = None"
    and "\<not> expired (retention_sec S) now j"
  shows "max_kept S < int (length (jobs S)) \<and> is_terminal j \<and>
    (\<forall>(k', j') \<in> set (jobs (reap now S)). is_terminal j' \<longrightarrow> finish_time j \<le> finish_time j')"
proof -
  let ?xs = "sort_key finish_time (filter is_terminal (map snd (fresh_jobs now S)))"
  let ?m = "nat (int (length (fresh_jobs now S)) - max_kept S)"
  have ok: "jobs_ok (jobs S)" using job_store.inv_reach [OF assms(1)] by (simp add: store_ok_def)
  have j: "j \<in> set (overflowing now S)"
    using reap_lookup [OF ok, of now k] assms(2-4) by (auto split: if_splits)
  have "?m > 0" using j by (cases "?m") (auto simp: overflowing_def)
  moreover have "length (fresh_jobs now S) \<le> length (jobs S)" by (simp add: fresh_jobs_def)
  ultimately have "max_kept S < int (length (jobs S))" by linarith
  moreover have "is_terminal j" using overflowing_mem [OF j] by blast
  moreover have "finish_time j \<le> finish_time j'"
    if "(k', j') \<in> set (jobs (reap now S))" "is_terminal j'" for k' j'
  proof -
    have fresh: "(k', j') \<in> set (fresh_jobs now S)" and "k' \<notin> job_id ` set (overflowing now S)"
      using that(1) by (auto simp: jobs_reap)
    moreover have "job_id j' = k'" using fresh ok by (auto simp: fresh_jobs_def jobs_ok_def)
    ultimately have "j' \<notin> set (take ?m ?xs)" by (auto simp: overflowing_def)
    moreover have "j' \<in> set ?xs" using fresh that(2) by force
    moreover have "set ?xs = set (take ?m ?xs) \<union> set (drop ?m ?xs)"
      by (metis append_take_drop_id set_append)
    ultimately have d: "j' \<in> set (drop ?m ?xs)" by blast
    have "sorted (map finish_time (take ?m ?xs @ drop ?m ?xs))" by simp
    then have "\<forall>a \<in> set (take ?m ?xs). \<forall>b \<in> set (drop ?m ?xs). finish_time a \<le> finish_time b"
      unfolding map_append sorted_append by simp
    with d j show ?thesis by (simp add: overflowing_def)
  qed
  ultimately show ?thesis by blast
qed

theorem reap_oldest_first_witness:
  "finish_time (cancelled_job 1 (asked (us ''a'') 0)) \<le> finish_time (cancelled_job 3 (asked (us ''b'') 2))"
proof -
  let ?a = "cancelled_job 1 (asked (us ''a'') 0)" and ?b = "cancelled_job 3 (asked (us ''b'') 2)"
  let ?S = "store_now [(us ''a'', ?a), (us ''b'', ?b)] [(us ''a'', TaskDone), (us ''b'', TaskDone)]"
  have t: "is_terminal ?a" "is_terminal ?b" "finish_time ?a = 1" "finish_time ?b = 3" "job_id ?a = us ''a''"
    by (simp_all add: finish_time_def cancelled_job_def finish_def asked_def new_job_def
        is_terminal_def TERMINAL_STATUSES_def)
  have e: "\<not> expired (Finite 600) 4 ?a" "\<not> expired (Finite 600) 4 ?b"
    by (simp_all add: expired_def cancelled_job_def finish_def)
  have r: "jobs (reap 4 ?S) = [(us ''b'', ?b)]"
    using e t by (simp add: reap_def store_now_def)
  have "map_of (jobs ?S) (us ''a'') = Some ?a" "map_of (jobs (reap 4 ?S)) (us ''a'') = None"
    "\<not> expired (retention_sec ?S) 4 ?a"
    using e by (simp_all add: r) (simp_all add: store_now_def)
  from reap_oldest_first [OF two_finished this] t show ?thesis by (simp add: r)
qed

text \<open>A listing is newest first and complete: it holds exactly the jobs the store keeps, in
  descending order of creation.\<close>

theorem listing_newest_first:
  "sorted_wrt (\<lambda>a b. created_at a \<ge> created_at b) (fst (list_jobs now S))
    \<and> mset (fst (list_jobs now S)) = mset (map snd (jobs (snd (list_jobs now S))))
    \<and> snd (list_jobs now S) = reap now S"
proof -
  have "sorted (map created_at (sort_key created_at xs))" for xs by simp
  then have "sorted_wrt (\<lambda>a b. created_at a \<ge> created_at b) (rev (sort_key created_at xs))" for xs
    unfolding sorted_wrt_rev by (simp add: sorted_map)
  then show ?thesis by (simp add: list_jobs_def Let_def)
qed

text \<open>C21.
  A failed job always tells its caller what to do: its dictionary carries one of the documented
  kinds with that kind's \<open>retryable\<close>, and a \<open>retry_after_sec\<close> exactly for a rate limit.\<close>

theorem failed_job_classified:
  assumes "store_reach pr retention kept S" "map_of (jobs S) k = Some j" "job_status j = FAILED"
  shows "\<exists>f. known_failure f \<and> map_of (to_dict j) (us ''kind'') = Some (JStr (kind f))
    \<and> map_of (to_dict j) (us ''retryable'') = Some (JBool (retryable f))
    \<and> map_of (to_dict j) (us ''retry_after_sec'') =
        (if kind f = us ''rate_limited'' then Some (JInt 60) else None)"
proof -
  have "job_ok j" using job_store.inv_reach [OF assms(1)] assms(2) jobs_ok_id
    unfolding store_ok_def by blast
  then obtain f where f: "job_failure j = Some f" "known_failure f"
    using assms(3) by (auto simp: job_ok_def)
  moreover have "retry_after_sec f = (if kind f = us ''rate_limited'' then Some 60 else None)"
    using f(2) by (auto simp: known_failure_def)
  ultimately show ?thesis using assms(3) by (intro exI [of _ f]) (auto simp: to_dict_def)
qed

theorem failed_job_classified_witness:
  "\<exists>f. known_failure f \<and>
     map_of (to_dict (run_ended (\<lambda>_. True) unavailable_end 1 (asked (us ''a'') 0))) (us ''kind'') = Some (JStr (kind f))"
proof -
  let ?j = "run_ended (\<lambda>_. True) unavailable_end 1 (asked (us ''a'') 0)"
  have "job_status ?j = FAILED"
    by (simp add: run_ended_def unavailable_end_def failed_outcome_def finish_def)
  with failed_job_classified [OF run_failed, of "us ''a''" ?j] show ?thesis
    by (auto simp: store_now_def)
qed

text \<open>C22.
  Cancelling answers with the job as it is then, on every branch: a job whose task is running ends as
  its run ends, which finishes it; one without a task is marked cancelled, or left as it is if it was finished
  already, and is not forgotten; one whose task has not started yet stays as it was, running. No
  other job changes.\<close>

theorem cancel_answers:
  assumes "store_reach pr retention kept S" "map_of (jobs S) k = Some j"
  shows "\<exists>j'. fst (cancel_job pr k e now S) = Some j'
    \<and> jobs (snd (cancel_job pr k e now S)) = AList.map_entry k (\<lambda>_. j') (jobs S)
    \<and> (case map_of (job_tasks S) k of
         Some (TaskNew prompt) \<Rightarrow> j' = j \<and> \<not> is_terminal j'
       | Some TaskRunning \<Rightarrow> j' = run_ended pr e now j \<and> \<not> is_terminal j \<and> is_terminal j'
       | _ \<Rightarrow> j' = (if is_terminal j then j else cancelled_job now j) \<and> is_terminal j')"
proof -
  have ok: "store_ok S" using job_store.inv_reach [OF assms(1)] .
  have same: "AList.map_entry k f d = AList.map_entry k (\<lambda>_. f j) d" if "map_of d k = Some j" for f and d :: "(ustring, job) dict"
    using that by (induction d) auto
  have id: "AList.map_entry k (\<lambda>_. j) d = d" if "map_of d k = Some j" for d :: "(ustring, job) dict"
    using that by (induction d) auto
  show ?thesis
  proof (cases "map_of (job_tasks S) k")
    case None
    with assms(2) same [OF assms(2), of "cancelled_job now"] id [OF assms(2)] show ?thesis
      by (auto simp: cancel_job_def)
  next
    case (Some t)
    have "\<not> is_terminal j" if "t \<noteq> TaskDone"
      using ok Some that assms(2) by (force simp: store_ok_def terminal_iff)
    with Some assms(2) same [OF assms(2), of "cancelled_job now"] same [OF assms(2), of "run_ended pr e now"]
      id [OF assms(2)] show ?thesis
      by (cases t) (auto simp: cancel_job_def cancel_task_def task_ended_def)
  qed
qed

theorem cancel_answers_witness:
  "\<exists>j'. fst (cancel_job (\<lambda>_. True) (us ''a'') Cancelled 7
     (store_now [(us ''a'', asked (us ''a'') 0)] [(us ''a'', TaskRunning)])) = Some j' \<and> is_terminal j'"
  using cancel_answers [OF run_started, of "us ''a''" "asked (us ''a'') 0" Cancelled 7]
  by (auto simp: store_now_def)







end
