(* ===== verification/JobSystem.thy ===== *)
theory JobSystem
  imports JobsProps
begin

text \<open>
  The job store among its tasks and callers. \<open>Jobs\<close> has each operation as one function; here \<open>cancel\<close>
  and \<open>shutdown\<close>, which suspend until the tasks they cancelled have ended, are split at that wait, and
  everything else may happen in between. The \<open>Job\<close> objects are shared: the dictionary, the task and a
  waiting \<open>cancel\<close> hold the same one, and the dictionary may let go of it first. \<open>objects\<close> is the
  heap they live in.
\<close>

subsection \<open>The state\<close>

definition pending :: "store \<Rightarrow> ustring \<Rightarrow> bool" where
  "pending S k =
     (case map_of (job_tasks S) k of
        Some (TaskNew prompt) \<Rightarrow> True | Some TaskRunning \<Rightarrow> True | _ \<Rightarrow> False)"

text \<open>
  \<open>doomed\<close> are the tasks \<open>cancel()\<close> was called on and that have not ended, \<open>answering\<close> the suspended
  \<open>cancel\<close> calls, \<open>answered\<close> the ones that have returned a job, \<open>shutting\<close> the tasks a suspended
  \<open>shutdown\<close> waits for.
\<close>

record job_sys =
  js :: store
  objects :: "ustring \<Rightarrow> job option"
  doomed :: "ustring set"
  answering :: "ustring multiset"
  answered :: "ustring multiset"
  shutting :: "ustring set option"

text \<open>Ids are never issued twice: they are 12 random bytes.\<close>

inductive job_step :: "(nat \<Rightarrow> bool) \<Rightarrow> job_sys \<Rightarrow> job_sys \<Rightarrow> bool" for pr where
  submitted: "objects s k = None \<Longrightarrow> submit prompt timeout k now (js s) = (j, S) \<Longrightarrow>
    job_step pr s (s\<lparr>js := S, objects := (objects s)(k \<mapsto> j)\<rparr>)"
| started: "map_of (job_tasks (js s)) k = Some (TaskNew prompt) \<Longrightarrow> k \<notin> doomed s \<Longrightarrow>
    job_step pr s (s\<lparr>js := task_started k (js s)\<rparr>)"
| dropped: "map_of (job_tasks (js s)) k = Some (TaskNew prompt) \<Longrightarrow> k \<in> doomed s \<Longrightarrow>
    job_step pr s (s\<lparr>js := put_task k TaskDone (js s), doomed := doomed s - {k}\<rparr>)"
| ended: "map_of (job_tasks (js s)) k = Some TaskRunning \<Longrightarrow> objects s k = Some j \<Longrightarrow> fair_end e \<Longrightarrow>
    job_step pr s (s\<lparr>js := task_ended pr k e now (js s),
      objects := (objects s)(k \<mapsto> run_ended pr e now j), doomed := doomed s - {k}\<rparr>)"
| gone: "map_of (job_tasks (js s)) k = Some TaskDone \<Longrightarrow> job_step pr s (s\<lparr>js := task_gone k (js s)\<rparr>)"
| listed: "job_step pr s (s\<lparr>js := snd (list_jobs now (js s))\<rparr>)"
| cancel_waits: "map_of (jobs (js s)) k = Some j \<Longrightarrow> pending (js s) k \<Longrightarrow>
    job_step pr s (s\<lparr>doomed := insert k (doomed s), answering := add_mset k (answering s)\<rparr>)"
| cancel_finishes: "map_of (jobs (js s)) k = Some j \<Longrightarrow> \<not> pending (js s) k \<Longrightarrow> \<not> is_terminal j \<Longrightarrow>
    job_step pr s (s\<lparr>js := change_job k (cancelled_job now) (js s),
      objects := (objects s)(k \<mapsto> cancelled_job now j), answered := add_mset k (answered s)\<rparr>)"
| cancel_finished: "map_of (jobs (js s)) k = Some j \<Longrightarrow> \<not> pending (js s) k \<Longrightarrow> is_terminal j \<Longrightarrow>
    job_step pr s (s\<lparr>answered := add_mset k (answered s)\<rparr>)"
| cancel_returns: "answering s = add_mset k A \<Longrightarrow> \<not> pending (js s) k \<Longrightarrow>
    job_step pr s (s\<lparr>answering := A, answered := add_mset k (answered s)\<rparr>)"
| cancel_abandoned: "answering s = add_mset k A \<Longrightarrow> job_step pr s (s\<lparr>answering := A\<rparr>)"
| shutdown_waits: "shutting s = None \<Longrightarrow>
    job_step pr s (s\<lparr>doomed := doomed s \<union> Collect (pending (js s)),
      shutting := Some (Collect (pending (js s)))\<rparr>)"
| shutdown_returns: "shutting s = Some K \<Longrightarrow> \<forall>k \<in> K. \<not> pending (js s) k \<Longrightarrow>
    job_step pr s (s\<lparr>shutting := None\<rparr>)"

definition job_boot :: "pyfloat \<Rightarrow> int \<Rightarrow> job_sys \<Rightarrow> bool" where
  "job_boot retention kept s \<longleftrightarrow>
     s = \<lparr>js = new_store retention kept, objects = Map.empty, doomed = {}, answering = {#}, answered = {#}, shutting = None\<rparr>"

abbreviation job_reach :: "(nat \<Rightarrow> bool) \<Rightarrow> pyfloat \<Rightarrow> int \<Rightarrow> job_sys \<Rightarrow> bool" where
  "job_reach pr retention kept \<equiv> reach (job_boot retention kept) (job_step pr)"

subsection \<open>The invariant\<close>

text \<open>
  The dictionary and the heap agree; an object that is not finished is in the dictionary; a task has
  its object; whoever waits for a task has cancelled it; a task \<open>cancel\<close> has answered for is over.
\<close>

definition job_sys_ok :: "job_sys \<Rightarrow> bool" where
  "job_sys_ok s \<longleftrightarrow>
     store_ok (js s) \<and>
     (\<forall>k j. map_of (jobs (js s)) k = Some j \<longrightarrow> objects s k = Some j) \<and>
     (\<forall>k j. objects s k = Some j \<longrightarrow> is_terminal j \<or> map_of (jobs (js s)) k = Some j) \<and>
     (\<forall>k. map_of (job_tasks (js s)) k \<noteq> None \<longrightarrow> objects s k \<noteq> None) \<and>
     (\<forall>k \<in> doomed s. pending (js s) k) \<and>
     (\<forall>k \<in># answering s. objects s k \<noteq> None \<and> (pending (js s) k \<longrightarrow> k \<in> doomed s)) \<and>
     (\<forall>k \<in># answered s. objects s k \<noteq> None \<and> \<not> pending (js s) k) \<and>
     (\<forall>K k. shutting s = Some K \<longrightarrow> k \<in> K \<longrightarrow> objects s k \<noteq> None \<and> (pending (js s) k \<longrightarrow> k \<in> doomed s))"

lemma pending_iff:
  "pending S k \<longleftrightarrow> (\<exists>p. map_of (job_tasks S) k = Some (TaskNew p)) \<or> map_of (job_tasks S) k = Some TaskRunning"
  by (auto simp: pending_def split: option.splits job_task.splits)

lemma not_pending_iff:
  "\<not> pending S k \<longleftrightarrow> map_of (job_tasks S) k = None \<or> map_of (job_tasks S) k = Some TaskDone"
  by (auto simp: pending_def split: option.splits job_task.splits)

lemma pending_put [simp]:
  "pending (put_task k t S) k' = (if k' = k then t \<noteq> TaskDone else pending S k')"
  by (cases t) (auto simp: pending_def)

lemma pending_same [simp]:
  "pending (change_job k f S) = pending S" "pending (reap now S) = pending S"
  "pending (task_started k S) k' = (k' = k \<or> pending S k')"
  "pending (task_ended pr k e now S) k' = (k' \<noteq> k \<and> pending S k')"
  "pending (snd (list_jobs now S)) = pending S"
  by (auto simp: fun_eq_iff pending_def task_started_def task_ended_def list_jobs_def Let_def
      split: option.splits job_task.splits if_splits)

lemma pending_gone: "map_of (job_tasks S) k = Some TaskDone \<Longrightarrow> pending (task_gone k S) = pending S"
  by (auto simp: fun_eq_iff pending_def task_gone_def dict.get_del split: option.splits job_task.splits)

lemma pending_running: "store_ok S \<Longrightarrow> pending S k \<Longrightarrow> \<exists>j. map_of (jobs S) k = Some j \<and> \<not> is_terminal j"
  by (fastforce simp: pending_iff store_ok_def terminal_iff)

lemma store_ok_finish: "store_ok S \<Longrightarrow> \<not> pending S k \<Longrightarrow> store_ok (change_job k (cancelled_job now) S)"
  by (auto simp: store_ok_def not_pending_iff intro!: jobs_ok_change)

lemma reap_part: "store_ok S \<Longrightarrow> map_of (jobs (reap now S)) k = Some j \<Longrightarrow> map_of (jobs S) k = Some j"
  by (auto simp: store_ok_def reap_lookup split: option.splits if_splits)

lemma submit_lookup:
  assumes "submit prompt timeout k now S = (j, S')"
  shows "map_of (jobs S') k' = (if k' = k then Some j else map_of (jobs (reap now S)) k')"
    "map_of (job_tasks S') k' = (if k' = k then Some (TaskNew prompt) else map_of (job_tasks S) k')"
    "\<not> is_terminal j" "S' = snd (submit prompt timeout k now S)"
  using assms by (auto simp: submit_def Let_def dict.get_put terminal_iff new_job_def)

lemma pending_submit:
  "submit prompt timeout k now S = (j, S') \<Longrightarrow> pending S' k' = (k' = k \<or> pending S k')"
  using submit_lookup(2) [of prompt timeout k now S j S' k'] by (auto simp: pending_iff)

lemma job_sys_ok_boot: "job_boot retention kept s \<Longrightarrow> job_sys_ok s"
  by (auto simp: job_boot_def job_sys_ok_def new_store_def store_ok_def jobs_ok_def)

text \<open>The parts of the invariant, one by one.\<close>

lemma job_sys_okD:
  assumes "job_sys_ok s"
  shows "store_ok (js s)" "map_of (jobs (js s)) k = Some j \<Longrightarrow> objects s k = Some j"
    "objects s k = Some j \<Longrightarrow> \<not> is_terminal j \<Longrightarrow> map_of (jobs (js s)) k = Some j"
    "map_of (job_tasks (js s)) k \<noteq> None \<Longrightarrow> objects s k \<noteq> None"
    "k \<in> doomed s \<Longrightarrow> pending (js s) k"
    "k \<in># answering s \<Longrightarrow> objects s k \<noteq> None" "k \<in># answering s \<Longrightarrow> pending (js s) k \<Longrightarrow> k \<in> doomed s"
    "shutting s = Some K \<Longrightarrow> k \<in> K \<Longrightarrow> objects s k \<noteq> None"
    "shutting s = Some K \<Longrightarrow> k \<in> K \<Longrightarrow> pending (js s) k \<Longrightarrow> k \<in> doomed s"
    "k \<in># answered s \<Longrightarrow> objects s k \<noteq> None" "k \<in># answered s \<Longrightarrow> \<not> pending (js s) k"
  using assms unfolding job_sys_ok_def by blast+

lemma job_sys_okI:
  assumes "store_ok (js s)" "\<And>k j. map_of (jobs (js s)) k = Some j \<Longrightarrow> objects s k = Some j"
    and "\<And>k j. objects s k = Some j \<Longrightarrow> \<not> is_terminal j \<Longrightarrow> map_of (jobs (js s)) k = Some j"
    and "\<And>k. map_of (job_tasks (js s)) k \<noteq> None \<Longrightarrow> objects s k \<noteq> None"
    and "\<And>k. k \<in> doomed s \<Longrightarrow> pending (js s) k"
    and "\<And>k. k \<in># answering s \<Longrightarrow> objects s k \<noteq> None \<and> (pending (js s) k \<longrightarrow> k \<in> doomed s)"
    and "\<And>K k. shutting s = Some K \<Longrightarrow> k \<in> K \<Longrightarrow> objects s k \<noteq> None \<and> (pending (js s) k \<longrightarrow> k \<in> doomed s)"
    and "\<And>k. k \<in># answered s \<Longrightarrow> objects s k \<noteq> None \<and> \<not> pending (js s) k"
  shows "job_sys_ok s"
  unfolding job_sys_ok_def using assms by blast

text \<open>A step that touches only the jobs and tasks of the store, under keys that exist.\<close>

lemma job_sys_ok_store:
  assumes "job_sys_ok s" "store_ok S"
    and "\<And>k j. map_of (jobs S) k = Some j \<Longrightarrow> map_of (jobs (js s)) k = Some j"
    and "\<And>k j. map_of (jobs (js s)) k = Some j \<Longrightarrow> \<not> is_terminal j \<Longrightarrow> map_of (jobs S) k = Some j"
    and "\<And>k. map_of (job_tasks S) k \<noteq> None \<Longrightarrow> map_of (job_tasks (js s)) k \<noteq> None"
    and "pending S = pending (js s)"
  shows "job_sys_ok (s\<lparr>js := S\<rparr>)"
proof -
  note ok = job_sys_okD [OF assms(1)]
  have "\<forall>k j. map_of (jobs S) k = Some j \<longrightarrow> objects s k = Some j"
    and "\<forall>k j. objects s k = Some j \<longrightarrow> is_terminal j \<or> map_of (jobs S) k = Some j"
    and "\<forall>k. map_of (job_tasks S) k \<noteq> None \<longrightarrow> objects s k \<noteq> None"
    using ok(2-4) assms(3-5) by blast+
  moreover have "\<forall>k \<in> doomed s. pending (js s) k"
    and "\<forall>k \<in># answering s. objects s k \<noteq> None \<and> (pending (js s) k \<longrightarrow> k \<in> doomed s)"
    and "\<forall>K k. shutting s = Some K \<longrightarrow> k \<in> K \<longrightarrow> objects s k \<noteq> None \<and> (pending (js s) k \<longrightarrow> k \<in> doomed s)"
    and "\<forall>k \<in># answered s. objects s k \<noteq> None \<and> \<not> pending (js s) k"
    using ok(5-11) by blast+
  ultimately show ?thesis using assms(2) unfolding job_sys_ok_def by (simp add: assms(6))
qed

text \<open>A step that changes one object, in the heap and in the dictionary alike, and may end its task.\<close>

lemma job_sys_ok_object:
  assumes "job_sys_ok s" "store_ok (js t)" "objects t k \<noteq> None" "map_of (jobs (js t)) k = objects t k"
    and "\<And>k'. k' \<noteq> k \<Longrightarrow> objects t k' = objects s k' \<and> map_of (jobs (js t)) k' = map_of (jobs (js s)) k'"
    and "\<And>k'. map_of (job_tasks (js t)) k' \<noteq> None \<Longrightarrow> k' = k \<or> map_of (job_tasks (js s)) k' \<noteq> None"
    and "\<And>k'. pending (js t) k' \<longleftrightarrow> k' \<notin> D \<and> pending (js s) k'"
    and "doomed t = doomed s - D" "answering t = answering s" "shutting t = shutting s"
    and "\<And>k'. k' \<in># answered t \<Longrightarrow> k' \<in># answered s \<or> k' = k \<and> \<not> pending (js t) k"
  shows "job_sys_ok t"
proof (rule job_sys_okI)
  note ok = job_sys_okD [OF assms(1)]
  show "store_ok (js t)" by (rule assms(2))
  fix k'
  show "objects t k' = Some j" if "map_of (jobs (js t)) k' = Some j" for j
    using that ok(2) [of k' j] assms(4) assms(5) [of k'] by (cases "k' = k") auto
  show "map_of (jobs (js t)) k' = Some j" if "objects t k' = Some j" "\<not> is_terminal j" for j
    using that ok(3) [of k' j] assms(4) assms(5) [of k'] by (cases "k' = k") auto
  show "objects t k' \<noteq> None" if "map_of (job_tasks (js t)) k' \<noteq> None"
    using that ok(4) [of k'] assms(3,6) assms(5) [of k'] by (cases "k' = k") auto
  show "pending (js t) k'" if "k' \<in> doomed t" using that ok(5) [of k'] assms(7,8) by simp
  show "objects t k' \<noteq> None \<and> (pending (js t) k' \<longrightarrow> k' \<in> doomed t)" if "k' \<in># answering t"
    using that ok(6,7) [of k'] assms(3,7-9) assms(5) [of k'] by (cases "k' = k") auto
  show "objects t k' \<noteq> None \<and> (pending (js t) k' \<longrightarrow> k' \<in> doomed t)" if "shutting t = Some K" "k' \<in> K" for K
    using that ok(8,9) [of K k'] assms(3,7,8,10) assms(5) [of k'] by (cases "k' = k") auto
  show "objects t k' \<noteq> None \<and> \<not> pending (js t) k'" if "k' \<in># answered t"
    using that ok(10,11) [of k'] assms(3,7) assms(5,11) [of k'] by (cases "k' = k") auto
qed

lemma job_sys_ok_step:
  assumes "job_step pr s t" "job_sys_ok s"
  shows "job_sys_ok t"
  using assms(1)
proof cases
  case (submitted k prompt timeout now j S)
  note sub = submit_lookup [OF submitted(3)] pending_submit [OF submitted(3)]
  have no: "map_of (jobs (js s)) k = None" "map_of (job_tasks (js s)) k = None" "\<not> pending (js s) k"
  proof -
    show "map_of (jobs (js s)) k = None"
      using job_sys_okD(2) [OF assms(2), of k] submitted(2) by (cases "map_of (jobs (js s)) k") auto
    show "map_of (job_tasks (js s)) k = None" using job_sys_okD(4) [OF assms(2), of k] submitted(2) by blast
    then show "\<not> pending (js s) k" by (simp add: pending_iff)
  qed
  have st: "store_ok S" unfolding sub(4) by (rule store_ok_submit [OF job_sys_okD(1) [OF assms(2)]])
  have part: "map_of (jobs (reap now (js s))) k' = Some j' \<Longrightarrow> objects s k' = Some j'" for k' j'
    using reap_part [OF job_sys_okD(1) [OF assms(2)]] job_sys_okD(2) [OF assms(2)] by blast
  have kept: "objects s k' = Some j' \<Longrightarrow> \<not> is_terminal j' \<Longrightarrow> map_of (jobs (reap now (js s))) k' = Some j'" for k' j'
    using reap_keeps_running job_sys_okD(1,3) [OF assms(2)] unfolding store_ok_def by blast
  note ok = job_sys_okD [OF assms(2)]
  have "\<forall>k' j'. map_of (jobs S) k' = Some j' \<longrightarrow> ((objects s)(k \<mapsto> j)) k' = Some j'"
    using part by (simp add: sub(1))
  moreover have "\<forall>k' j'. ((objects s)(k \<mapsto> j)) k' = Some j' \<longrightarrow> is_terminal j' \<or> map_of (jobs S) k' = Some j'"
    using kept by (auto simp: sub(1))
  moreover have "\<forall>k'. map_of (job_tasks S) k' \<noteq> None \<longrightarrow> ((objects s)(k \<mapsto> j)) k' \<noteq> None"
    using ok(4) by (simp add: sub(2))
  moreover have "\<forall>k' \<in> doomed s. pending S k'" using ok(5) by (simp add: sub(5))
  moreover have "\<forall>k' \<in># answering s. ((objects s)(k \<mapsto> j)) k' \<noteq> None \<and> (pending S k' \<longrightarrow> k' \<in> doomed s)"
    using ok(6) [of k] ok(6,7) submitted(2) by (auto simp: sub(5) simp del: not_None_eq)
  moreover have "\<forall>k' \<in># answered s. ((objects s)(k \<mapsto> j)) k' \<noteq> None \<and> \<not> pending S k'"
    using ok(10) [of k] ok(10,11) submitted(2) by (auto simp: sub(5) simp del: not_None_eq)
  moreover have "\<forall>K k'. shutting s = Some K \<longrightarrow> k' \<in> K \<longrightarrow>
      ((objects s)(k \<mapsto> j)) k' \<noteq> None \<and> (pending S k' \<longrightarrow> k' \<in> doomed s)"
    using ok(8) [of _ k] ok(8,9) submitted(2) by (auto simp: sub(5) simp del: not_None_eq)
  ultimately show ?thesis unfolding submitted(1) job_sys_ok_def using st by simp
next
  case (started k prompt)
  note ok = job_sys_okD [OF assms(2)]
  have "store_ok (task_started k (js s))"
    using store_ok_step [OF starts [OF started(2)] ok(1)] .
  then show ?thesis unfolding started(1) using started(2)
    by (intro job_sys_ok_store [OF assms(2)]) (auto simp: fun_eq_iff task_started_def pending_iff split: if_splits)
next
  case (dropped k prompt)
  note ok = job_sys_okD [OF assms(2)]
  have "store_ok (put_task k TaskDone (js s))" using ok(1) by (simp add: store_ok_def)
  moreover obtain j where "map_of (jobs (js s)) k = Some j" "objects s k = Some j"
    using pending_running [OF ok(1), of k] ok(2) [of k] dropped(2) by (auto simp: pending_iff)
  ultimately show ?thesis
    by (intro job_sys_ok_object [OF assms(2), where k = k and D = "{k}"]) (auto simp: dropped(1) split: if_splits)
next
  case (ended k j e now)
  note ok = job_sys_okD [OF assms(2)]
  have "map_of (jobs (js s)) k = Some j"
    using pending_running [OF ok(1), of k] ok(2) [of k] ended(2,3) by (fastforce simp: pending_iff)
  moreover have "store_ok (task_ended pr k e now (js s))" by (rule store_ok_ended [OF ok(1) ended(4)])
  ultimately show ?thesis
    by (intro job_sys_ok_object [OF assms(2), where k = k and D = "{k}"])
      (auto simp: ended(1), auto simp: task_ended_def split: if_splits)
next
  case (gone k)
  note ok = job_sys_okD [OF assms(2)]
  show ?thesis unfolding gone(1)
    by (rule job_sys_ok_store [OF assms(2)])
      (auto simp: store_ok_gone ok(1) pending_gone [OF gone(2)], auto simp: task_gone_def dict.get_del split: if_splits)
next
  case (listed now)
  note ok = job_sys_okD [OF assms(2)]
  have l: "snd (list_jobs now (js s)) = reap now (js s)" by (simp add: list_jobs_def Let_def)
  show ?thesis unfolding listed l
  proof (rule job_sys_ok_store [OF assms(2) store_ok_reap [OF ok(1)] reap_part [OF ok(1)]])
    show "map_of (jobs (reap now (js s))) k = Some j" if "map_of (jobs (js s)) k = Some j" "\<not> is_terminal j" for k j
      using reap_keeps_running that ok(1) unfolding store_ok_def by blast
  qed simp_all
next
  case (cancel_waits k j)
  note ok = job_sys_okD [OF assms(2)]
  have obj: "objects s k \<noteq> None" using ok(2) cancel_waits(2) by simp
  show ?thesis using assms(2) obj cancel_waits(3) unfolding cancel_waits(1) job_sys_ok_def by auto
next
  case (cancel_finishes k j now)
  note ok = job_sys_okD [OF assms(2)]
  have "store_ok (change_job k (cancelled_job now) (js s))" by (rule store_ok_finish [OF ok(1) cancel_finishes(3)])
  then show ?thesis using cancel_finishes(2)
    by (intro job_sys_ok_object [OF assms(2), where k = k and D = "{}"]) (auto simp: cancel_finishes(1,3))
next
  case (cancel_finished k j)
  have "objects s k \<noteq> None" using job_sys_okD(2) [OF assms(2) cancel_finished(2)] by simp
  then show ?thesis using assms(2) cancel_finished(1,3) by (simp add: job_sys_ok_def)
next
  case (cancel_returns k A)
  then show ?thesis using assms(2) by (simp add: job_sys_ok_def)
next
  case (cancel_abandoned k A)
  then show ?thesis using assms(2) by (simp add: job_sys_ok_def)
next
  case shutdown_waits
  note ok = job_sys_okD [OF assms(2)]
  have obj: "objects s k \<noteq> None" if "pending (js s) k" for k
    using that ok(4) [of k] by (auto simp: pending_iff)
  show ?thesis using assms(2) obj unfolding shutdown_waits(1) job_sys_ok_def by auto
next
  case (shutdown_returns K)
  then show ?thesis using assms(2) by (simp add: job_sys_ok_def)
qed

interpretation job_system: invariant_of "job_boot retention kept" "job_step pr" job_sys_ok
  using job_sys_ok_boot job_sys_ok_step by unfold_locales

subsection \<open>The life of a job\<close>

datatype job_view = Unsubmitted | InFlight | Settled job | Forgotten job

text \<open>
  What a caller may rely on: a job is accepted, ends once with a result that is complete, and may then
  be forgotten.
\<close>

inductive job_life :: "job_view \<Rightarrow> job_view \<Rightarrow> bool" where
  accepted: "job_life Unsubmitted InFlight"
| settles: "is_terminal j \<Longrightarrow> job_ok j \<Longrightarrow> job_life InFlight (Settled j)"
| forgets: "job_life (Settled j) (Forgotten j)"

inductive_cases from_InFlight: "job_life InFlight v"
inductive_cases from_Settled: "job_life (Settled j) v"
inductive_cases from_Forgotten: "job_life (Forgotten j) v"

text \<open>
  What the dictionary says of an id, which is all a caller can ask. An object that is no longer in it is
  forgotten, whatever its status.
\<close>

definition view :: "ustring \<Rightarrow> job_sys \<Rightarrow> job_view" where
  "view k s =
     (case map_of (jobs (js s)) k of
        Some j \<Rightarrow> (if is_terminal j then Settled j else InFlight)
      | None \<Rightarrow> (case objects s k of None \<Rightarrow> Unsubmitted | Some j \<Rightarrow> Forgotten j))"

lemma settled_stays: "job_life\<^sup>*\<^sup>* v w \<Longrightarrow> v = Settled j \<Longrightarrow> w \<in> {Settled j, Forgotten j}"
  by (induction rule: rtranclp_induct) (auto elim: from_Settled from_Forgotten)

lemma in_flight_stays:
  "job_life\<^sup>*\<^sup>* v w \<Longrightarrow> v = InFlight \<Longrightarrow>
     w = InFlight \<or> (\<exists>j. is_terminal j \<and> job_ok j \<and> w \<in> {Settled j, Forgotten j})"
  by (induction rule: rtranclp_induct) (auto elim: from_InFlight from_Settled from_Forgotten)

lemma view_same:
  "objects t k = objects s k \<Longrightarrow> map_of (jobs (js t)) k = map_of (jobs (js s)) k \<Longrightarrow> view k t = view k s"
  by (simp add: view_def split: option.split)

text \<open>A step that leaves the objects alone and only drops finished jobs from the dictionary.\<close>

lemma view_dropping:
  assumes "job_sys_ok s" "objects t k = objects s k"
    and "\<And>j. map_of (jobs (js t)) k = Some j \<Longrightarrow> map_of (jobs (js s)) k = Some j"
    and "\<And>j. map_of (jobs (js s)) k = Some j \<Longrightarrow> \<not> is_terminal j \<Longrightarrow> map_of (jobs (js t)) k = Some j"
  shows "view k t = view k s \<or> job_life (view k s) (view k t)"
proof (cases "map_of (jobs (js s)) k")
  case None
  then have "map_of (jobs (js t)) k = None" using assms(3) by (cases "map_of (jobs (js t)) k") auto
  with None assms(2) show ?thesis by (simp add: view_def)
next
  case (Some j)
  then have "objects s k = Some j" using job_sys_okD(2) [OF assms(1)] by blast
  with Some assms(2-4) show ?thesis
    by (cases "map_of (jobs (js t)) k") (auto simp: view_def forgets)
qed

lemma life_step:
  assumes "job_step pr s t" "job_sys_ok s"
  shows "view k t = view k s \<or> job_life (view k s) (view k t)"
proof -
  note ok = job_sys_okD [OF assms(2)]
  have jobs: "jobs_ok (jobs (js s))" using ok(1) by (simp add: store_ok_def)
  have reaping: "view k t = view k s \<or> job_life (view k s) (view k t)"
    if "objects t k = objects s k" "map_of (jobs (js t)) k = map_of (jobs (reap now (js s))) k" for now
    using reap_part [OF ok(1)] reap_keeps_running [OF jobs]
    by (intro view_dropping [OF assms(2) that(1)], unfold that(2))
  show ?thesis using assms(1)
  proof cases
    case (submitted k' prompt timeout now j S)
    note sub = submit_lookup [OF submitted(3)]
    show ?thesis
    proof (cases "k = k'")
      case True
      then have "map_of (jobs (js s)) k = None" using submitted(2) ok(2) [of k] by (cases "map_of (jobs (js s)) k") auto
      with True show ?thesis using submitted(1,2) sub(1,3) by (simp add: view_def accepted)
    next
      case False
      then have "objects t k = objects s k" "map_of (jobs (js t)) k = map_of (jobs (reap now (js s))) k"
        using submitted(1) by (simp_all add: sub(1))
      then show ?thesis by (rule reaping)
    qed
  next
    case (ended k' j e now)
    show ?thesis
    proof (cases "k = k'")
      case True
      have "map_of (jobs (js s)) k = Some j \<and> \<not> is_terminal j"
        using pending_running [OF ok(1), of k] ok(2) [of k] ended(2,3) True by (fastforce simp: pending_iff)
      then show ?thesis using ended True settles [OF _ job_ok_ended [OF ended(4)]]
        by (simp add: view_def task_ended_def)
    next
      case False
      then show ?thesis using ended(1) by (intro disjI1 view_same) (simp_all add: task_ended_def)
    qed
  next
    case (listed now)
    then show ?thesis by (intro reaping [of now]) (simp_all add: list_jobs_def Let_def)
  next
    case (cancel_finishes k' j now)
    show ?thesis
    proof (cases "k = k'")
      case True
      then show ?thesis using cancel_finishes ok(2) settles [OF _ job_ok_cancelled]
        by (simp add: view_def)
    next
      case False
      then show ?thesis using cancel_finishes(1) by (intro disjI1 view_same) simp_all
    qed
  qed (intro disjI1 view_same; simp add: task_started_def task_gone_def)+
qed

interpretation job_lives: simulation "job_boot retention kept" "job_step pr" job_sys_ok job_life "view k"
  using life_step by unfold_locales

subsection \<open>A task that has started\<close>

text \<open>Once a task has started its job gets a result: while it is not pending, the object is finished.\<close>

definition under_way :: "ustring \<Rightarrow> job_sys \<Rightarrow> bool" where
  "under_way k s \<longleftrightarrow>
     map_of (job_tasks (js s)) k = Some TaskRunning \<or>
     (\<not> pending (js s) k \<and> (\<exists>j. objects s k = Some j \<and> is_terminal j))"

lemma under_way_object: "job_sys_ok s \<Longrightarrow> under_way k s \<Longrightarrow> objects s k \<noteq> None"
  using job_sys_okD(4) by (auto simp: under_way_def)

lemma under_way_step:
  assumes "job_step pr s t" "job_sys_ok s" "under_way k s"
  shows "under_way k t"
proof -
  note obj = under_way_object [OF assms(2,3)]
  show ?thesis using assms(1)
  proof cases
    case (submitted k' prompt timeout now j S)
    then have "k \<noteq> k'" using obj by auto
    then show ?thesis using assms(3) submitted(1) submit_lookup(2) [OF submitted(3)] pending_submit [OF submitted(3)]
      by (auto simp: under_way_def)
  next
    case (gone k')
    then show ?thesis using assms(3) pending_gone [OF gone(2)]
      by (auto simp: under_way_def task_gone_def dict.get_del)
  qed (use assms(3) in \<open>auto simp: under_way_def task_started_def task_ended_def pending_iff
        list_jobs_def Let_def split: if_splits\<close>)
qed

lemma under_way_steps:
  assumes "(job_step pr)\<^sup>*\<^sup>* s t" "job_sys_ok s" "under_way k s"
  shows "under_way k t"
  using assms(1)
proof (induction rule: rtranclp_induct)
  case base
  show ?case by (rule assms(3))
next
  case (step t u)
  from job_system.inv_steps [OF step.hyps(1) assms(2)] show ?case
    by (rule under_way_step [OF step.hyps(2) _ step.IH])
qed

lemma answered_steps: "(job_step pr)\<^sup>*\<^sup>* s t \<Longrightarrow> k \<in># answered s \<Longrightarrow> k \<in># answered t"
  by (induction rule: rtranclp_induct) (auto elim: job_step.cases)

subsection \<open>The operations as schedules\<close>

text \<open>
  \<open>cancel_task\<close> is the next step of a task that has been cancelled, and so the one-step \<open>cancel_job\<close> and
  \<open>shutdown_jobs\<close> are what \<open>cancel\<close> and \<open>shutdown\<close> do when nothing comes between.
\<close>

lemma cancel_task_step:
  assumes "job_sys_ok s" "pending (js s) k \<longrightarrow> k \<in> doomed s" "fair_end e"
  obtains t where "(job_step pr)\<^sup>=\<^sup>= s t" "js t = cancel_task pr k e now (js s)" "\<not> pending (js t) k"
    "answering t = answering s" "answered t = answered s" "shutting t = shutting s" "doomed t = doomed s - {k}"
proof (cases "map_of (job_tasks (js s)) k")
  case None
  then have "\<not> pending (js s) k" by (simp add: pending_iff)
  moreover then have "k \<notin> doomed s" using job_sys_okD(5) [OF assms(1)] by blast
  ultimately show ?thesis using None by (intro that [of s]) (simp_all add: cancel_task_def)
next
  case (Some u)
  show ?thesis
  proof (cases u)
    case (TaskNew prompt)
    with Some assms(2) have "k \<in> doomed s" by (simp add: pending_iff)
    from JobSystem.dropped [OF Some [unfolded TaskNew] this, of pr] show ?thesis
      by (intro that, intro sup2I1) (assumption, simp_all add: cancel_task_def Some TaskNew)
  next
    case TaskRunning
    obtain j where "objects s k = Some j"
      using job_sys_okD(4) [OF assms(1), of k] Some by auto
    from JobSystem.ended [OF Some [unfolded TaskRunning] this assms(3), of pr now] show ?thesis
      by (intro that, intro sup2I1) (assumption, simp_all add: cancel_task_def Some TaskRunning)
  next
    case TaskDone
    then have "\<not> pending (js s) k" using Some by (simp add: pending_iff)
    moreover then have "k \<notin> doomed s" using job_sys_okD(5) [OF assms(1)] by blast
    ultimately show ?thesis using Some TaskDone by (intro that [of s]) (simp_all add: cancel_task_def)
  qed
qed

lemma cancel_tasks_run:
  assumes "job_sys_ok s" "\<forall>k. pending (js s) k \<longrightarrow> k \<in> doomed s" "\<And>k. fair_end (e k)"
  shows "\<exists>t. (job_step pr)\<^sup>*\<^sup>* s t \<and> js t = fold (\<lambda>k. cancel_task pr k (e k) (now k)) ks (js s) \<and>
    shutting t = shutting s \<and> answering t = answering s"
  using assms(1,2)
proof (induction ks arbitrary: s)
  case Nil
  then show ?case by (intro exI [of _ s]) simp
next
  case (Cons k ks)
  from Cons.prems(2) have "pending (js s) k \<longrightarrow> k \<in> doomed s" by blast
  from cancel_task_step [OF Cons.prems(1) this assms(3), where pr = pr and now = "now k"]
  obtain t where t: "(job_step pr)\<^sup>=\<^sup>= s t" "js t = cancel_task pr k (e k) (now k) (js s)"
    "answering t = answering s" "shutting t = shutting s" "doomed t = doomed s - {k}" "\<not> pending (js t) k" .
  have st: "(job_step pr)\<^sup>*\<^sup>* s t" using t(1) by auto
  have "pending (js t) k' \<longrightarrow> k' \<in> doomed t" for k'
    using Cons.prems(2) t(2,5,6)
    by (cases "k' = k") (auto simp: cancel_task_def split: option.splits job_task.splits)
  with Cons.IH [OF job_system.inv_steps [OF st Cons.prems(1)]] obtain u where
    "(job_step pr)\<^sup>*\<^sup>* t u" "js u = fold (\<lambda>k. cancel_task pr k (e k) (now k)) ks (js t)"
    "shutting u = shutting t" "answering u = answering t" by blast
  with st t(2,3,4) show ?case by (intro exI [of _ u]) auto
qed

text \<open>What \<open>shutdown\<close> does in one piece is what it does here when nothing comes between.\<close>

lemma shutdown_scheduled:
  assumes "job_sys_ok s" "shutting s = None" "\<And>k. fair_end (e k)"
  shows "\<exists>t. (job_step pr)\<^sup>*\<^sup>* s t \<and> js t = shutdown_jobs pr e now (js s) \<and> shutting t = None \<and>
    (\<forall>k. \<not> pending (js t) k)"
proof -
  let ?K = "Collect (pending (js s))"
  let ?u = "s\<lparr>doomed := doomed s \<union> ?K, shutting := Some ?K\<rparr>"
  have u: "job_step pr s ?u" using shutdown_waits [OF assms(2)] .
  have "\<forall>k. pending (js ?u) k \<longrightarrow> k \<in> doomed ?u" by simp
  from cancel_tasks_run [where e = e and pr = pr and now = now and ks = "map fst (job_tasks (js s))",
      OF job_sys_ok_step [OF u assms(1)] this assms(3)]
  obtain v where v: "(job_step pr)\<^sup>*\<^sup>* ?u v" "js v = shutdown_jobs pr e now (js s)" "shutting v = Some ?K"
    by (auto simp: shutdown_jobs_def)
  have none: "\<not> pending (js v) k" for k
    using shutdown_ends_tasks [of pr e now "js s" k] v(2) by (auto simp: not_pending_iff)
  then have "job_step pr v (v\<lparr>shutting := None\<rparr>)" by (intro shutdown_returns [OF v(3)]) simp
  with u v none show ?thesis
    by (intro exI [of _ "v\<lparr>shutting := None\<rparr>"]) (auto intro: rtranclp.rtrancl_into_rtrancl converse_rtranclp_into_rtranclp)
qed

lemma cancel_scheduled:
  assumes "job_sys_ok s" "map_of (jobs (js s)) k = Some j" "fair_end e"
  shows "\<exists>t. (job_step pr)\<^sup>*\<^sup>* s t \<and> cancel_job pr k e now (js s) = (objects t k, js t) \<and>
    answering t = answering s \<and> answered t = add_mset k (answered s)"
proof (cases "pending (js s) k")
  case True
  let ?u = "s\<lparr>doomed := insert k (doomed s), answering := add_mset k (answering s)\<rparr>"
  have u: "job_step pr s ?u" using cancel_waits [OF assms(2) True] .
  from cancel_task_step [OF job_sys_ok_step [OF u assms(1)] _ assms(3), where k = k and pr = pr and now = now]
  obtain v where v: "(job_step pr)\<^sup>=\<^sup>= ?u v" "js v = cancel_task pr k e now (js s)" "\<not> pending (js v) k"
    "answering v = add_mset k (answering s)" "answered v = answered s" by auto
  let ?v = "v\<lparr>answering := answering s, answered := add_mset k (answered v)\<rparr>"
  have r: "job_step pr v ?v" by (rule cancel_returns [OF v(4,3)])
  have run: "(job_step pr)\<^sup>*\<^sup>* s v" using u v(1) by (auto intro: rtranclp.rtrancl_into_rtrancl)
  have "map_of (jobs (js v)) k \<noteq> None"
    using assms(2) v(2) by (auto simp: cancel_task_def task_ended_def split: option.splits job_task.splits)
  then have "map_of (jobs (js v)) k = objects v k"
    using job_sys_okD(2) [OF job_system.inv_steps [OF run assms(1)], of k] by auto
  moreover have "cancel_job pr k e now (js s) = (map_of (jobs (js v)) k, js v)"
    using assms(2) True v(2) by (auto simp: cancel_job_def pending_iff Let_def)
  ultimately show ?thesis using run r v(5)
    by (intro exI [of _ ?v]) (auto intro: rtranclp.rtrancl_into_rtrancl)
next
  case False
  note np = this [unfolded not_pending_iff]
  have obj: "objects s k = Some j" using job_sys_okD(2) [OF assms(1,2)] .
  show ?thesis
  proof (cases "is_terminal j")
    case True
    from cancel_finished [OF assms(2) False this, of pr] True show ?thesis using np assms(2) obj
      by (intro exI [of _ "s\<lparr>answered := add_mset k (answered s)\<rparr>"]) (auto simp: cancel_job_def Let_def)
  next
    case nt: False
    from cancel_finishes [OF assms(2) False nt, of pr now] show ?thesis using np assms(2) nt
      by (intro exI [of _ "s\<lparr>js := change_job k (cancelled_job now) (js s),
          objects := (objects s)(k \<mapsto> cancelled_job now j), answered := add_mset k (answered s)\<rparr>"])
        (auto simp: cancel_job_def Let_def)
  qed
qed

subsection \<open>A small run\<close>

text \<open>A job is submitted, its task starts, \<open>cancel\<close> waits, and the task ends as cancelled.\<close>

definition jobs_now ::
    "job_task \<Rightarrow> job \<Rightarrow> ustring set \<Rightarrow> ustring list \<Rightarrow> ustring list \<Rightarrow> job_sys" where
  "jobs_now u j D A B =
     \<lparr>js = store_now [(us ''a'', j)] [(us ''a'', u)], objects = [us ''a'' \<mapsto> j], doomed = D,
      answering = mset A, answered = mset B, shutting = None\<rparr>"

abbreviation small_job_reach :: "job_sys \<Rightarrow> bool" where
  "small_job_reach \<equiv> job_reach (\<lambda>_. True) (Finite 600) 1"

lemma job_reach_step: "job_reach pr retention kept s \<Longrightarrow> job_step pr s t \<Longrightarrow> job_reach pr retention kept t"
  by (rule reach_step)

lemma job_step_steps:
  "job_step pr s t \<Longrightarrow> (job_step pr)\<^sup>*\<^sup>* s t"
  "job_step pr s t \<Longrightarrow> job_step pr t u \<Longrightarrow> (job_step pr)\<^sup>*\<^sup>* s u"
  by auto

lemma job_submitted: "small_job_reach (jobs_now (TaskNew (us ''PONG'')) (asked (us ''a'') 0) {} [] [])"
proof -
  let ?b = "\<lparr>js = new_store (Finite 600) 1, objects = Map.empty, doomed = {}, answering = {#}, answered = {#}, shutting = None\<rparr>"
  have "small_job_reach ?b" by (rule reach_init) (simp add: job_boot_def)
  then show ?thesis
    by (rule job_reach_step)
      (use submitted [of ?b "us ''a''" "us ''PONG''" "Finite 120" 0 "asked (us ''a'') 0"
         "store_now [(us ''a'', asked (us ''a'') 0)] [(us ''a'', TaskNew (us ''PONG''))]"]
       in \<open>simp add: submit_def Let_def new_store_def reap_def asked_def store_now_def jobs_now_def\<close>)
qed

lemma job_started: "small_job_reach (jobs_now TaskRunning (asked (us ''a'') 0) {} [] [])"
  by (rule job_reach_step [OF job_submitted])
    (use started [of "jobs_now (TaskNew (us ''PONG'')) (asked (us ''a'') 0) {} [] []" "us ''a''" "us ''PONG''"]
     in \<open>simp add: jobs_now_def store_now_def task_started_def put_task_def\<close>)

lemma job_cancelling:
  "job_step (\<lambda>_. True) (jobs_now TaskRunning (asked (us ''a'') 0) {} [] [])
     (jobs_now TaskRunning (asked (us ''a'') 0) {us ''a''} [us ''a''] [])"
  using cancel_waits [of "jobs_now TaskRunning (asked (us ''a'') 0) {} [] []" "us ''a''" "asked (us ''a'') 0"]
  by (simp add: jobs_now_def store_now_def pending_def)

lemma job_cancelled:
  "job_step (\<lambda>_. True) (jobs_now TaskRunning (asked (us ''a'') 0) {us ''a''} [us ''a''] [])
     (jobs_now TaskDone (cancelled_job 1 (asked (us ''a'') 0)) {} [us ''a''] [])"
  using ended [of "jobs_now TaskRunning (asked (us ''a'') 0) {us ''a''} [us ''a''] []" "us ''a''"
      "asked (us ''a'') 0" Cancelled "\<lambda>_. True" 1] cancelled_fair
  by (simp add: jobs_now_def store_now_def task_ended_def put_task_def change_job_def run_ended_def)

text \<open>Whatever the state, a call that waits can return within two steps.\<close>

lemma cancel_can_answer:
  assumes "job_sys_ok s" "k \<in># answering s"
  shows "\<exists>n t. n \<le> 2 \<and> (job_step pr ^^ n) s t \<and> answering t = answering s - {#k#} \<and>
    answered t = add_mset k (answered s)"
proof -
  have "pending (js s) k \<longrightarrow> k \<in> doomed s" using job_sys_okD(7) [OF assms] by blast
  from cancel_task_step [OF assms(1) this cancelled_fair, where pr = pr and now = 0]
  obtain t where t: "(job_step pr)\<^sup>=\<^sup>= s t" "\<not> pending (js t) k" "answering t = answering s"
    "answered t = answered s" .
  from multi_member_split [OF assms(2)] obtain A where A: "answering s = add_mset k A" ..
  let ?t = "t\<lparr>answering := A, answered := add_mset k (answered t)\<rparr>"
  have r: "job_step pr t ?t" using cancel_returns [of t k A pr] A t(2,3) by simp
  have "\<exists>n. n \<le> 2 \<and> (job_step pr ^^ n) s ?t"
  proof (cases "s = t")
    case True
    then show ?thesis using r by (intro exI [of _ 1]) (simp add: eq_OO)
  next
    case False
    with t(1) r show ?thesis by (intro exI [of _ 2]) (auto simp: numeral_2_eq_2 relcompp.simps)
  qed
  then obtain n where "n \<le> 2" "(job_step pr ^^ n) s ?t" by blast
  with A t(4) show ?thesis by (intro exI [of _ n] exI [of _ ?t]) simp
qed

section \<open>Properties\<close>

text \<open>C18.
  The store implements the life of a job, whatever interleaving of submissions, tasks, listings,
  cancellations and the shutdown: a job that is running stays running, and in the dictionary, or gets one
  complete final result; a job that is finished keeps exactly that result until it is forgotten; and what is
  forgotten is a finished job.
\<close>

theorem jobs_refine_life:
  assumes "job_reach pr retention kept s" "(job_step pr)\<^sup>*\<^sup>* s t"
  shows "job_life\<^sup>*\<^sup>* (view k s) (view k t) \<and>
    (view k s = InFlight \<longrightarrow> view k t = InFlight \<or>
      (\<exists>j. is_terminal j \<and> job_ok j \<and> view k t \<in> {Settled j, Forgotten j})) \<and>
    (\<forall>j. view k s = Settled j \<longrightarrow> view k t \<in> {Settled j, Forgotten j}) \<and>
    (\<forall>j. objects s k = Some j \<longrightarrow> is_terminal j \<or> map_of (jobs (js s)) k = Some j \<and> view k s = InFlight)"
proof -
  have life: "job_life\<^sup>*\<^sup>* (view k s) (view k t)" by (rule job_lives.sim_reach [OF assms])
  have "map_of (jobs (js s)) k = Some j \<and> view k s = InFlight" if "objects s k = Some j" "\<not> is_terminal j" for j
    using job_sys_okD(3) [OF job_system.inv_reach [OF assms(1)] that] that(2) by (simp add: view_def)
  with life in_flight_stays [OF life] settled_stays [OF life] show ?thesis by blast
qed

theorem jobs_refine_life_witness:
  "view (us ''a'') (jobs_now TaskDone (cancelled_job 1 (asked (us ''a'') 0)) {} [us ''a''] []) = InFlight \<or>
     (\<exists>j. is_terminal j \<and> job_ok j \<and>
        view (us ''a'') (jobs_now TaskDone (cancelled_job 1 (asked (us ''a'') 0)) {} [us ''a''] []) \<in> {Settled j, Forgotten j})"
proof -
  have "(job_step (\<lambda>_. True))\<^sup>*\<^sup>* (jobs_now TaskRunning (asked (us ''a'') 0) {} [] [])
      (jobs_now TaskDone (cancelled_job 1 (asked (us ''a'') 0)) {} [us ''a''] [])"
    by (rule job_step_steps(2) [OF job_cancelling job_cancelled])
  moreover have "view (us ''a'') (jobs_now TaskRunning (asked (us ''a'') 0) {} [] []) = InFlight"
    by (simp add: view_def jobs_now_def store_now_def asked_def terminal_iff new_job_def)
  ultimately show ?thesis using jobs_refine_life [OF job_started] by blast
qed

text \<open>C23.
  \<open>cancel\<close> answers, and with a fact. A call that waits can return within two steps, whatever the state.
  When it has returned, the task has ended and stays ended, whatever else happened in between; and if
  the task had ever started, the job that was returned is finished, even if the store let go of it.
\<close>

theorem cancel_waits_for_end:
  assumes "job_reach pr retention kept s" "(job_step pr)\<^sup>*\<^sup>* s t"
  shows "(k \<in># answering s \<longrightarrow>
      (\<exists>n u. n \<le> 2 \<and> (job_step pr ^^ n) s u \<and> answering u = answering s - {#k#} \<and>
         answered u = add_mset k (answered s))) \<and>
    (k \<in># answered s \<longrightarrow> \<not> pending (js t) k) \<and>
    (map_of (job_tasks (js s)) k = Some TaskRunning \<longrightarrow> k \<in># answered t \<longrightarrow>
      (\<exists>j. objects t k = Some j \<and> is_terminal j))"
proof (intro conjI impI)
  note ok = job_system.inv_reach [OF assms(1)]
  note ok' = job_system.inv_steps [OF assms(2) ok]
  show "\<exists>n u. n \<le> 2 \<and> (job_step pr ^^ n) s u \<and> answering u = answering s - {#k#} \<and>
      answered u = add_mset k (answered s)" if "k \<in># answering s"
    using cancel_can_answer [OF ok that] .
  show "\<not> pending (js t) k" if "k \<in># answered s"
    using job_sys_okD(11) [OF ok'] answered_steps [OF assms(2) that] by blast
  assume "map_of (job_tasks (js s)) k = Some TaskRunning" "k \<in># answered t"
  moreover from this(1) have "under_way k s" by (simp add: under_way_def)
  ultimately show "\<exists>j. objects t k = Some j \<and> is_terminal j"
    using under_way_steps [OF assms(2) ok] job_sys_okD(11) [OF ok'] by (auto simp: under_way_def pending_iff)
qed

theorem cancel_waits_for_end_witness:
  "(\<exists>n t. n \<le> 2 \<and>
      (job_step (\<lambda>_. True) ^^ n) (jobs_now TaskRunning (asked (us ''a'') 0) {us ''a''} [us ''a''] []) t \<and>
      answering t = {#} \<and> answered t = {#us ''a''#}) \<and>
   (\<exists>j. objects (jobs_now TaskDone (cancelled_job 1 (asked (us ''a'') 0)) {} [] [us ''a'']) (us ''a'') = Some j \<and>
      is_terminal j)"
proof -
  let ?s = "jobs_now TaskRunning (asked (us ''a'') 0) {us ''a''} [us ''a''] []"
  let ?t = "jobs_now TaskDone (cancelled_job 1 (asked (us ''a'') 0)) {} [us ''a''] []"
  let ?u = "jobs_now TaskDone (cancelled_job 1 (asked (us ''a'') 0)) {} [] [us ''a'']"
  have s: "small_job_reach ?s" by (rule job_reach_step [OF job_started job_cancelling])
  have "\<not> pending (js ?t) (us ''a'')"
    by (simp add: jobs_now_def store_now_def pending_def)
  then have "job_step (\<lambda>_. True) ?t ?u"
    using cancel_returns [of ?t "us ''a''" "{#}" "\<lambda>_. True"] by (simp add: jobs_now_def)
  with job_cancelled have "(job_step (\<lambda>_. True))\<^sup>*\<^sup>* ?s ?u" by (rule job_step_steps(2))
  moreover have "map_of (job_tasks (js ?s)) (us ''a'') = Some TaskRunning" "answering ?s = {#us ''a''#}"
    "answered ?s = {#}" "answered ?u = {#us ''a''#}"
    by (simp_all add: jobs_now_def store_now_def)
  ultimately show ?thesis using cancel_waits_for_end [OF s, of ?u "us ''a''"] by simp
qed

end
