(* ===== verification/Apidocs.thy ===== *)
theory Apidocs
  imports Jobs
begin

text \<open>
  \<open>src/claude_pool/apidocs.py\<close>: the documents the daemon serves about itself, as JSON values and
  as a page. \<open>ver\<close> is the installed package's version; \<open>float_repr\<close> writes a float.
\<close>

definition SUMMARY :: ustring where
  "SUMMARY =
     us ''Local HTTP gateway that exposes the authenticated '' @ [96] @ us ''claude'' @ [96] @
     us '' CLI as an LLM endpoint. No API key: it spends the machine owner'' @ [39] @
     us ''s Claude subscription quota.''"

record doc =
  doc_kind :: ustring
  doc_status :: int
  doc_retryable :: bool
  doc_meaning :: ustring

definition FAILURE_KINDS :: "doc list" where
  "FAILURE_KINDS =
     [\<lparr>doc_kind = us ''pool_unavailable'', doc_status = 503, doc_retryable = True,
       doc_meaning =
         us ''All workers busy; the same request succeeds once one frees up.''\<rparr>,
      \<lparr>doc_kind = us ''rate_limited'', doc_status = 429, doc_retryable = True,
       doc_meaning =
         us ''Subscription rate/usage limit: the CLI reported api_error_status 429 or '' @
         us ''529. The CLI gives no reset time, so Retry-After is always '' @
         show_int DEFAULT_RETRY_AFTER_SEC @ us ''s.''\<rparr>,
      \<lparr>doc_kind = us ''timeout'', doc_status = 504, doc_retryable = True,
       doc_meaning =
         us ''The worker exceeded timeout_sec. Note the CLI retries API errors internally '' @
         us ''for up to ~3 minutes, so a real rate limit can surface here instead of as '' @
         us ''rate_limited.''\<rparr>,
      \<lparr>doc_kind = us ''not_authenticated'', doc_status = 503, doc_retryable = False,
       doc_meaning =
         us ''The '' @ [96] @ us ''claude'' @ [96] @
         us '' CLI needs a human to log in again: api_error_status 401/403, or the CLI'' @
         [39] @ us ''s own authentication_failed error code. Do not retry.''\<rparr>,
      \<lparr>doc_kind = us ''worker_failed'', doc_status = 502, doc_retryable = False,
       doc_meaning =
         us ''Any other worker failure, including one the CLI reported no structured values '' @
         us ''for; the message carries the CLI'' @ [39] @
         us ''s own wording, which never decides the kind.''\<rparr>,
      \<lparr>doc_kind = us ''forbidden_host'', doc_status = 403, doc_retryable = False,
       doc_meaning =
         us ''Host header was not a loopback literal (DNS-rebinding guard).''\<rparr>]"

definition CONSTRAINTS :: "ustring list" where
  "CONSTRAINTS =
     [us ''Spends the machine owner'' @ [39] @ us ''s Claude subscription quota '' @ [8212] @
      us '' check before bulk calls.'',
      us ''No conversation memory: every request gets a fresh worker, by design. Put '' @
      us ''all context in the prompt.'',
      us ''No tool use (--tools '' @ [34, 34] @
      us ''): text generation only, no file access or code execution.'',
      us ''No streaming: the full completion arrives at once '' @ [8212] @
      us '' use POST /jobs if you would rather not hold the connection open.'',
      us ''One model per daemon; run a second daemon on another port for a different '' @
      us ''model.'',
      us ''Loopback-only and unauthenticated; requests whose Host header is not a loopback '' @
      us ''literal are refused.'']"

definition curl_example :: "ustring \<Rightarrow> ustring" where
  "curl_example base =
     us ''curl -s -X POST '' @ base @ us ''/generate -H '' @ [39] @
     us ''Content-Type: application/json'' @ [39] @ us '' -d '' @ [39] @ us ''{'' @ [34] @
     us ''prompt'' @ [34] @ us '': '' @ [34] @ us ''reply with the single word PONG'' @ [34] @
     us ''}'' @ [39]"

definition PYTHON_EXAMPLE :: ustring where
  "PYTHON_EXAMPLE =
     us ''from claude_pool.client import ClaudePoolClient'' @ [10] @
     us ''client = ClaudePoolClient()'' @ [10] @ us ''text = client.generate('' @ [39] @
     us ''...'' @ [39] @ us '')                    # blocks'' @ [10] @
     us ''job_id = client.submit('' @ [39] @ us ''...'' @ [39] @
     us ''); client.wait(job_id)  # runs in the background''"

definition background_example :: "ustring \<Rightarrow> ustring" where
  "background_example base =
     us ''curl -s -X POST '' @ base @ us ''/jobs -H '' @ [39] @
     us ''Content-Type: application/json'' @ [39] @ us '' -d '' @ [39] @ us ''{'' @ [34] @
     us ''prompt'' @ [34] @ us '': '' @ [34] @ us ''...'' @ [34] @ us ''}'' @ [39, 10] @
     us ''  -> 202 {'' @ [34] @ us ''job_id'' @ [34] @ us '': '' @ [34] @ us ''abc123'' @ [34] @
     us '', '' @ [34] @ us ''status'' @ [34] @ us '': '' @ [34] @ us ''running'' @ [34] @
     us ''}'' @ [10] @ us ''curl -s '' @ base @ us ''/jobs/abc123'' @ [10] @ us ''  -> {'' @
     [34] @ us ''status'' @ [34] @ us '': '' @ [34] @ us ''succeeded'' @ [34] @ us '', '' @
     [34] @ us ''text'' @ [34] @ us '': '' @ [34] @ us ''...'' @ [34] @ us '', '' @ [34] @
     us ''duration_ms'' @ [34] @ us '': 1078}''"

subsection \<open>The JSON documents\<close>

definition base_url :: "pool_config \<Rightarrow> ustring" where
  "base_url c = us ''http://'' @ host c @ us '':'' @ show_int (port c)"

definition failure_kind_json :: "doc \<Rightarrow> json" where
  "failure_kind_json f =
     JObj [(us ''kind'', JStr (doc_kind f)), (us ''status'', JInt (doc_status f)),
       (us ''retryable'', JBool (doc_retryable f)), (us ''meaning'', JStr (doc_meaning f))]"

definition endpoints :: "(ustring \<times> ustring) list" where
  "endpoints =
     [(us ''POST /generate'',
       us ''Run one prompt. Body: {prompt: str, timeout_sec?: float}. Returns {text, '' @
       us ''duration_ms}.''),
      (us ''POST /jobs'',
       us ''Same body as /generate, but runs in the background. Returns 202 {job_id, '' @
       us ''status} immediately.''),
      (us ''GET /jobs/{job_id}'',
       us ''Poll one job. Always 200; read '' @ [96] @ us ''status'' @ [96] @
       us '' (running/succeeded/failed/cancelled).''),
      (us ''GET /jobs'',
       us ''List known jobs, newest first.''),
      (us ''DELETE /jobs/{job_id}'',
       us ''Cancel a running job (kills its worker) or forget a finished one.''),
      (us ''GET /health'',
       us ''Pool state. '' @ [96] @ us ''idle'' @ [96] @ us '' is a counter, '' @ [96] @
       us ''idle_alive'' @ [96] @
       us '' is a liveness probe; they diverge when pre-warmed workers have died.''),
      (us ''GET /'',
       us ''This document.''),
      (us ''GET /docs'',
       us ''The same, rendered for a browser.''),
      (us ''GET /openapi.json'',
       us ''OpenAPI 3.1 description.'')]"

definition api_info :: "ustring \<Rightarrow> pool_config \<Rightarrow> json" where
  "api_info ver c =
     JObj [(us ''name'', jstr ''claude-pool''),
           (us ''version'', JStr ver),
           (us ''summary'', JStr SUMMARY),
           (us ''base_url'', JStr (base_url c)),
           (us ''endpoints'', JObj (map (\<lambda>(k, v). (k, JStr v)) endpoints)),
           (us ''example'',
            JObj [(us ''curl'', JStr (curl_example (base_url c))),
                  (us ''python'', JStr PYTHON_EXAMPLE),
                  (us ''background'', JStr (background_example (base_url c)))]),
           (us ''failure_kinds'', JList (map failure_kind_json FAILURE_KINDS)),
           (us ''constraints'', JList (map JStr CONSTRAINTS)),
           (us ''config'',
            JObj [(us ''model'', JStr (model c)),
                  (us ''min_workers'', JInt (min_workers c)),
                  (us ''max_workers'', JInt (max_workers c)),
                  (us ''default_timeout_sec'', JFloat (default_timeout_sec c))])]"

definition error_schema :: json where
  "error_schema =
     JObj [(us ''type'', jstr ''object''),
           (us ''properties'',
            JObj [(us ''error'', JObj [(us ''type'', jstr ''string'')]),
                  (us ''kind'',
                   JObj [(us ''type'', jstr ''string''),
                         (us ''enum'', JList (map (\<lambda>f. JStr (doc_kind f)) FAILURE_KINDS))]),
                  (us ''retryable'', JObj [(us ''type'', jstr ''boolean'')]),
                  (us ''duration_ms'', JObj [(us ''type'', jstr ''integer'')])]),
           (us ''required'', JList [jstr ''error''])]"

definition json_error :: "(ustring, json) dict" where
  "json_error =
     [(us ''content'', JObj [(us ''application/json'', JObj [(us ''schema'', error_schema)])])]"

text \<open>\<open>_generate_responses\<close>: its first dict, one round of its loop, and the header put on the 429.\<close>

definition first_responses :: "(ustring, json) dict" where
  "first_responses =
     [(us ''200'',
       JObj [(us ''description'', jstr ''Completion''),
             (us ''content'',
              JObj [(us ''application/json'',
                     JObj [(us ''schema'',
                            JObj [(us ''type'', jstr ''object''),
                                  (us ''properties'',
                                   JObj [(us ''text'', JObj [(us ''type'', jstr ''string'')]),
                                         (us ''duration_ms'',
                                          JObj [(us ''type'', jstr ''integer'')])]),
                                  (us ''required'', JList [jstr ''text'', jstr ''duration_ms''])])])])]),
      (us ''400'', JObj ([(us ''description'', jstr ''Malformed request body'')] @ json_error))]"

definition description_of :: "json \<Rightarrow> ustring" where
  "description_of r =
     (case r of
        JObj d \<Rightarrow> (case map_of d (us ''description'') of Some (JStr s) \<Rightarrow> s | _ \<Rightarrow> [])
      | _ \<Rightarrow> [])"

definition kind_line :: "doc \<Rightarrow> ustring" where
  "kind_line f = doc_kind f @ us '': '' @ doc_meaning f"

definition add_response :: "doc \<Rightarrow> (ustring, json) dict \<Rightarrow> (ustring, json) dict" where
  "add_response f responses =
     (let code = show_int (doc_status f);
          line = kind_line f;
          previous = (case map_of responses code of None \<Rightarrow> [] | Some r \<Rightarrow> description_of r);
          description = (if previous = [] then line else previous @ [10, 10] @ line)
      in AList.update code (JObj ((us ''description'', JStr description) # json_error)) responses)"

fun with_headers :: "json \<Rightarrow> json \<Rightarrow> json" where
  "with_headers h (JObj d) = JObj (AList.update (us ''headers'') h d)"
| "with_headers h j = j"

definition generate_responses :: json where
  "generate_responses =
     JObj (AList.map_entry (us ''429'')
       (with_headers
         (JObj [(us ''Retry-After'',
                 JObj [(us ''schema'', JObj [(us ''type'', jstr ''integer'')]),
                       (us ''description'', jstr ''Seconds to wait before retrying'')])]))
       (fold add_response FAILURE_KINDS first_responses))"

definition health_schema :: json where
  "health_schema =
     JObj [(us ''type'', jstr ''object''),
           (us ''properties'',
            JObj [(us ''min_workers'', JObj [(us ''type'', jstr ''integer'')]),
                  (us ''max_workers'', JObj [(us ''type'', jstr ''integer'')]),
                  (us ''total'', JObj [(us ''type'', jstr ''integer'')]),
                  (us ''idle'', JObj [(us ''type'', jstr ''integer'')]),
                  (us ''idle_alive'', JObj [(us ''type'', jstr ''integer'')]),
                  (us ''busy'', JObj [(us ''type'', jstr ''integer'')]),
                  (us ''healthy'', JObj [(us ''type'', jstr ''boolean'')]),
                  (us ''jobs'',
                   JObj [(us ''type'', jstr ''object''),
                         (us ''properties'',
                          JObj [(us ''total'', JObj [(us ''type'', jstr ''integer'')]),
                                (us ''running'', JObj [(us ''type'', jstr ''integer'')])])]),
                  (us ''last_spawn_error'',
                   JObj [(us ''type'', JList [jstr ''string'', jstr ''null''])]),
                  (us ''last_error'',
                   JObj [(us ''type'', JList [jstr ''string'', jstr ''null''])])])]"

definition job_schema :: json where
  "job_schema =
     JObj [(us ''type'', jstr ''object''),
           (us ''properties'',
            JObj [(us ''job_id'', JObj [(us ''type'', jstr ''string'')]),
                  (us ''status'',
                   JObj [(us ''type'', jstr ''string''),
                         (us ''enum'',
                          JList [jstr ''running'', jstr ''succeeded'', jstr ''failed'', jstr ''cancelled''])]),
                  (us ''prompt_preview'', JObj [(us ''type'', jstr ''string'')]),
                  (us ''created_at'', JObj [(us ''type'', jstr ''number'')]),
                  (us ''finished_at'',
                   JObj [(us ''type'', JList [jstr ''number'', jstr ''null''])]),
                  (us ''text'', JObj [(us ''type'', jstr ''string'')]),
                  (us ''duration_ms'', JObj [(us ''type'', jstr ''integer'')]),
                  (us ''error'', JObj [(us ''type'', jstr ''string'')]),
                  (us ''kind'', JObj [(us ''type'', jstr ''string'')]),
                  (us ''retryable'', JObj [(us ''type'', jstr ''boolean'')])]),
           (us ''required'', JList [jstr ''job_id'', jstr ''status''])]"

definition job_id_param :: json where
  "job_id_param =
     JObj [(us ''name'', jstr ''job_id''),
           (us ''in'', jstr ''path''),
           (us ''required'', JBool True),
           (us ''schema'', JObj [(us ''type'', jstr ''string'')])]"

definition prompt_body :: "pool_config \<Rightarrow> json" where
  "prompt_body c =
     JObj [(us ''required'', JBool True),
           (us ''content'',
            JObj [(us ''application/json'',
                   JObj [(us ''schema'',
                          JObj [(us ''type'', jstr ''object''),
                                (us ''properties'',
                                 JObj [(us ''prompt'',
                                        JObj [(us ''type'', jstr ''string''),
                                              (us ''minLength'', JInt 1)]),
                                       (us ''timeout_sec'',
                                        JObj [(us ''type'', jstr ''number''),
                                              (us ''default'', JFloat (default_timeout_sec c))])]),
                                (us ''required'', JList [jstr ''prompt''])])])])]"

definition openapi_paths :: "pool_config \<Rightarrow> (ustring, json) dict" where
  "openapi_paths c =
     [(us ''/generate'',
       JObj [(us ''post'',
              JObj [(us ''summary'', jstr ''Run one prompt against a pre-warmed worker''),
                    (us ''requestBody'', prompt_body c),
                    (us ''responses'', generate_responses)])]),
      (us ''/jobs'',
       JObj [(us ''post'',
              JObj [(us ''summary'', jstr ''Submit a prompt to run in the background''),
                    (us ''requestBody'', prompt_body c),
                    (us ''responses'',
                     JObj [(us ''202'',
                            JObj [(us ''description'',
                                   jstr ''Job accepted; poll GET /jobs/{job_id}''),
                                  (us ''headers'',
                                   JObj [(us ''Location'',
                                          JObj [(us ''schema'',
                                                 JObj [(us ''type'', jstr ''string'')])])]),
                                  (us ''content'',
                                   JObj [(us ''application/json'',
                                          JObj [(us ''schema'', job_schema)])])]),
                           (us ''400'',
                            JObj ([(us ''description'', jstr ''Malformed request body'')] @ json_error)),
                           (us ''403'',
                            JObj ([(us ''description'',
                                   jstr ''Host header is not a loopback literal'')] @ json_error))])]),
             (us ''get'',
              JObj [(us ''summary'', jstr ''List known jobs, newest first''),
                    (us ''responses'',
                     JObj [(us ''200'',
                            JObj [(us ''description'', jstr ''Jobs''),
                                  (us ''content'',
                                   JObj [(us ''application/json'',
                                          JObj [(us ''schema'',
                                                 JObj [(us ''type'', jstr ''object''),
                                                       (us ''properties'',
                                                        JObj [(us ''jobs'',
                                                               JObj [(us ''type'',
                                                                      jstr ''array''),
                                                                     (us ''items'', job_schema)])])])])])])])])]),
      (us ''/jobs/{job_id}'',
       JObj [(us ''get'',
              JObj [(us ''summary'',
                     JStr (us ''Poll one job (always 200; read '' @ [96] @ us ''status'' @
                           [96] @ us '')'')),
                    (us ''parameters'', JList [job_id_param]),
                    (us ''responses'',
                     JObj [(us ''200'',
                            JObj [(us ''description'', jstr ''Job state''),
                                  (us ''content'',
                                   JObj [(us ''application/json'',
                                          JObj [(us ''schema'', job_schema)])])]),
                           (us ''404'',
                            JObj ([(us ''description'', jstr ''No such job'')] @ json_error))])]),
             (us ''delete'',
              JObj [(us ''summary'', jstr ''Cancel a running job, or forget a finished one''),
                    (us ''parameters'', JList [job_id_param]),
                    (us ''responses'',
                     JObj [(us ''200'',
                            JObj [(us ''description'', jstr ''Job after cancellation''),
                                  (us ''content'',
                                   JObj [(us ''application/json'',
                                          JObj [(us ''schema'', job_schema)])])]),
                           (us ''404'',
                            JObj ([(us ''description'', jstr ''No such job'')] @ json_error))])])]),
      (us ''/health'',
       JObj [(us ''get'',
              JObj [(us ''summary'', jstr ''Pool state and worker liveness''),
                    (us ''responses'',
                     JObj [(us ''200'',
                            JObj [(us ''description'', jstr ''Pool stats''),
                                  (us ''content'',
                                   JObj [(us ''application/json'',
                                          JObj [(us ''schema'', health_schema)])])])])])]),
      (us ''/'',
       JObj [(us ''get'',
              JObj [(us ''summary'',
                     JStr (us ''This API'' @ [39] @ us ''s self-description as JSON'')),
                    (us ''responses'',
                     JObj [(us ''200'', JObj [(us ''description'', jstr ''API info'')])])])]),
      (us ''/docs'',
       JObj [(us ''get'',
              JObj [(us ''summary'', jstr ''Human-readable docs''),
                    (us ''responses'',
                     JObj [(us ''200'', JObj [(us ''description'', jstr ''HTML page'')])])])]),
      (us ''/openapi.json'',
       JObj [(us ''get'',
              JObj [(us ''summary'', jstr ''This document''),
                    (us ''responses'',
                     JObj [(us ''200'', JObj [(us ''description'', jstr ''OpenAPI 3.1'')])])])])]"

definition openapi_spec :: "ustring \<Rightarrow> pool_config \<Rightarrow> json" where
  "openapi_spec ver c =
     JObj [(us ''openapi'', jstr ''3.1.0''),
           (us ''info'',
            JObj [(us ''title'', jstr ''claude-pool''),
                  (us ''version'', JStr ver),
                  (us ''description'',
                   JStr (SUMMARY @ [10, 10] @ us ''Constraints:'' @ [10] @
                         intercalate [10] (map (\<lambda>t. us ''- '' @ t) CONSTRAINTS)))]),
           (us ''servers'',
            JList [JObj [(us ''url'',
                          JStr (us ''http://'' @ host c @ us '':'' @ show_int (port c)))]]),
           (us ''paths'', JObj (openapi_paths c))]"

subsection \<open>The page\<close>

text \<open>\<open>html.escape\<close>.\<close>

definition escape_html_char :: "nat \<Rightarrow> ustring" where
  "escape_html_char ch =
     (if ch = 0x26 then us ''&amp;''
      else if ch = 0x3C then us ''&lt;''
      else if ch = 0x3E then us ''&gt;''
      else if ch = 0x22 then us ''&quot;''
      else if ch = 0x27 then us ''&#x27;''
      else [ch])"

definition escape_html :: "ustring \<Rightarrow> ustring" where
  "escape_html s = concat (map escape_html_char s)"

definition failure_row :: "doc \<Rightarrow> ustring" where
  "failure_row f =
     us ''<tr><td><code>'' @ escape_html (doc_kind f) @ us ''</code></td><td>'' @
     show_int (doc_status f) @ us ''</td><td>'' @
     (if doc_retryable f then us ''yes'' else us ''no'') @ us ''</td><td>'' @
     escape_html (doc_meaning f) @ us ''</td></tr>''"

definition failure_table :: ustring where
  "failure_table =
     (let rows = concat (map failure_row FAILURE_KINDS)
      in us ''<table><thead><tr><th>kind</th><th>HTTP</th><th>Retryable</th><th>Meaning</th></tr></thead><tbody>'' @
         rows @ us ''</tbody></table>'')"

definition endpoint_rows :: ustring where
  "endpoint_rows =
     concat (map (\<lambda>(k, v).
       us ''<tr><td><code>'' @ escape_html k @ us ''</code></td><td>'' @ escape_html v @
       us ''</td></tr>'') endpoints)"

definition constraint_items :: ustring where
  "constraint_items =
     concat (map (\<lambda>t. us ''<li>'' @ escape_html t @ us ''</li>'') CONSTRAINTS)"

definition render_html :: "ustring \<Rightarrow> (pyfloat \<Rightarrow> ustring) \<Rightarrow> pool_config \<Rightarrow> ustring" where
  "render_html ver float_repr c =
     us ''<!doctype html>'' @ [10] @ us ''<html lang='' @ [34] @ us ''en'' @ [34] @
     us ''><head><meta charset='' @ [34] @ us ''utf-8'' @ [34] @ us ''>'' @ [10] @
     us ''<meta name='' @ [34] @ us ''viewport'' @ [34] @ us '' content='' @ [34] @
     us ''width=device-width, initial-scale=1'' @ [34] @ us ''>'' @ [10] @
     us ''<title>claude-pool '' @ escape_html ver @ us ''</title>'' @ [10] @ us ''<style>'' @
     [10] @ us '' :root { color-scheme: light dark; }'' @ [10] @
     us '' body { font: 15px/1.6 ui-sans-serif, system-ui, sans-serif; max-width: '' @
     us ''62rem;'' @ [10] @ us ''        margin: 2rem auto; padding: 0 1.25rem; }'' @ [10] @
     us '' h1 { margin-bottom: .25rem; }'' @ [10] @
     us '' h1 small { font-weight: 400; opacity: .6; font-size: .55em; }'' @ [10] @
     us '' h2 { margin-top: 2rem; font-size: 1.1rem; }'' @ [10] @
     us '' table { border-collapse: collapse; width: 100%; margin: .75rem 0 1.5rem; '' @
     us ''}'' @ [10] @
     us '' th, td { text-align: left; padding: .4rem .6rem; border-bottom: 1px solid '' @
     us ''#8884;'' @ [10] @ us ''           vertical-align: top; }'' @ [10] @
     us '' code, pre { font-family: ui-monospace, SFMono-Regular, Menlo, monospace; '' @
     us ''}'' @ [10] @
     us '' pre { background: #8881; padding: .8rem 1rem; border-radius: 6px; overflow-x: '' @
     us ''auto; }'' @ [10] @
     us '' .warn { border-left: 3px solid #d97706; padding: .5rem .9rem; background: '' @
     us ''#d9770615; }'' @ [10] @ us ''</style></head><body>'' @ [10] @
     us ''<h1>claude-pool <small>'' @ escape_html ver @ us ''</small></h1>'' @ [10] @
     us ''<p>'' @ escape_html SUMMARY @ us ''</p>'' @ [10] @ us ''<p class='' @ [34] @
     us ''warn'' @ [34] @ us ''><strong>This spends the machine owner'' @ [39] @
     us ''s Claude subscription quota.</strong>'' @ [10] @
     us ''   Check with them before issuing bulk requests.</p>'' @ [10, 10] @
     us ''<h2>Endpoints</h2>'' @ [10] @
     us ''<table><thead><tr><th>Endpoint</th><th>Description</th></tr></thead>'' @ [10] @
     us ''<tbody>'' @ endpoint_rows @ us ''</tbody></table>'' @ [10, 10] @
     us ''<h2>Example</h2>'' @ [10] @ us ''<pre>'' @ escape_html (curl_example (base_url c)) @
     [10] @ us ''&rarr; {'' @ [34] @ us ''text'' @ [34] @ us '': '' @ [34] @ us ''PONG'' @
     [34] @ us '', '' @ [34] @ us ''duration_ms'' @ [34] @ us '': 1078}</pre>'' @ [10] @
     us ''<pre>'' @ escape_html PYTHON_EXAMPLE @ us ''</pre>'' @ [10, 10] @
     us ''<h3>Background jobs</h3>'' @ [10] @
     us ''<p><code>POST /generate</code> holds the connection open for the whole completion, '' @
     us ''which'' @ [10] @
     us ''   can be minutes. Submit to <code>/jobs</code> instead to get an id back '' @
     us ''immediately and'' @ [10] @ us ''   poll for the result. Same worker lifecycle '' @
     [8212] @ us '' only who waits changes.</p>'' @ [10] @ us ''<pre>'' @
     escape_html (background_example (base_url c)) @ us ''</pre>'' @ [10, 10] @
     us ''<h2>Failures</h2>'' @ [10] @
     us ''<p>The daemon classifies failures but never retries on your behalf '' @ [8212] @
     us '' retrying spends'' @ [10] @ us ''   quota, so that call is yours.</p>'' @ [10] @
     failure_table @ [10, 10] @ us ''<h2>Constraints</h2>'' @ [10] @ us ''<ul>'' @
     constraint_items @ us ''</ul>'' @ [10, 10] @ us ''<h2>This daemon</h2>'' @ [10] @
     us ''<table><tbody>'' @ [10] @ us ''<tr><td>Base URL</td><td><code>'' @
     escape_html (base_url c) @ us ''</code></td></tr>'' @ [10] @
     us ''<tr><td>Model</td><td><code>'' @ escape_html (model c) @ us ''</code></td></tr>'' @
     [10] @ us ''<tr><td>Workers</td><td>min '' @ show_int (min_workers c) @ us '' / max '' @
     show_int (max_workers c) @ us ''</td></tr>'' @ [10] @
     us ''<tr><td>Default timeout</td><td>'' @ float_repr (default_timeout_sec c) @
     us ''s</td></tr>'' @ [10] @ us ''</tbody></table>'' @ [10] @ us ''<p><a href='' @ [34] @
     us ''/openapi.json'' @ [34] @ us ''>openapi.json</a> &middot; <a href='' @ [34] @
     us ''/health'' @ [34] @ us ''>health</a></p>'' @ [10] @ us ''</body></html>''"

end
