(* ===== verification/ApiFacts.thy ===== *)
theory ApiFacts
  imports Apidocs "HOL-Library.Sublist"
begin

text \<open>
  The self-description against the code: the documented failures are the ones a request can
  meet, no documented failure is overwritten in the OpenAPI responses, and what the page shows
  of the configuration is escaped.
\<close>

subsection \<open>Failures\<close>

definition forbidden_host :: failure where
  "forbidden_host =
     \<lparr>kind = us ''forbidden_host'', status = 403, retryable = False, retry_after_sec = None\<rparr>"

definition doc_of :: "failure \<Rightarrow> ustring \<times> int \<times> bool" where
  "doc_of f = (kind f, status f, retryable f)"

definition documented :: "(ustring \<times> int \<times> bool) set" where
  "documented = (\<lambda>d. (doc_kind d, doc_status d, doc_retryable d)) ` set FAILURE_KINDS"

lemma known_failure_docs:
  "doc_of ` {f. known_failure f} =
     {(us ''rate_limited'', 429, True), (us ''not_authenticated'', 503, False),
      (us ''worker_failed'', 502, False), (us ''pool_unavailable'', 503, True),
      (us ''timeout'', 504, True)}" (is "_ = ?R")
proof
  show "doc_of ` {f. known_failure f} \<subseteq> ?R"
    by (auto simp: known_failure_def doc_of_def)
  have in_docs: "(k, c, b) \<in> doc_of ` {f. known_failure f}"
    if "known_failure \<lparr>kind = k, status = c, retryable = b, retry_after_sec = r\<rparr>" for k c b r
    using imageI [of "\<lparr>kind = k, status = c, retryable = b, retry_after_sec = r\<rparr>" _ doc_of] that
    by (simp add: doc_of_def)
  show "?R \<subseteq> doc_of ` {f. known_failure f}"
    using in_docs [of "us ''rate_limited''" 429 True "Some 60"]
      in_docs [of "us ''not_authenticated''" 503 False None]
      in_docs [of "us ''worker_failed''" 502 False None]
      in_docs [of "us ''pool_unavailable''" 503 True None]
      in_docs [of "us ''timeout''" 504 True None]
    by (simp add: known_failure_def)
qed

lemma documented_eq: "documented = insert (doc_of forbidden_host) (doc_of ` {f. known_failure f})"
  unfolding known_failure_docs
  by (auto simp: documented_def FAILURE_KINDS_def doc_of_def forbidden_host_def)

subsection \<open>The merged descriptions\<close>

definition description_at :: "ustring \<Rightarrow> (ustring, json) dict \<Rightarrow> ustring" where
  "description_at code responses =
     (case map_of responses code of None \<Rightarrow> [] | Some r \<Rightarrow> description_of r)"

lemma description_of_obj [simp]: "description_of (JObj ((us ''description'', JStr s) # d)) = s"
  by (simp add: description_of_def)

lemma description_add:
  "description_at code (add_response f responses) =
     (if code = show_int (doc_status f)
      then (if description_at code responses = [] then kind_line f
            else description_at code responses @ [10, 10] @ kind_line f)
      else description_at code responses)"
  by (simp add: description_at_def add_response_def Let_def dict.get_put)

lemma description_prefix:
  "prefix (description_at code responses) (description_at code (fold add_response fs responses))"
proof (induction fs arbitrary: responses)
  case (Cons f fs)
  have "prefix (description_at code responses) (description_at code (add_response f responses))"
    by (simp add: description_add)
  also note Cons.IH [of "add_response f responses"]
  finally show ?case by simp
qed simp

lemma description_merged:
  "f \<in> set fs \<Longrightarrow>
     sublist (kind_line f) (description_at (show_int (doc_status f)) (fold add_response fs responses))"
proof (induction fs arbitrary: responses)
  case (Cons g fs)
  show ?case
  proof (cases "f = g")
    case True
    have "suffix (kind_line g) (description_at (show_int (doc_status g)) (add_response g responses))"
      by (simp add: description_add suffix_def)
    then have "sublist (kind_line g) (description_at (show_int (doc_status g)) (add_response g responses))"
      by (rule suffix_imp_sublist)
    also have "sublist \<dots> (description_at (show_int (doc_status g)) (fold add_response fs (add_response g responses)))"
      by (rule prefix_imp_sublist [OF description_prefix])
    finally show ?thesis by (simp add: True)
  next
    case False
    with Cons show ?thesis by simp
  qed
qed simp

lemma description_with_headers [simp]: "description_of (with_headers h r) = description_of r"
  by (cases r) (simp_all add: description_of_def dict.get_put)

lemma description_map_entry:
  "description_at code (AList.map_entry k (with_headers h) d) = description_at code d"
  by (cases "map_of d code") (simp_all add: description_at_def)

subsection \<open>Escaping\<close>

lemma escape_html_char_safe: "set (escape_html_char ch) \<inter> {0x3C, 0x3E, 0x22, 0x27} = {}"
  by (simp add: escape_html_char_def us_def)

lemma escape_html_safe: "set (escape_html s) \<inter> {0x3C, 0x3E, 0x22, 0x27} = {}"
  using escape_html_char_safe by (fastforce simp: escape_html_def)

lemma escape_html_append [simp]: "escape_html (s @ t) = escape_html s @ escape_html t"
  by (simp add: escape_html_def)

text \<open>No two texts are shown alike: an entity starts with an ampersand and ends at its semicolon.\<close>

lemma escape_html_char_inj:
  "escape_html_char a @ xs = escape_html_char b @ ys \<Longrightarrow> a = b \<and> xs = ys"
  by (auto simp: escape_html_char_def us_def split: if_splits)

lemma escape_html_inj: "escape_html s = escape_html t \<Longrightarrow> s = t"
proof (induction s arbitrary: t)
  case Nil
  then show ?case by (cases t) (auto simp: escape_html_def escape_html_char_def us_def split: if_splits)
next
  case (Cons a s)
  have ne: "escape_html_char c \<noteq> []" for c by (simp add: escape_html_char_def)
  obtain b t' where t: "t = b # t'" using Cons.prems ne by (cases t) (auto simp: escape_html_def)
  from Cons.prems have "escape_html_char a @ escape_html s = escape_html_char b @ escape_html t'"
    by (simp add: t escape_html_def)
  from escape_html_char_inj [OF this] Cons.IH t show ?case by simp
qed

section \<open>Properties\<close>

text \<open>No documented failure is lost in the OpenAPI responses: kinds that share a status are merged, so
  the description under each kind's status holds that kind's line.\<close>

theorem responses_keep_all_kinds:
  "\<exists>d. generate_responses = JObj d \<and>
     list_all (\<lambda>f. sublist (kind_line f) (description_at (show_int (doc_status f)) d)) FAILURE_KINDS"
proof -
  have "sublist (kind_line f) (description_at (show_int (doc_status f))
      (AList.map_entry k (with_headers h) (fold add_response FAILURE_KINDS first_responses)))"
    if "f \<in> set FAILURE_KINDS" for f k h
    unfolding description_map_entry using that by (rule description_merged)
  then show ?thesis
    unfolding generate_responses_def json.inject list_all_iff by blast
qed

text \<open>What the page shows is escaped: an escaped text holds no angle bracket and no quote, so a
  configured value cannot leave its place in the markup, and different texts stay different.\<close>

theorem html_escaped:
  "set (escape_html s) \<inter> {0x3C, 0x3E, 0x22, 0x27} = {} \<and> inj escape_html"
  using escape_html_safe escape_html_inj by (auto simp: inj_def)

end
