(* ===== verification/Server.thy ===== *)
theory Server
  imports ApiFacts JobsProps
begin

text \<open>
  \<open>src/claude_pool/server.py\<close>: the Host check, the request body, the handlers and the routes. What
  aiohttp hands over is the input (the Host value, the decoded body text or the exception its
  decoding raised, the matched route), and a handler's end is the output: a response, an
  exception that aiohttp turns into a 500, or a cancellation.
\<close>

definition hostname_from_host_header :: "ustring \<Rightarrow> ustring" where
  "hostname_from_host_header h =
     (if h = [] then []
      else if hd h = 0x5B
      then (case find_char 0x5D h of
              Some e \<Rightarrow> drop 1 (take e h)
            | None \<Rightarrow> drop 1 h)
      else (let (head, found, tail) = rpartition 0x3A h
            in if found \<and> isdigit tail then head else h))"

subsection \<open>Responses\<close>

datatype body = JsonBody json | HtmlBody ustring

record response =
  response_status :: int
  response_headers :: "(ustring \<times> ustring) list"
  response_body :: body

datatype handled = Responds response | Escapes exn | Abandoned

definition json_response :: "json \<Rightarrow> int \<Rightarrow> (ustring \<times> ustring) list \<Rightarrow> handled" where
  "json_response j code hs =
     Responds \<lparr>response_status = code, response_headers = hs, response_body = JsonBody j\<rparr>"

definition error_response :: "ustring \<Rightarrow> int \<Rightarrow> handled" where
  "error_response msg code = json_response (JObj [(us ''error'', JStr msg)]) code []"

definition refuse_host :: "(nat \<Rightarrow> bool) \<Rightarrow> ustring \<Rightarrow> handled" where
  "refuse_host pr h =
     json_response
       (JObj [(us ''error'', JStr (us ''Host header '' @ repr_str pr h @ us '' is not a loopback address'')),
          (us ''kind'', JStr (kind forbidden_host)), (us ''retryable'', JBool False)]) 403 []"

definition require_loopback_host :: "(nat \<Rightarrow> bool) \<Rightarrow> ustring \<Rightarrow> (store \<Rightarrow> handled \<times> store) \<Rightarrow> store \<Rightarrow> handled \<times> store" where
  "require_loopback_host pr h handler S =
     (if \<not> is_loopback_host (hostname_from_host_header h) then (refuse_host pr h, S) else handler S)"

subsection \<open>The request body\<close>

text \<open>\<open>float(x)\<close> of a decoded value.\<close>

datatype converted = Float pyfloat | NotNumeric | TooLarge

fun as_float :: "json \<Rightarrow> converted" where
  "as_float (JInt n) = (case float_of_int n of None \<Rightarrow> TooLarge | Some f \<Rightarrow> Float f)"
| "as_float (JBool b) = Float (Finite (if b then 1 else 0))"
| "as_float (JFloat f) = Float f"
| "as_float (JStr s) = (case py_float s of None \<Rightarrow> NotNumeric | Some f \<Rightarrow> Float f)"
| "as_float _ = NotNumeric"

datatype prompt_request = Prompt ustring pyfloat | BadRequest ustring | BodyRaises exn

definition overflow_error :: exn where
  "overflow_error = Exn (us ''OverflowError'') (us ''int too large to convert to float'')"

definition read_prompt_request :: "pyfloat \<Rightarrow> exn + ustring \<Rightarrow> prompt_request" where
  "read_prompt_request default_timeout request_text =
     (case request_text of
        Inl e \<Rightarrow> BodyRaises e
      | Inr t \<Rightarrow>
          (case loads t of
             JSONDecodeError \<Rightarrow> BadRequest (us ''invalid JSON body'')
           | IntTooLong \<Rightarrow> BodyRaises int_too_long
           | Loaded (JObj d) \<Rightarrow>
               (case get d ''prompt'' of
                  JStr prompt \<Rightarrow>
                    (if prompt = [] then BadRequest (us [CHR 0x27] @ us ''prompt'' @ us [CHR 0x27] @ us '' is required'')
                     else (case as_float (get_or d ''timeout_sec'' (JFloat default_timeout)) of
                             Float f \<Rightarrow> Prompt prompt f
                           | NotNumeric \<Rightarrow>
                               BadRequest (us [CHR 0x27] @ us ''timeout_sec'' @ us [CHR 0x27] @ us '' must be numeric'')
                           | TooLarge \<Rightarrow> BodyRaises overflow_error))
                | _ \<Rightarrow> BadRequest (us [CHR 0x27] @ us ''prompt'' @ us [CHR 0x27] @ us '' is required''))
           | Loaded _ \<Rightarrow> BadRequest (us ''request body must be a JSON object'')))"

subsection \<open>Handlers\<close>

definition failure_response :: "outcome \<Rightarrow> handled" where
  "failure_response r =
     (case failed_as r of
        None \<Rightarrow> Escapes (Exn (us ''AttributeError'')
                  (us ([CHR 0x27] @ ''NoneType'' @ [CHR 0x27] @ '' object has no attribute '' @ [CHR 0x27] @ ''kind'' @ [CHR 0x27])))
      | Some f \<Rightarrow>
          json_response
            (JObj ([(us ''error'', error_text r), (us ''kind'', JStr (kind f)), (us ''retryable'', JBool (retryable f))] @
                   (if truthy (took_ms r) then [(us ''duration_ms'', took_ms r)] else [])))
            (status f)
            (case retry_after_sec f of None \<Rightarrow> [] | Some n \<Rightarrow> [(us ''Retry-After'', show_int n)]))"

definition handle_generate :: "pyfloat \<Rightarrow> exn + ustring \<Rightarrow> (ustring \<Rightarrow> pyfloat \<Rightarrow> exec_end) \<Rightarrow> handled" where
  "handle_generate default_timeout request_text run_prompt =
     (case read_prompt_request default_timeout request_text of
        BadRequest msg \<Rightarrow> error_response msg 400
      | BodyRaises e \<Rightarrow> Escapes e
      | Prompt prompt timeout \<Rightarrow>
          (case run_prompt prompt timeout of
             Cancelled \<Rightarrow> Abandoned
           | Raised e \<Rightarrow> Escapes e
           | Returned r \<Rightarrow>
               (if succeeded r
                then json_response (JObj [(us ''text'', answer r), (us ''duration_ms'', took_ms r)]) 200 []
                else failure_response r)))"

definition job_url :: "ustring \<Rightarrow> ustring" where
  "job_url jid = us ''/jobs/'' @ jid"

definition handle_submit_job :: "pyfloat \<Rightarrow> exn + ustring \<Rightarrow> ustring \<Rightarrow> rat \<Rightarrow> store \<Rightarrow> handled \<times> store" where
  "handle_submit_job default_timeout request_text jid now S =
     (case read_prompt_request default_timeout request_text of
        BadRequest msg \<Rightarrow> (error_response msg 400, S)
      | BodyRaises e \<Rightarrow> (Escapes e, S)
      | Prompt prompt timeout \<Rightarrow>
          (let (j, S') = submit prompt timeout jid now S
           in (json_response (JObj (to_dict j @ [(us ''url'', JStr (job_url (job_id j)))])) 202
                 [(us ''Location'', job_url (job_id j))], S')))"

definition no_such_job :: handled where
  "no_such_job = error_response (us ''no such job'') 404"

definition handle_get_job :: "ustring \<Rightarrow> store \<Rightarrow> handled \<times> store" where
  "handle_get_job jid S =
     ((case get_job jid S of None \<Rightarrow> no_such_job | Some j \<Rightarrow> json_response (JObj (to_dict j)) 200 []), S)"

definition handle_list_jobs :: "rat \<Rightarrow> store \<Rightarrow> handled \<times> store" where
  "handle_list_jobs now S =
     (let (js, S') = list_jobs now S
      in (json_response (JObj [(us ''jobs'', JList (map (\<lambda>j. JObj (to_dict j)) js))]) 200 [], S'))"

definition handle_cancel_job :: "(nat \<Rightarrow> bool) \<Rightarrow> ustring \<Rightarrow> exec_end \<Rightarrow> rat \<Rightarrow> store \<Rightarrow> handled \<times> store" where
  "handle_cancel_job pr jid e now S =
     (let (found, S') = cancel_job pr jid e now S
      in ((case found of None \<Rightarrow> no_such_job | Some j \<Rightarrow> json_response (JObj (to_dict j)) 200 []), S'))"

definition handle_health :: "ptable \<Rightarrow> pool \<Rightarrow> store \<Rightarrow> handled" where
  "handle_health T P S =
     json_response (JObj (AList.update (us ''jobs'') (JObj (job_stats S)) (stats T P))) 200 []"

subsection \<open>The application\<close>

text \<open>\<open>create_app\<close>: the store it makes when it is given none, and its routes.\<close>

definition app_jobs :: "pool \<Rightarrow> store option \<Rightarrow> store" where
  "app_jobs P given_jobs =
     (case given_jobs of
        Some S \<Rightarrow> S
      | None \<Rightarrow> new_store (job_retention_sec (config P)) (max_jobs (config P)))"

datatype route = Generate | Health | SubmitJob | ListJobs | GetJob | CancelJob | Index | Docs | OpenApi

definition routes :: "(ustring \<times> ustring \<times> route) list" where
  "routes =
     [(us ''POST'', us ''/generate'', Generate), (us ''GET'', us ''/health'', Health),
      (us ''POST'', us ''/jobs'', SubmitJob), (us ''GET'', us ''/jobs'', ListJobs),
      (us ''GET'', us ''/jobs/{job_id}'', GetJob), (us ''DELETE'', us ''/jobs/{job_id}'', CancelJob),
      (us ''GET'', us ''/'', Index), (us ''GET'', us ''/docs'', Docs),
      (us ''GET'', us ''/openapi.json'', OpenApi)]"

text \<open>
  A request, and what the world gives while it is served: the pool and its processes, the clock,
  the id a submit draws, and how an execution ends.
\<close>

record request =
  host_header :: ustring
  body_text :: "exn + ustring"
  match_job_id :: ustring

record world =
  is_printable :: "nat \<Rightarrow> bool"
  package_version :: ustring
  write_float :: "pyfloat \<Rightarrow> ustring"
  the_pool :: pool
  the_procs :: ptable
  time_now :: rat
  fresh_id :: ustring
  run_prompt :: "ustring \<Rightarrow> pyfloat \<Rightarrow> exec_end"
  cancelled_end :: exec_end

definition handle :: "world \<Rightarrow> route \<Rightarrow> request \<Rightarrow> store \<Rightarrow> handled \<times> store" where
  "handle W r q S =
     (let c = config (the_pool W)
      in case r of
           Generate \<Rightarrow> (handle_generate (default_timeout_sec c) (body_text q) (run_prompt W), S)
         | SubmitJob \<Rightarrow> handle_submit_job (default_timeout_sec c) (body_text q) (fresh_id W) (time_now W) S
         | GetJob \<Rightarrow> handle_get_job (match_job_id q) S
         | ListJobs \<Rightarrow> handle_list_jobs (time_now W) S
         | CancelJob \<Rightarrow> handle_cancel_job (is_printable W) (match_job_id q) (cancelled_end W) (time_now W) S
         | Health \<Rightarrow> (handle_health (the_procs W) (the_pool W) S, S)
         | Index \<Rightarrow> (json_response (api_info (package_version W) c) 200 [], S)
         | OpenApi \<Rightarrow> (json_response (openapi_spec (package_version W) c) 200 [], S)
         | Docs \<Rightarrow>
             (Responds \<lparr>response_status = 200, response_headers = [],
                response_body = HtmlBody (render_html (package_version W) (write_float W) c)\<rparr>, S))"

definition serve :: "world \<Rightarrow> route \<Rightarrow> request \<Rightarrow> store \<Rightarrow> handled \<times> store" where
  "serve W r q S = require_loopback_host (is_printable W) (host_header q) (handle W r q) S"

end
