(* ===== verification/Client.thy ===== *)
theory Client
  imports Config JsonFacts Worker
begin

text \<open>
  \<open>src/claude_pool/client.py\<close>. What the HTTP exchange brought is the input: a reply with its
  status, its \<open>Retry-After\<close> header and the bytes of its body, or the exception that ended it. The
  polling loops take the sequence of their probes and of the clock's readings.
\<close>

subsection \<open>Errors\<close>

record client_error =
  message :: json
  error_kind :: json
  is_retryable :: bool
  retry_after :: json

definition pool_error :: "ustring \<Rightarrow> client_error" where
  "pool_error msg =
     \<lparr>message = JStr msg, error_kind = jstr ''unknown'', is_retryable = False, retry_after = JNull\<rparr>"

datatype 'a result = Done 'a | Fails client_error | Throws exn

fun bind_result :: "'a result \<Rightarrow> ('a \<Rightarrow> 'b result) \<Rightarrow> 'b result" where
  "bind_result (Done a) f = f a"
| "bind_result (Fails e) f = Fails e"
| "bind_result (Throws x) f = Throws x"

subsection \<open>One call\<close>

text \<open>
  A reply's body is its bytes, or the exception reading them raised. \<open>urlopen\<close> raises HTTPError for a status outside 200 to 299.
\<close>

record reply =
  reply_status :: int
  retry_after_header :: "ustring option"
  reply_body :: "exn + bytes"

datatype exchange = Replied reply | TransportFailed exn

text \<open>The classes under OSError that CPython, \<open>socket\<close> and \<open>urllib\<close> define, and those under ValueError
  that decoding can raise.\<close>

definition os_errors :: "ustring list" where
  "os_errors = map us [''OSError'', ''BlockingIOError'', ''ChildProcessError'', ''ConnectionError'',
     ''BrokenPipeError'', ''ConnectionAbortedError'', ''ConnectionRefusedError'',
     ''ConnectionResetError'', ''RemoteDisconnected'', ''FileExistsError'', ''FileNotFoundError'',
     ''InterruptedError'', ''IsADirectoryError'', ''NotADirectoryError'', ''PermissionError'',
     ''ProcessLookupError'', ''TimeoutError'', ''gaierror'', ''herror'', ''SSLError'', ''URLError'',
     ''HTTPError'', ''ContentTooShortError'']"

definition value_errors :: "ustring list" where
  "value_errors = map us [''ValueError'', ''JSONDecodeError'', ''UnicodeError'', ''UnicodeDecodeError'']"

definition read_error :: "exn \<Rightarrow> bool" where
  "read_error e = (exn_class e \<in> set os_errors \<or> exn_class e \<in> set value_errors)"

definition get_json :: "exn + bytes \<Rightarrow> exn + json" where
  "get_json body = (case body of Inl e \<Rightarrow> Inl e | Inr bs \<Rightarrow> loads_bytes bs)"

definition bad_header :: exn where
  "bad_header = Exn (us ''ValueError'') (us ''invalid literal for int() with base 10'')"

text \<open>\<open>int(header) if header and header.isdigit() else None\<close>.\<close>

definition header_seconds :: "ustring option \<Rightarrow> exn + json" where
  "header_seconds h =
     (case h of
        None \<Rightarrow> Inr JNull
      | Some s \<Rightarrow>
          (if s \<noteq> [] \<and> isdigit s
           then (case py_int s of None \<Rightarrow> Inl bad_header | Some n \<Rightarrow> Inr (JInt n))
           else Inr JNull))"

definition error_from :: "reply \<Rightarrow> client_error result" where
  "error_from r =
     (let body = (case get_json (reply_body r) of
                    Inr j \<Rightarrow> Inr j
                  | Inl e \<Rightarrow> if read_error e then Inr (JObj []) else Inl e)
      in case body of
           Inl e \<Rightarrow> Throws e
         | Inr (JObj d) \<Rightarrow>
             (case (if get d ''retry_after_sec'' = JNull then header_seconds (retry_after_header r)
                    else Inr (get d ''retry_after_sec'')) of
                Inl e \<Rightarrow> Throws e
              | Inr after \<Rightarrow>
                  Done \<lparr>message = get_or d ''error'' (JStr (us ''HTTP '' @ show_int (reply_status r))),
                        error_kind = get_or d ''kind'' (jstr ''unknown''),
                        is_retryable = truthy (get_or d ''retryable'' (JBool False)),
                        retry_after = after\<rparr>)
         | Inr j \<Rightarrow> Throws (no_get j))"

definition call :: "exchange \<Rightarrow> json result" where
  "call x =
     (case x of
        TransportFailed e \<Rightarrow> Throws e
      | Replied r \<Rightarrow>
          (if 200 \<le> reply_status r \<and> reply_status r < 300
           then (case get_json (reply_body r) of Inl e \<Rightarrow> Throws e | Inr j \<Rightarrow> Done j)
           else bind_result (error_from r) Fails))"

definition key_error :: "string \<Rightarrow> exn" where
  "key_error k = Exn (us ''KeyError'') (us k)"

definition not_subscriptable :: "json \<Rightarrow> exn" where
  "not_subscriptable j = Exn (us ''TypeError'') (us (type_name j) @ us '' indices or subscription'')"

text \<open>\<open>body[k]\<close>.\<close>

definition item :: "string \<Rightarrow> json \<Rightarrow> json result" where
  "item k j =
     (case j of
        JObj d \<Rightarrow> (case map_of d (us k) of None \<Rightarrow> Throws (key_error k) | Some v \<Rightarrow> Done v)
      | _ \<Rightarrow> Throws (not_subscriptable j))"

definition prompt_payload :: "ustring \<Rightarrow> pyfloat option \<Rightarrow> json" where
  "prompt_payload prompt timeout =
     JObj ((us ''prompt'', JStr prompt) #
       (case timeout of None \<Rightarrow> [] | Some t \<Rightarrow> [(us ''timeout_sec'', JFloat t)]))"

definition request_body :: "(pyfloat \<Rightarrow> ustring) \<Rightarrow> json \<Rightarrow> ustring" where
  "request_body float_repr payload = dumps float_repr payload"

text \<open>\<open>generate\<close> waits for \<open>(timeout_sec or 120.0) + 5.0\<close> seconds.\<close>

fun plus5 :: "pyfloat \<Rightarrow> pyfloat" where
  "plus5 (Finite q) = Finite (q + 5)"
| "plus5 f = f"

definition request_timeout :: "pyfloat option \<Rightarrow> pyfloat" where
  "request_timeout timeout =
     plus5 (case timeout of None \<Rightarrow> Finite 120 | Some t \<Rightarrow> if t = Finite 0 then Finite 120 else t)"

definition client_generate :: "exchange \<Rightarrow> json result" where
  "client_generate x = bind_result (call x) (item ''text'')"

definition client_submit :: "exchange \<Rightarrow> json result" where
  "client_submit x = bind_result (call x) (item ''job_id'')"

definition client_jobs :: "exchange \<Rightarrow> json result" where
  "client_jobs x = bind_result (call x) (item ''jobs'')"

subsection \<open>Waiting for a job\<close>

text \<open>
  One poll of \<open>wait\<close>: \<open>None\<close> when it goes on to the deadline check. \<open>show_status\<close> is the f-string's
  text of the status and \<open>show_timeout\<close> that of the timeout.
\<close>

definition poll_job :: "json result \<Rightarrow> json result option" where
  "poll_job r =
     (case r of
        Fails e \<Rightarrow> Some (Fails e)
      | Throws e \<Rightarrow> Some (Throws e)
      | Done j \<Rightarrow>
          (case item ''status'' j of
             Fails e \<Rightarrow> Some (Fails e)
           | Throws e \<Rightarrow> Some (Throws e)
           | Done s \<Rightarrow>
               (if s = jstr ''succeeded'' then Some (item ''text'' j)
                else if s = jstr ''failed'' \<or> s = jstr ''cancelled''
                then (case j of
                        JObj d \<Rightarrow>
                          Some (Fails \<lparr>message = get_or d ''error'' s, error_kind = get_or d ''kind'' s,
                            is_retryable = truthy (get_or d ''retryable'' (JBool False)),
                            retry_after = get d ''retry_after_sec''\<rparr>)
                      | _ \<Rightarrow> Some (Throws (no_get j)))
                else None)))"

definition still_running :: "ustring \<Rightarrow> client_error" where
  "still_running msg =
     \<lparr>message = JStr msg, error_kind = jstr ''timeout'', is_retryable = True, retry_after = JNull\<rparr>"

text \<open>The loop, with fuel: \<open>None\<close> when it is still polling after that many polls.\<close>

fun wait_loop :: "nat \<Rightarrow> (nat \<Rightarrow> json result) \<Rightarrow> (nat \<Rightarrow> rat) \<Rightarrow> rat option \<Rightarrow> ustring \<Rightarrow> nat \<Rightarrow> json result option" where
  "wait_loop 0 poll now deadline msg i = None"
| "wait_loop (Suc fuel) poll now deadline msg i =
     (case poll_job (poll i) of
        Some r \<Rightarrow> Some r
      | None \<Rightarrow>
          (case deadline of
             Some t \<Rightarrow> (if now i \<ge> t then Some (Fails (still_running msg))
                       else wait_loop fuel poll now deadline msg (Suc i))
           | None \<Rightarrow> wait_loop fuel poll now deadline msg (Suc i)))"

definition client_wait :: "nat \<Rightarrow> (nat \<Rightarrow> json result) \<Rightarrow> rat \<Rightarrow> (nat \<Rightarrow> rat) \<Rightarrow> rat option \<Rightarrow> ustring \<Rightarrow> json result option" where
  "client_wait fuel poll began now timeout msg =
     wait_loop fuel poll now (map_option (\<lambda>t. began + t) timeout) msg 0"

subsection \<open>Starting the daemon\<close>

definition daemon_env :: "ustring \<Rightarrow> int \<Rightarrow> environment \<Rightarrow> environment" where
  "daemon_env client_host client_port env =
     env(''CLAUDE_POOL_HOST'' \<mapsto> client_host, ''CLAUDE_POOL_PORT'' \<mapsto> show_int client_port)"

text \<open>
  What \<open>_start_daemon\<close> hands to \<open>Popen\<close>; \<open>DETACHED_PROCESS\<close> is 8 and \<open>CREATE_NEW_PROCESS_GROUP\<close> 512.
\<close>

record launch =
  launch_argv :: "ustring list"
  launch_env :: environment
  launch_flags :: int

definition start_daemon :: "bool \<Rightarrow> ustring \<Rightarrow> ustring \<Rightarrow> int \<Rightarrow> environment \<Rightarrow> launch" where
  "start_daemon windows executable client_host client_port env =
     \<lparr>launch_argv = [executable, us ''-m'', us ''claude_pool.daemon''],
      launch_env = daemon_env client_host client_port env,
      launch_flags = (if windows then or 8 512 else 0)\<rparr>"

text \<open>
  \<open>_is_healthy\<close>: URLError, its subclass HTTPError (a status outside 200 to 299) and the other
  OSErrors count as silence; any other exception comes through.
\<close>

definition silence :: "exn \<Rightarrow> bool" where
  "silence e = (exn_class e \<in> set os_errors)"

definition is_healthy :: "exchange \<Rightarrow> exn + bool" where
  "is_healthy x =
     (case x of
        Replied r \<Rightarrow> Inr (200 \<le> reply_status r \<and> reply_status r < 300)
      | TransportFailed e \<Rightarrow> if silence e then Inr False else Inl e)"

text \<open>
  \<open>_wait_until_healthy\<close>, with fuel: reading \<open>i\<close> of the clock guards probe \<open>i\<close>. \<open>Inr True\<close> is a return,
  \<open>Inr False\<close> the deadline.
\<close>

fun healthy_loop :: "nat \<Rightarrow> (nat \<Rightarrow> exchange) \<Rightarrow> (nat \<Rightarrow> rat) \<Rightarrow> rat \<Rightarrow> nat \<Rightarrow> (exn + bool) option" where
  "healthy_loop 0 probe now deadline i = None"
| "healthy_loop (Suc fuel) probe now deadline i =
     (if now i < deadline
      then (case is_healthy (probe i) of
              Inl e \<Rightarrow> Some (Inl e)
            | Inr up \<Rightarrow> if up then Some (Inr True) else healthy_loop fuel probe now deadline (Suc i))
      else Some (Inr False))"

definition wait_until_healthy :: "nat \<Rightarrow> (nat \<Rightarrow> exchange) \<Rightarrow> rat \<Rightarrow> (nat \<Rightarrow> rat) \<Rightarrow> rat \<Rightarrow> unit result option" where
  "wait_until_healthy fuel probe began now timeout =
     map_option (\<lambda>r. case r of
         Inl e \<Rightarrow> Throws e
       | Inr ok \<Rightarrow> if ok then Done () else Fails (pool_error (us ''daemon did not become healthy in time'')))
       (healthy_loop fuel probe now (began + timeout) 0)"

text \<open>
  \<open>__init__\<close>: whether a daemon was launched, and whether the constructor returned. The first probe
  comes before the launch, which may fail itself.
\<close>

definition init_client :: "nat \<Rightarrow> bool \<Rightarrow> exchange \<Rightarrow> exn option \<Rightarrow> (nat \<Rightarrow> exchange) \<Rightarrow> rat \<Rightarrow> (nat \<Rightarrow> rat) \<Rightarrow> rat \<Rightarrow> bool \<times> unit result option" where
  "init_client fuel auto_start first launch_fault probe began now start_timeout =
     (if \<not> auto_start then (False, Some (Done ()))
      else (case is_healthy first of
              Inl e \<Rightarrow> (False, Some (Throws e))
            | Inr up \<Rightarrow>
                (if up then (False, Some (Done ()))
                 else (case launch_fault of
                         Some e \<Rightarrow> (False, Some (Throws e))
                       | None \<Rightarrow> (True, wait_until_healthy fuel probe began now start_timeout)))))"

subsection \<open>The requests\<close>

text \<open>What each method sends: method, path, JSON payload if any, and the socket's timeout.\<close>

record http_request =
  request_method :: ustring
  request_path :: ustring
  request_payload :: "json option"
  socket_timeout :: pyfloat

definition plain_request :: "string \<Rightarrow> ustring \<Rightarrow> rat \<Rightarrow> http_request" where
  "plain_request m path timeout =
     \<lparr>request_method = us m, request_path = path, request_payload = None, socket_timeout = Finite timeout\<rparr>"

definition generate_request :: "ustring \<Rightarrow> pyfloat option \<Rightarrow> http_request" where
  "generate_request prompt timeout =
     \<lparr>request_method = us ''POST'', request_path = us ''/generate'',
      request_payload = Some (prompt_payload prompt timeout), socket_timeout = request_timeout timeout\<rparr>"

definition submit_request :: "ustring \<Rightarrow> pyfloat option \<Rightarrow> http_request" where
  "submit_request prompt timeout =
     \<lparr>request_method = us ''POST'', request_path = us ''/jobs'',
      request_payload = Some (prompt_payload prompt timeout), socket_timeout = Finite 30\<rparr>"

definition job_request :: "ustring \<Rightarrow> http_request" where
  "job_request jid = plain_request ''GET'' (us ''/jobs/'' @ jid) 30"

definition jobs_request :: http_request where
  "jobs_request = plain_request ''GET'' (us ''/jobs'') 30"

definition cancel_request :: "ustring \<Rightarrow> http_request" where
  "cancel_request jid = plain_request ''DELETE'' (us ''/jobs/'' @ jid) 30"

definition health_request :: http_request where
  "health_request = plain_request ''GET'' (us ''/health'') 5"

definition info_request :: http_request where
  "info_request = plain_request ''GET'' (us ''/'') 5"

subsection \<open>Facts\<close>

lemma plain_prompt_payload: "clean prompt \<Longrightarrow> plain (prompt_payload prompt None)"
  by (simp add: prompt_payload_def us_def high_surrogate_def)

definition wait_turn :: "(nat \<Rightarrow> json result) \<Rightarrow> (nat \<Rightarrow> rat) \<Rightarrow> rat option \<Rightarrow> ustring \<Rightarrow> nat \<Rightarrow> json result option option" where
  "wait_turn poll now deadline msg i =
     (case poll_job (poll i) of
        Some r \<Rightarrow> Some (Some r)
      | None \<Rightarrow>
          (case deadline of
             Some t \<Rightarrow> if now i \<ge> t then Some (Some (Fails (still_running msg))) else None
           | None \<Rightarrow> None))"

interpretation waiting: fuelled_loop "\<lambda>n i. wait_loop n poll now deadline msg i" None "wait_turn poll now deadline msg"
proof unfold_locales
  show "wait_loop (Suc n) poll now deadline msg i =
      (case wait_turn poll now deadline msg i of Some r \<Rightarrow> r | None \<Rightarrow> wait_loop n poll now deadline msg (Suc i))" for n i
    by (cases "poll_job (poll i)"; cases deadline) (simp_all add: wait_turn_def)
  show "r \<noteq> None" if "wait_turn poll now deadline msg i = Some r" for i r
    using that by (cases "poll_job (poll i)"; cases deadline) (auto simp: wait_turn_def split: if_splits)
qed simp

definition probe_turn :: "(nat \<Rightarrow> exchange) \<Rightarrow> (nat \<Rightarrow> rat) \<Rightarrow> rat \<Rightarrow> nat \<Rightarrow> (exn + bool) option option" where
  "probe_turn probe now deadline i =
     (if now i < deadline
      then (case is_healthy (probe i) of
              Inl e \<Rightarrow> Some (Some (Inl e))
            | Inr up \<Rightarrow> if up then Some (Some (Inr True)) else None)
      else Some (Some (Inr False)))"

interpretation probing: fuelled_loop "\<lambda>n i. healthy_loop n probe now deadline i" None "probe_turn probe now deadline"
  by unfold_locales (auto simp: probe_turn_def split: sum.splits if_splits)

text \<open>A clock that a sleep of \<open>step\<close> moves on passes every deadline.\<close>

lemma clock_advances:
  fixes now :: "nat \<Rightarrow> rat"
  assumes "\<forall>i. now i + step \<le> now (Suc i)"
  shows "now 0 + of_nat n * step \<le> now n"
proof (induction n)
  case (Suc n)
  from Suc.IH assms [rule_format, of n] show ?case by (simp add: algebra_simps)
qed simp

lemma clock_reaches:
  fixes now :: "nat \<Rightarrow> rat"
  assumes "\<forall>i. now i + step \<le> now (Suc i)" "0 < step"
  shows "t \<le> now (nat \<lceil>(t - now 0) / step\<rceil>)"
proof -
  let ?n = "nat \<lceil>(t - now 0) / step\<rceil>"
  have "(t - now 0) / step \<le> of_nat ?n" by linarith
  then have "t - now 0 \<le> of_nat ?n * step" using assms(2) by (simp add: pos_divide_le_eq)
  with clock_advances [OF assms(1), of ?n] show ?thesis by linarith
qed

text \<open>The port survives \<open>str\<close> and \<open>int\<close>.\<close>

lemma show_nat_length: "n < 10 ^ k \<Longrightarrow> k > 0 \<Longrightarrow> length (show_nat n) \<le> k"
proof (induction k arbitrary: n)
  case (Suc k)
  show ?case
  proof (cases "n < 10")
    case True
    then show ?thesis by (subst show_nat.simps) simp
  next
    case False
    with Suc.prems have "n div 10 < 10 ^ k" "k > 0" by (auto simp: less_mult_imp_div_less) (cases k; simp)
    with Suc.IH False show ?thesis by (subst show_nat.simps) simp
  qed
qed simp

lemma port_reads_back: "0 \<le> p \<Longrightarrow> p < 65536 \<Longrightarrow> py_int (show_int p) = Some p"
  using py_int_show_nat [of "nat p"] show_nat_length [of "nat p" 5]
  by (simp add: show_int_def int_max_str_digits_def nat_less_iff)

section \<open>Properties\<close>

text \<open>C32.
  \<open>wait\<close> with a timeout returns: if each poll's sleep moves the clock on by at least a positive
  step, a number of polls fixed by the timeout and the step is enough, whatever they bring.\<close>

theorem wait_returns:
  assumes "\<forall>i. now i + step \<le> now (Suc i)" "0 < step"
  shows "\<exists>r. client_wait (Suc (nat \<lceil>(began + timeout - now 0) / step\<rceil>)) poll began now (Some timeout) msg = Some r"
proof -
  let ?n = "nat \<lceil>(began + timeout - now 0) / step\<rceil>"
  have "wait_turn poll now (Some (began + timeout)) msg (0 + ?n) \<noteq> None"
    using clock_reaches [OF assms, of "began + timeout"] by (auto simp: wait_turn_def split: option.split)
  from waiting.loop_ends [OF this] show ?thesis by (simp add: client_wait_def)
qed

theorem wait_returns_witness:
  "\<exists>r. client_wait 4 (\<lambda>_. Done (JObj [(us ''status'', jstr ''running'')])) 0 of_nat (Some 3) [] = Some r"
  using wait_returns [of "of_nat" 1 0 3 "\<lambda>_. Done (JObj [(us ''status'', jstr ''running'')])" "[]"]
  by (simp add: numeral_eq_Suc)

text \<open>\<open>wait\<close> answers with the first finished state it sees: while the polls say the job is running
  and the deadline has not passed it keeps on, and then it returns what that poll decides.\<close>

theorem wait_takes_first_finish:
  assumes "poll_job (poll n) = Some r" "\<forall>m < n. poll_job (poll m) = None"
    and "\<forall>m < n. now m < began + timeout"
  shows "client_wait (Suc n) poll began now (Some timeout) msg = Some r"
proof -
  have "wait_turn poll now (Some (began + timeout)) msg (0 + n) = Some (Some r)"
    and "\<forall>m < n. wait_turn poll now (Some (began + timeout)) msg (0 + m) = None"
    using assms by (auto simp: wait_turn_def not_le)
  from waiting.loop_settles [OF this] show ?thesis by (simp add: client_wait_def)
qed

theorem wait_takes_first_finish_witness:
  "client_wait 2 (\<lambda>i. if i = 0 then Done (JObj [(us ''status'', jstr ''running'')])
      else Done (JObj [(us ''status'', jstr ''succeeded''), (us ''text'', jstr ''PONG'')]))
     0 of_nat (Some 3) [] = Some (Done (jstr ''PONG''))"
  using wait_takes_first_finish [of "\<lambda>i. if i = 0 then Done (JObj [(us ''status'', jstr ''running'')])
      else Done (JObj [(us ''status'', jstr ''succeeded''), (us ''text'', jstr ''PONG'')])"
      1 "Done (jstr ''PONG'')" of_nat 0 3 "[]"]
  by (simp add: poll_job_def item_def numeral_2_eq_2)

text \<open>The constructor does not hang either: with the probe's sleep moving the clock on it returns a
  client or raises ClaudePoolError, and it launches a daemon only when nothing answered.\<close>

theorem constructor_returns:
  assumes "\<forall>i. now i + step \<le> now (Suc i)" "0 < step"
    and "init_client (Suc (nat \<lceil>(began + limit - now 0) / step\<rceil>)) auto first launch_fault probe began now limit = (launched, r)"
  shows "(launched \<longleftrightarrow> auto \<and> is_healthy first = Inr False \<and> launch_fault = None)
    \<and> (r = Some (Done ()) \<or> (\<exists>e. r = Some (Throws e))
       \<or> (launched \<and> r = Some (Fails (pool_error (us ''daemon did not become healthy in time'')))))"
proof -
  let ?fuel = "Suc (nat \<lceil>(began + limit - now 0) / step\<rceil>)"
  have "probe_turn probe now (began + limit) (0 + nat \<lceil>(began + limit - now 0) / step\<rceil>) \<noteq> None"
    using clock_reaches [OF assms(1,2), of "began + limit"] by (simp add: probe_turn_def not_less)
  from probing.loop_ends [OF this] obtain x where "healthy_loop ?fuel probe now (began + limit) 0 = Some x" by blast
  then have "wait_until_healthy ?fuel probe began now limit \<in>
      {Some (Done ()), Some (Fails (pool_error (us ''daemon did not become healthy in time'')))} \<union> range (\<lambda>e. Some (Throws e))"
    unfolding wait_until_healthy_def by (cases x) auto
  then show ?thesis using assms(3) unfolding init_client_def
    by (auto split: if_splits sum.splits option.splits)
qed

theorem constructor_returns_witness:
  "fst (init_client 16 True (TransportFailed (Exn (us ''ConnectionRefusedError'') [])) None
     (\<lambda>_. TransportFailed (Exn (us ''URLError'') [])) 0 of_nat 15)"
proof -
  let ?x = "TransportFailed (Exn (us ''ConnectionRefusedError'') [])"
  let ?run = "init_client 16 True ?x None (\<lambda>_. TransportFailed (Exn (us ''URLError'') [])) 0 of_nat 15"
  have "16 = Suc (nat \<lceil>(0 + 15 - of_nat 0) / (1::rat)\<rceil>)" by simp
  then have run: "init_client (Suc (nat \<lceil>(0 + 15 - of_nat 0) / (1::rat)\<rceil>)) True ?x None
      (\<lambda>_. TransportFailed (Exn (us ''URLError'') [])) 0 of_nat 15 = (fst ?run, snd ?run)" by simp
  have "is_healthy ?x = Inr False" by (simp add: is_healthy_def silence_def os_errors_def)
  with constructor_returns [OF _ _ run] show ?thesis by simp
qed

text \<open>C33.
  A daemon the client starts binds where the client will look for it: the configuration read from
  the environment handed over has the client's own host and port.\<close>

theorem daemon_binds_where_expected:
  assumes "from_env home (daemon_env h p env) = Inr c" "0 \<le> p" "p < 65536"
  shows "host c = h \<and> port c = p"
proof
  show "host c = h" using from_env_host [OF assms(1)] by (simp add: env_str_def daemon_env_def)
  have "env_int (daemon_env h p env) ''CLAUDE_POOL_PORT'' 8756 = Inr p"
    using port_reads_back [OF assms(2,3)] by (simp add: env_int_def daemon_env_def)
  with assms(1) show "port c = p"
    unfolding from_env_def and_then_Inr by (auto dest!: post_init_same)
qed

theorem daemon_binds_where_expected_witness:
  "\<exists>c. from_env [] (daemon_env (us ''127.0.0.1'') 8756 (\<lambda>_. None)) = Inr c \<and> port c = 8756"
proof -
  have p: "py_int (show_int 8756) = Some 8756" by (rule port_reads_back) simp_all
  have "from_env [] (daemon_env (us ''127.0.0.1'') 8756 (\<lambda>_. None)) = post_init (default_config [])"
    using p by (simp add: from_env_def env_claude_cmd_def env_int_def env_float_def env_str_def
        env_scratch_dir_def default_config_def daemon_env_def)
  then have f: "from_env [] (daemon_env (us ''127.0.0.1'') 8756 (\<lambda>_. None)) = Inr (default_config [])"
    by (simp add: default_valid)
  from daemon_binds_where_expected [OF f] f show ?thesis by simp
qed

text \<open>Every way the body can fail to load is one \<open>_error_from\<close> catches.\<close>

lemma loads_bytes_read_error: "loads_bytes bs = Inl e \<Longrightarrow> read_error e"
  using loads_bytes_errors [of bs e]
  by (auto simp: read_error_def value_errors_def bad_bytes_def json_error_exn_def int_too_long_def)

text \<open>A body that \<open>json.dumps\<close> wrote and UTF-8 encoded loads back.\<close>

lemma loads_bytes_dumps:
  assumes "plain j"
  shows "loads_bytes (the (utf8_encode (dumps fr j))) = Inr j"
proof -
  have "list_all (\<lambda>c. 0 < c \<and> c < 128) (dumps fr j)"
    by (rule list.pred_mono_strong [OF dumps_printable [OF assms]]) (simp add: printable_def)
  moreover from this have "list_all (\<lambda>c. c < 128) (dumps fr j)" by (rule list.pred_mono_strong) simp
  ultimately show ?thesis
    using loads_bytes_ascii loads_dumps [OF assms, of fr] by (simp add: utf8_encode_ascii loaded_value_def)
qed

text \<open>An error reply becomes ClaudePoolError with what its body says, the HTTP status standing in for
  a missing message and the \<open>Retry-After\<close> header for a missing \<open>retry_after_sec\<close>; a body that is
  not JSON is as good as an empty one.\<close>

theorem error_reply_reported:
  assumes "\<not> (200 \<le> reply_status r \<and> reply_status r < 300)"
    and "reply_body r = Inr bs" "loads_bytes bs = Inr (JObj d) \<or> (\<exists>e. loads_bytes bs = Inl e \<and> d = [])"
    and "retry_after_header r = map_option show_nat n" "\<forall>m. n = Some m \<longrightarrow> length (show_nat m) \<le> 4300"
  shows "call (Replied r) = Fails
    \<lparr>message = get_or d ''error'' (JStr (us ''HTTP '' @ show_int (reply_status r))),
     error_kind = get_or d ''kind'' (jstr ''unknown''),
     is_retryable = truthy (get_or d ''retryable'' (JBool False)),
     retry_after = (if get d ''retry_after_sec'' = JNull
                    then (case n of None \<Rightarrow> JNull | Some m \<Rightarrow> JInt (int m))
                    else get d ''retry_after_sec'')\<rparr>"
proof -
  have h: "header_seconds (retry_after_header r) = Inr (case n of None \<Rightarrow> JNull | Some m \<Rightarrow> JInt (int m))"
    using assms(4,5) show_nat_nonempty ascii_digit_isdigit [OF show_nat_nonempty show_nat_digits]
      py_int_show_nat by (auto simp: header_seconds_def int_max_str_digits_def split: option.splits)
  have "(case get_json (reply_body r) of Inr j \<Rightarrow> Inr j
      | Inl e \<Rightarrow> if read_error e then Inr (JObj []) else Inl e) = Inr (JObj d)"
    using assms(2,3) loads_bytes_read_error by (auto simp: get_json_def)
  then have "error_from r = Done
    \<lparr>message = get_or d ''error'' (JStr (us ''HTTP '' @ show_int (reply_status r))),
     error_kind = get_or d ''kind'' (jstr ''unknown''),
     is_retryable = truthy (get_or d ''retryable'' (JBool False)),
     retry_after = (if get d ''retry_after_sec'' = JNull
                    then (case n of None \<Rightarrow> JNull | Some m \<Rightarrow> JInt (int m))
                    else get d ''retry_after_sec'')\<rparr>"
    unfolding error_from_def Let_def by (simp add: h)
  moreover have "call (Replied r) = bind_result (error_from r) Fails"
    unfolding call_def exchange.case using assms(1) by (rule if_not_P)
  ultimately show ?thesis by simp
qed

theorem error_reply_reported_witness:
  "call (Replied \<lparr>reply_status = 503, retry_after_header = Some (show_nat 60), reply_body = Inr (map of_nat (us ''busy''))\<rparr>)
    = Fails \<lparr>message = JStr (us ''HTTP '' @ show_int 503), error_kind = jstr ''unknown'',
              is_retryable = False, retry_after = JInt 60\<rparr>"
proof -
  have "loads (us ''busy'') = JSONDecodeError" by code_simp
  then have "loads_bytes (map of_nat (us ''busy'')) = Inl json_error_exn"
    by (subst loads_bytes_ascii) (simp_all add: us_def loaded_value_def)
  moreover have "length (show_nat 60) \<le> 2" by (rule show_nat_length) simp_all
  ultimately show ?thesis
    using error_reply_reported [of "\<lparr>reply_status = 503, retry_after_header = Some (show_nat 60),
      reply_body = Inr (map of_nat (us ''busy''))\<rparr>" "map of_nat (us ''busy'')" "[]" "Some 60"]
    by (simp add: get_def get_or_def)
qed

end
