(* ===== verification/ServerProps.thy ===== *)
theory ServerProps
  imports Server Client
begin

text \<open>
  What the server promises: which Host values reach a handler, what a request body may be, and
  what the answers say about executions and jobs.
\<close>

subsection \<open>The Host header\<close>

lemma hostname_bare:
  assumes "58 \<notin> set h" "h = [] \<or> hd h \<noteq> 91"
  shows "hostname_from_host_header h = h"
  using assms by (auto simp: hostname_from_host_header_def rpartition_missing)

lemma hostname_port:
  assumes "h \<noteq> []" "hd h \<noteq> 91" "58 \<notin> set p" "isdigit p"
  shows "hostname_from_host_header (h @ 58 # p) = h"
  using assms by (simp add: hostname_from_host_header_def rpartition_found)

lemma hostname_brackets:
  assumes "93 \<notin> set a"
  shows "hostname_from_host_header (91 # a @ 93 # rest) = a"
proof -
  have "find_char 93 ((91 # a) @ 93 # rest) = Some (length (91 # a))"
    using assms by (intro find_char_append) simp
  then have "find_char 93 (91 # a @ 93 # rest) = Some (Suc (length a))" by simp
  then show ?thesis by (simp add: hostname_from_host_header_def del: find_char.simps)
qed

lemma ascii_digits_no_colon: "list_all ascii_digit p \<Longrightarrow> 58 \<notin> set p"
  by (auto simp: list_all_iff ascii_digit_def)

lemma serve_refused:
  "\<not> is_loopback_host (hostname_from_host_header (host_header q)) \<Longrightarrow>
     serve W r q S = (refuse_host (is_printable W) (host_header q), S)"
  by (simp add: serve_def require_loopback_host_def)

lemma serve_handled:
  "is_loopback_host (hostname_from_host_header (host_header q)) \<Longrightarrow> serve W r q S = handle W r q S"
  by (simp add: serve_def require_loopback_host_def)

lemma show_ipv4_chars: "58 \<notin> set (show_ipv4 a b c d)" "show_ipv4 a b c d \<noteq> []" "hd (show_ipv4 a b c d) \<noteq> 91"
proof -
  have dig: "list_all ascii_digit (show_nat n)" for n by (rule show_nat_digits)
  show "58 \<notin> set (show_ipv4 a b c d)"
    using ascii_digits_no_colon [OF dig] by (simp add: show_ipv4_def)
  show "show_ipv4 a b c d \<noteq> []" by (simp add: show_ipv4_def)
  have "ascii_digit (hd (show_nat a))" by (rule show_nat_hd)
  then have "hd (show_nat a) \<noteq> 91" by (auto simp: ascii_digit_def)
  then show "hd (show_ipv4 a b c d) \<noteq> 91" by (simp add: show_ipv4_def show_nat_nonempty)
qed

subsection \<open>Answers\<close>

definition answer_status :: "handled \<Rightarrow> int" where
  "answer_status h = (case h of Responds r \<Rightarrow> response_status r | _ \<Rightarrow> 500)"

lemma failure_response_known:
  assumes "failed_as r = Some f" "known_failure f"
  shows "failure_response r = json_response
      (JObj ([(us ''error'', error_text r), (us ''kind'', JStr (kind f)), (us ''retryable'', JBool (retryable f))] @
             (if truthy (took_ms r) then [(us ''duration_ms'', took_ms r)] else [])))
      (status f) (if kind f = us ''rate_limited'' then [(us ''Retry-After'', show_int 60)] else [])"
  using assms by (auto simp: failure_response_def known_failure_def)

lemma get_job_after:
  "handle_get_job jid S = (case map_of (jobs S) jid of None \<Rightarrow> (no_such_job, S)
     | Some j \<Rightarrow> (json_response (JObj (to_dict j)) 200 [], S))"
  by (simp add: handle_get_job_def get_job_def split: option.splits)

text \<open>What the client sends is what the server reads.\<close>

lemma client_prompt_read:
  assumes "clean prompt" "prompt \<noteq> []"
  shows "read_prompt_request default_timeout (Inr (dumps float_repr (prompt_payload prompt None)))
    = Prompt prompt default_timeout"
  using loads_dumps [OF plain_prompt_payload [OF assms(1)]] assms(2)
  by (simp add: read_prompt_request_def prompt_payload_def get_def get_or_def)

lemma pong_clean: "clean (us ''PONG'')"
  by (simp add: us_def high_surrogate_def)

lemmas pong_read = client_prompt_read [OF pong_clean, simplified]

text \<open>A world and a request to try things on.\<close>

definition small_world :: world where
  "small_world =
     \<lparr>is_printable = \<lambda>_. True, package_version = [], write_float = \<lambda>_. [],
      the_pool = new_pool (default_config []) None 0, the_procs = Map.empty, time_now = 0,
      fresh_id = us ''a'', run_prompt = \<lambda>_ _. Cancelled, cancelled_end = Cancelled\<rparr>"

definition asking :: "ustring \<Rightarrow> ustring \<Rightarrow> request" where
  "asking h t = \<lparr>host_header = h, body_text = Inr t, match_job_id = us ''x''\<rparr>"

lemma localhost_header: "hostname_from_host_header (us ''localhost'') = us ''localhost''"
  by (rule hostname_bare) (simp_all add: us_def)

section \<open>Properties\<close>

text \<open>What may follow the name in a Host value: nothing, or a colon and a port.\<close>

definition port_part :: "ustring \<Rightarrow> bool" where
  "port_part t \<longleftrightarrow> t = [] \<or> (hd t = 58 \<and> tl t \<noteq> [] \<and> list_all ascii_digit (tl t))"

lemma hostname_with_port:
  assumes "h \<noteq> []" "hd h \<noteq> 91" "58 \<notin> set h" "port_part t"
  shows "hostname_from_host_header (h @ t) = h"
proof (cases t)
  case Nil
  with assms show ?thesis by (simp add: hostname_bare)
next
  case (Cons c p)
  with assms show ?thesis
    by (auto simp: port_part_def intro!: hostname_port ascii_digits_no_colon ascii_digit_isdigit)
qed

lemma loopback_iff:
  "is_loopback_host h \<longleftrightarrow> h = us ''localhost''
     \<or> (case parse_ipv4 h of Some n \<Rightarrow> n div 2 ^ 24 = 127 | None \<Rightarrow> parse_ipv6 h = Some 1)"
  by (auto simp: is_loopback_host_def LOOPBACK_HOST_NAMES_def ip_address_def split: option.splits)

text \<open>C25.
  A page that rebinds its own name to the loopback address is refused, and so is everything else that does
  not name a loopback address. A request reaches its handler exactly if its host name is \<open>localhost\<close>, an IPv4
  literal in 127.0.0.0/8 or an IPv6 literal of ::1; any other is answered with 403 on every route, and neither
  an execution nor the job store sees it. In particular that is so, with a port or without, for every other DNS
  name and for every dotted quad that does not start with 127.\<close>

theorem dns_rebinding_refused:
  assumes "name = hostname_from_host_header (host_header q)"
  shows "serve W r q S =
      (if name = us ''localhost'' \<or>
          (case parse_ipv4 name of Some n \<Rightarrow> n div 2 ^ 24 = 127 | None \<Rightarrow> parse_ipv6 name = Some 1)
       then handle W r q S else (refuse_host (is_printable W) (host_header q), S))
    \<and> answer_status (refuse_host (is_printable W) (host_header q)) = 403
    \<and> (\<forall>h t. host_header q = h @ t \<and> port_part t \<and>
         (h \<noteq> us ''localhost'' \<and> h \<noteq> [] \<and> hd h \<noteq> 91 \<and> 58 \<notin> set h \<and> \<not> list_all ascii_digit (hd (split_on 46 h))
          \<or> (\<exists>a b c d. h = show_ipv4 a b c d \<and> a \<noteq> 127 \<and> a \<le> 255 \<and> b \<le> 255 \<and> c \<le> 255 \<and> d \<le> 255)) \<longrightarrow>
         serve W r q S = (refuse_host (is_printable W) (host_header q), S))"
proof (intro conjI allI impI)
  show "serve W r q S =
      (if name = us ''localhost'' \<or>
          (case parse_ipv4 name of Some n \<Rightarrow> n div 2 ^ 24 = 127 | None \<Rightarrow> parse_ipv6 name = Some 1)
       then handle W r q S else (refuse_host (is_printable W) (host_header q), S))"
    unfolding assms loopback_iff [symmetric] by (simp add: serve_def require_loopback_host_def)
  show "answer_status (refuse_host (is_printable W) (host_header q)) = 403"
    by (simp add: answer_status_def refuse_host_def json_response_def)
  fix h t
  assume h: "host_header q = h @ t \<and> port_part t \<and>
         (h \<noteq> us ''localhost'' \<and> h \<noteq> [] \<and> hd h \<noteq> 91 \<and> 58 \<notin> set h \<and> \<not> list_all ascii_digit (hd (split_on 46 h))
          \<or> (\<exists>a b c d. h = show_ipv4 a b c d \<and> a \<noteq> 127 \<and> a \<le> 255 \<and> b \<le> 255 \<and> c \<le> 255 \<and> d \<le> 255))"
  then have "hostname_from_host_header (host_header q) = h"
    using hostname_with_port [of h t] show_ipv4_chars by auto
  moreover have "\<not> is_loopback_host h" using h dns_name_refused [of h] other_v4_literal by blast
  ultimately show "serve W r q S = (refuse_host (is_printable W) (host_header q), S)"
    using serve_refused [of q W r S] by simp
qed

theorem dns_rebinding_refused_witness:
  "answer_status (fst (serve small_world Generate (asking (us ''evil.example:8756'') []) (new_store NaN 0))) = 403
   \<and> answer_status (fst (serve small_world Generate (asking (show_ipv4 10 0 0 1) []) (new_store NaN 0))) = 403"
proof
  let ?refused = "\<lambda>h. serve small_world Generate (asking h []) (new_store NaN 0) =
    (refuse_host (is_printable small_world) (host_header (asking h [])), new_store NaN 0) \<and>
    answer_status (refuse_host (is_printable small_world) (host_header (asking h []))) = 403"
  have "host_header (asking (us ''evil.example:8756'') []) = us ''evil.example'' @ us '':8756''"
    by (simp add: asking_def us_def)
  moreover have "port_part (us '':8756'')" by (simp add: port_part_def us_def ascii_digit_def)
  moreover have "us ''evil.example'' \<noteq> us ''localhost''" "us ''evil.example'' \<noteq> []" "hd (us ''evil.example'') \<noteq> 91"
    "58 \<notin> set (us ''evil.example'')" "\<not> list_all ascii_digit (hd (split_on 46 (us ''evil.example'')))"
    by (simp_all add: us_def ascii_digit_def)
  ultimately have "?refused (us ''evil.example:8756'')" using dns_rebinding_refused [OF refl] by blast
  then show "answer_status (fst (serve small_world Generate (asking (us ''evil.example:8756'') []) (new_store NaN 0))) = 403"
    by simp
  have "host_header (asking (show_ipv4 10 0 0 1) []) = show_ipv4 10 0 0 1 @ []" by (simp add: asking_def)
  moreover have "port_part []" by (simp add: port_part_def)
  moreover have "\<exists>a b c d. show_ipv4 10 0 0 1 = show_ipv4 a b c d \<and> a \<noteq> 127 \<and> a \<le> 255 \<and> b \<le> 255 \<and> c \<le> 255 \<and> d \<le> 255"
    by (rule exI [of _ 10], rule exI [of _ 0], rule exI [of _ 0], rule exI [of _ 1]) simp
  ultimately have "?refused (show_ipv4 10 0 0 1)" using dns_rebinding_refused [OF refl] by blast
  then show "answer_status (fst (serve small_world Generate (asking (show_ipv4 10 0 0 1) []) (new_store NaN 0))) = 403"
    by simp
qed

text \<open>C26.
  The daemon's own addresses are served: with Host \<open>localhost\<close>, any 127.x.y.z or a bracketed
  ::1, and any port or none, the request goes to its handler.\<close>

theorem loopback_hosts_served:
  assumes "b \<le> 255" "c \<le> 255" "d \<le> 255" "port_part t"
    and "host_header q \<in> {us ''localhost'' @ t, show_ipv4 127 b c d @ t, 91 # us ''::1'' @ 93 # t}"
  shows "serve W r q S = handle W r q S"
proof (rule serve_handled)
  have "hostname_from_host_header (us ''localhost'' @ t) = us ''localhost''"
    using assms(4) by (intro hostname_with_port) (simp_all add: us_def)
  moreover have "hostname_from_host_header (show_ipv4 127 b c d @ t) = show_ipv4 127 b c d"
    using assms(4) show_ipv4_chars by (intro hostname_with_port)
  moreover have "hostname_from_host_header (91 # us ''::1'' @ 93 # t) = us ''::1''"
    by (rule hostname_brackets) (simp add: us_def)
  ultimately show "is_loopback_host (hostname_from_host_header (host_header q))"
    using assms(5) localhost_loopback loopback_v4_literal [OF assms(1-3)] loopback_v6
    by (elim insertE emptyE) (simp_all only:)
qed

theorem loopback_hosts_served_witness:
  "serve small_world Health (asking (91 # us ''::1'' @ 93 # us '':8756'') []) (new_store NaN 0)
     = handle small_world Health (asking (91 # us ''::1'' @ 93 # us '':8756'') []) (new_store NaN 0)
   \<and> serve small_world Health (asking (us ''localhost'') []) (new_store NaN 0)
     = handle small_world Health (asking (us ''localhost'') []) (new_store NaN 0)"
proof
  have "port_part (us '':8756'')" "port_part []" by (simp_all add: port_part_def us_def ascii_digit_def)
  note served = loopback_hosts_served [OF _ _ _ this(1), of 0 0 1] loopback_hosts_served [OF _ _ _ this(2), of 0 0 1]
  show "serve small_world Health (asking (91 # us ''::1'' @ 93 # us '':8756'') []) (new_store NaN 0)
     = handle small_world Health (asking (91 # us ''::1'' @ 93 # us '':8756'') []) (new_store NaN 0)"
    by (rule served(1)) (simp_all add: asking_def)
  show "serve small_world Health (asking (us ''localhost'') []) (new_store NaN 0)
     = handle small_world Health (asking (us ''localhost'') []) (new_store NaN 0)"
    by (rule served(2)) (simp_all add: asking_def)
qed







text \<open>C28.
  \<open>/generate\<close> answers with the documented statuses: 200 with the text, 400 for a bad request, and
  for a failed execution the status of its kind, with \<open>kind\<close> and \<open>retryable\<close> in the body and a
  \<open>Retry-After\<close> of 60 exactly for a rate limit.\<close>

theorem generate_answers:
  assumes "read_prompt_request default_timeout txt = Prompt prompt timeout"
    and "exec prompt timeout = fst (execute a r severed P)" "exec prompt timeout = Returned out"
  shows "\<exists>d hs code. handle_generate default_timeout txt exec = json_response (JObj d) code hs \<and>
    (if succeeded out then code = 200 \<and> get d ''text'' = answer out
     else \<exists>f. failed_as out = Some f \<and> known_failure f \<and> code = status f
       \<and> get d ''kind'' = JStr (kind f) \<and> get d ''retryable'' = JBool (retryable f)
       \<and> hs = (if kind f = us ''rate_limited'' then [(us ''Retry-After'', show_int 60)] else []))"
proof (cases "succeeded out")
  case True
  then show ?thesis using assms(1,3) by (simp add: handle_generate_def json_response_def get_def get_or_def)
next
  case False
  have "sound_outcome out" using execute_sound assms(2,3) by metis
  with False obtain f where f: "failed_as out = Some f" "known_failure f"
    by (auto simp: sound_outcome_def split: option.splits)
  have "handle_generate default_timeout txt exec = failure_response out"
    using False assms(1,3) by (simp add: handle_generate_def)
  with failure_response_known [OF f] False f show ?thesis
    by (auto simp: json_response_def get_def get_or_def)
qed

theorem generate_answers_witness:
  "\<exists>d hs. handle_generate (Finite 120) (Inr (dumps (\<lambda>_. []) (prompt_payload (us ''PONG'') None)))
     (\<lambda>_ _. unavailable_end) = json_response (JObj d) 503 hs \<and> get d ''kind'' = jstr ''pool_unavailable''"
proof -
  let ?out = "failed_outcome (JStr (us ''busy'')) pool_unavailable (JInt 0)"
  have "unavailable_end = fst (execute (NoWorker (us ''busy'')) RunCancelled False (new_pool (default_config []) None 0))"
    by (simp add: unavailable_end_def Let_def)
  moreover have "unavailable_end = Returned ?out" by (simp add: unavailable_end_def)
  ultimately have "\<exists>d hs code. handle_generate (Finite 120) (Inr (dumps (\<lambda>_. []) (prompt_payload (us ''PONG'') None)))
       (\<lambda>_ _. unavailable_end) = json_response (JObj d) code hs \<and>
    (if succeeded ?out then code = 200 \<and> get d ''text'' = answer ?out
     else \<exists>f. failed_as ?out = Some f \<and> known_failure f \<and> code = status f
       \<and> get d ''kind'' = JStr (kind f) \<and> get d ''retryable'' = JBool (retryable f)
       \<and> hs = (if kind f = us ''rate_limited'' then [(us ''Retry-After'', show_int 60)] else []))"
    by (rule generate_answers [where exec = "\<lambda>_ _. unavailable_end", OF pong_read])
  then show ?thesis by (auto simp: failed_outcome_def pool_unavailable_def)
qed

text \<open>Every documented failure is the end of some execution.\<close>

lemma failure_reachable:
  assumes "known_failure f"
  shows "\<exists>a r P out. fst (execute a r False P) = Returned out \<and> failed_as out = Some f \<and> \<not> succeeded out"
proof -
  let ?P = "new_pool (default_config []) None 0"
  let ?ends = "\<lambda>n. RunEnds (RanResult (result_of [(us ''is_error'', JBool True), (us ''api_error_status'', JInt n)] []))"
  have run: "\<exists>out. fst (execute a r False ?P) = Returned out \<and> failed_as out = Some f \<and> \<not> succeeded out
      \<Longrightarrow> ?thesis" for a r by blast
  from assms consider
      "f = \<lparr>kind = us ''rate_limited'', status = 429, retryable = True, retry_after_sec = Some 60\<rparr>"
    | "f = \<lparr>kind = us ''not_authenticated'', status = 503, retryable = False, retry_after_sec = None\<rparr>"
    | "f = classify_nothing" | "f = pool_unavailable" | "f = timed_out"
    by (cases f) (auto simp: known_failure_def classify_nothing_def pool_unavailable_def timed_out_def)
  then show ?thesis
  proof cases
    case 1
    then show ?thesis by (intro run [of "Acquired new_worker" "?ends 429"])
        (simp add: run_outcome_def result_of_def get_def get_or_def classify_int failed_outcome_def)
  next
    case 2
    then show ?thesis by (intro run [of "Acquired new_worker" "?ends 401"])
        (simp add: run_outcome_def result_of_def get_def get_or_def classify_int failed_outcome_def)
  next
    case 3
    then show ?thesis by (intro run [of "Acquired new_worker" "RunEnds (RanWorkerError [])"])
        (simp add: run_outcome_def failed_outcome_def)
  next
    case 4
    then show ?thesis by (intro run [of "NoWorker []" RunCancelled]) (simp add: failed_outcome_def Let_def)
  next
    case 5
    then show ?thesis by (intro run [of "Acquired new_worker" "RunEnds RanTimeout"])
        (simp add: run_outcome_def failed_outcome_def)
  qed
qed

text \<open>What \<open>/generate\<close> can answer as a failure, over every Host, body, configuration and end of an
  execution: the status and what the body says.\<close>

definition failure_answers :: "(ustring \<times> int \<times> bool) set" where
  "failure_answers =
     {(k, code, again). \<exists>W q S d hs.
        (\<forall>prompt timeout. \<exists>a r severed P. run_prompt W prompt timeout = fst (execute a r severed P))
        \<and> fst (serve W Generate q S) = json_response (JObj d) code hs
        \<and> get d ''kind'' = JStr k \<and> get d ''retryable'' = JBool again}"

lemma failure_answers_known:
  assumes "(k, code, again) \<in> failure_answers"
  shows "(k, code, again) = doc_of forbidden_host \<or> (\<exists>f. known_failure f \<and> (k, code, again) = doc_of f)"
proof -
  from assms obtain W q S d hs where run:
    "\<forall>prompt timeout. \<exists>a r severed P. run_prompt W prompt timeout = fst (execute a r severed P)"
    and served: "fst (serve W Generate q S) = json_response (JObj d) code hs"
    and said: "get d ''kind'' = JStr k" "get d ''retryable'' = JBool again"
    unfolding failure_answers_def by blast
  show ?thesis
  proof (cases "is_loopback_host (hostname_from_host_header (host_header q))")
    case False
    with served said show ?thesis
      by (auto simp: serve_refused refuse_host_def json_response_def get_def get_or_def doc_of_def forbidden_host_def)
  next
    case True
    let ?dt = "default_timeout_sec (config (the_pool W))"
    have h: "handle_generate ?dt (body_text q) (run_prompt W) = json_response (JObj d) code hs"
      using served True by (simp add: serve_handled handle_def Let_def)
    then obtain prompt timeout where read: "read_prompt_request ?dt (body_text q) = Prompt prompt timeout"
      using said(1) by (cases "read_prompt_request ?dt (body_text q)")
        (auto simp: handle_generate_def error_response_def json_response_def get_def get_or_def)
    with h obtain out where out: "run_prompt W prompt timeout = Returned out"
      by (cases "run_prompt W prompt timeout") (auto simp: handle_generate_def json_response_def)
    obtain a r severed P where "run_prompt W prompt timeout = fst (execute a r severed P)" using run by blast
    then have "sound_outcome out" using execute_sound [of a r severed P out] out by simp
    have ns: "\<not> succeeded out"
      using h read out said(1) by (auto simp: handle_generate_def json_response_def get_def get_or_def)
    then obtain f where f: "failed_as out = Some f" "known_failure f"
      using \<open>sound_outcome out\<close> by (auto simp: sound_outcome_def split: option.splits)
    have "failure_response out = json_response (JObj d) code hs" using h read out ns by (simp add: handle_generate_def)
    with failure_response_known [OF f] said have "(k, code, again) = doc_of f"
      by (auto simp: json_response_def get_def get_or_def doc_of_def)
    with f(2) show ?thesis by blast
  qed
qed

lemma failure_answers_all:
  assumes "known_failure f"
  shows "doc_of f \<in> failure_answers"
proof -
  obtain a r P out where out: "fst (execute a r False P) = Returned out" "failed_as out = Some f" "\<not> succeeded out"
    using failure_reachable [OF assms] by blast
  let ?W = "small_world\<lparr>run_prompt := \<lambda>_ _. Returned out\<rparr>"
  let ?q = "asking (us ''localhost'') (dumps (\<lambda>_. []) (prompt_payload (us ''PONG'') None))"
  have host: "host_header ?q = us ''localhost''" and sent: "body_text ?q = Inr (dumps (\<lambda>_. []) (prompt_payload (us ''PONG'') None))"
    by (simp_all add: asking_def)
  have "fst (serve ?W Generate ?q (new_store NaN 0)) = failure_response out"
    using out(3) pong_read [of _ "\<lambda>_. []"]
    by (simp add: serve_handled host localhost_header localhost_loopback handle_def Let_def handle_generate_def sent
        del: dumps.simps)
  moreover have "\<exists>a r severed P. run_prompt ?W prompt timeout = fst (execute a r severed P)" for prompt timeout
    using out(1) [symmetric] by simp blast
  moreover note failure_response_known [OF out(2) assms]
  ultimately show ?thesis unfolding failure_answers_def doc_of_def
    by (fastforce simp: get_def get_or_def)
qed

lemma failure_answers_refusal: "doc_of forbidden_host \<in> failure_answers"
proof -
  let ?q = "asking (us ''evil'') []"
  have "hostname_from_host_header (us ''evil'') = us ''evil''" by (rule hostname_bare) (simp_all add: us_def)
  moreover have "\<not> is_loopback_host (us ''evil'')" by (rule dns_name_refused) (simp_all add: us_def ascii_digit_def)
  ultimately have "fst (serve small_world Generate ?q (new_store NaN 0)) = refuse_host (\<lambda>_. True) (us ''evil'')"
    by (simp add: serve_refused asking_def small_world_def)
  moreover have "run_prompt small_world prompt timeout = fst (execute AcquireCancelled RunCancelled False undefined)"
    for prompt timeout by (simp add: small_world_def)
  ultimately show ?thesis unfolding failure_answers_def doc_of_def
    by (fastforce simp: get_def get_or_def refuse_host_def forbidden_host_def)
qed

text \<open>C31.
  The table of failures the daemon serves is exactly what a caller of \<open>/generate\<close> can meet: the answers that
  carry a kind, over every request and every way an execution can end, are the documented ones with the
  documented status and \<open>retryable\<close>, and each documented one is the answer to some request.\<close>

theorem failures_documented:
  "failure_answers = (\<lambda>d. (doc_kind d, doc_status d, doc_retryable d)) ` set FAILURE_KINDS"
proof -
  have "failure_answers = insert (doc_of forbidden_host) (doc_of ` {f. known_failure f})"
    using failure_answers_all failure_answers_refusal
    by (intro equalityI subsetI) (force dest: failure_answers_known, blast)
  then show ?thesis using documented_eq by (simp add: documented_def)
qed

text \<open>C29.
  A submitted job can be collected: the 202 answer names its id and its URL, and asking for that
  id right after gives the same job, which the store is running.\<close>

theorem submit_then_get:
  assumes "read_prompt_request default_timeout txt = Prompt prompt timeout"
    and "handle_submit_job default_timeout txt jid now S = (h, S')"
  shows "\<exists>j. h = json_response (JObj (to_dict j @ [(us ''url'', JStr (us ''/jobs/'' @ jid))])) 202
            [(us ''Location'', us ''/jobs/'' @ jid)]
    \<and> job_id j = jid \<and> job_status j = RUNNING
    \<and> handle_get_job jid S' = (json_response (JObj (to_dict j)) 200 [], S')"
proof -
  let ?j = "new_job jid prompt timeout now"
  have S': "S' = snd (submit prompt timeout jid now S)"
    and h: "h = json_response (JObj (to_dict ?j @ [(us ''url'', JStr (us ''/jobs/'' @ jid))])) 202
      [(us ''Location'', us ''/jobs/'' @ jid)]"
    using assms by (simp_all add: handle_submit_job_def submit_def Let_def job_url_def)
  have "map_of (jobs S') jid = Some ?j" by (simp add: S' submit_def Let_def dict.get_put)
  then have "handle_get_job jid S' = (json_response (JObj (to_dict ?j)) 200 [], S')"
    by (simp add: get_job_after)
  with h show ?thesis by (intro exI [of _ ?j]) (simp add: new_job_def)
qed

theorem submit_then_get_witness:
  "\<exists>j. fst (handle_get_job (us ''a'') (snd (handle_submit_job (Finite 120)
     (Inr (dumps (\<lambda>_. []) (prompt_payload (us ''PONG'') None))) (us ''a'') 0 (new_store (Finite 600) 1))))
     = json_response (JObj (to_dict j)) 200 [] \<and> job_status j = RUNNING"
  using submit_then_get [OF pong_read surjective_pairing, of "Finite 120" "\<lambda>_. []" "us ''a''" 0 "new_store (Finite 600) 1"]
  by auto

text \<open>\<open>/health\<close> tells dead workers from missing ones: its \<open>healthy\<close> is true exactly when every idle
  worker the pool counts is alive, and its \<open>idle\<close> and \<open>busy\<close> add up to its \<open>total\<close>.\<close>

theorem health_tells_dead_workers:
  "\<exists>d i b. handle_health T P S = json_response (JObj d) 200 []
    \<and> get d ''healthy'' = JBool (list_all (is_alive T) (idle P))
    \<and> get d ''idle'' = JInt i \<and> get d ''busy'' = JInt b \<and> get d ''total'' = JInt (i + b)
    \<and> get d ''jobs'' = JObj (job_stats S)"
proof -
  have "idle_alive T P = int (length (idle P)) \<longleftrightarrow> filter (is_alive T) (idle P) = idle P"
    unfolding idle_alive_def of_nat_eq_iff by (metis filter_id_conv length_filter_less nat_neq_iff)
  then have "idle_alive T P = int (length (idle P)) \<longleftrightarrow> list_all (is_alive T) (idle P)"
    by (simp add: filter_id_conv list_all_iff)
  then show ?thesis
    by (simp add: handle_health_def stats_def json_response_def get_def get_or_def dict.get_put)
qed

text \<open>The tables agree: the routes, the endpoints the index lists, and the operations of the OpenAPI
  document, method for method.\<close>

definition operations :: "(ustring, json) dict \<Rightarrow> (ustring \<times> ustring) list" where
  "operations paths =
     concat (map (\<lambda>(path, item). case item of
         JObj ops \<Rightarrow> map (\<lambda>(verb, _). (map (\<lambda>ch. ch - 32) verb, path)) ops | _ \<Rightarrow> []) paths)"

lemma routes_documented:
  "set (map (\<lambda>(m, path, r). m @ us '' '' @ path) routes) = set (map fst endpoints)
    \<and> set (map (\<lambda>(m, path, r). (m, path)) routes) = set (operations (openapi_paths c))"
  by (simp add: routes_def endpoints_def openapi_paths_def operations_def) (auto simp: us_def)

text \<open>Every request the client can send is one the server routes, to the handler it is meant for.\<close>

definition path_for :: "ustring \<Rightarrow> ustring \<Rightarrow> ustring" where
  "path_for jid template = (if template = us ''/jobs/{job_id}'' then us ''/jobs/'' @ jid else template)"

theorem client_requests_routed:
  "list_all (\<lambda>(q, r). list_ex (\<lambda>(m, template, r').
        r' = r \<and> m = request_method q \<and> path_for jid template = request_path q) routes)
     [(generate_request prompt timeout, Generate), (submit_request prompt timeout, SubmitJob),
      (job_request jid, GetJob), (jobs_request, ListJobs), (cancel_request jid, CancelJob),
      (health_request, Health), (info_request, Index)]"
  by (simp add: routes_def path_for_def generate_request_def submit_request_def job_request_def
      jobs_request_def cancel_request_def health_request_def info_request_def plain_request_def)

lemma huge_number: "\<exists>n::int. float_overflow \<le> of_int n \<and> 0 \<le> n \<and> length (show_nat (nat n)) \<le> 401"
proof (intro exI conjI)
  have "float_overflow \<le> (2::rat) ^ 1024" by (simp add: float_overflow_def)
  also have "\<dots> \<le> 2 ^ (3 * 400)" by (rule power_increasing) simp_all
  also have "\<dots> = (2 ^ 3) ^ 400" by (rule power_mult)
  also have "\<dots> \<le> 10 ^ 400" by (rule power_mono) simp_all
  also have "\<dots> = of_int (10 ^ 400)" by (simp only: of_int_power of_int_numeral)
  finally show "float_overflow \<le> of_int (10 ^ 400)" .
  show "0 \<le> (10::int) ^ 400" by (rule zero_le_power) simp
  have "(10::nat) ^ 400 < 10 ^ 401" by (rule power_strict_increasing) simp_all
  then have "length (show_nat (10 ^ 400)) \<le> 401" by (rule show_nat_length) simp
  moreover have "nat ((10::int) ^ 400) = 10 ^ 400" by (simp only: nat_power_eq nat_numeral zero_le_numeral)
  ultimately show "length (show_nat (nat (10 ^ 400))) \<le> 401" by (simp only:)
qed

text \<open>A timeout too large for a float is not a bad request: \<open>float(10 ** 400)\<close> raises OverflowError,
  which the handler does not catch, so the caller gets a 500.\<close>

theorem huge_timeout_escapes:
  "\<exists>txt e. (\<exists>d. loads txt = Loaded (JObj d)) \<and> read_prompt_request (Finite 120) (Inr txt) = BodyRaises e
     \<and> handle_generate (Finite 120) (Inr txt) exec = Escapes e"
proof -
  obtain n :: int where n: "float_overflow \<le> of_int n" "0 \<le> n" "length (show_nat (nat n)) \<le> 401"
    using huge_number by blast
  let ?d = "[(us ''prompt'', jstr ''x''), (us ''timeout_sec'', JInt n)]"
  have "plain (JObj ?d)" using n by (simp add: us_def high_surrogate_def int_max_str_digits_def)
  from loads_dumps [OF this] have l: "loads (dumps (\<lambda>_. []) (JObj ?d)) = Loaded (JObj ?d)" .
  have "as_float (JInt n) = TooLarge" using n(1,2) by (simp add: float_of_int_def)
  with l have "read_prompt_request (Finite 120) (Inr (dumps (\<lambda>_. []) (JObj ?d))) = BodyRaises overflow_error"
    by (simp add: read_prompt_request_def get_def get_or_def)
  with l show ?thesis by (auto simp: handle_generate_def intro!: exI)
qed

end
