(* ===== verification/Daemon.thy ===== *)
theory Daemon
  imports Config Jobs
begin

text \<open>
  \<open>src/claude_pool/daemon.py\<close>. What the operating system, aiohttp and the pool make of each
  call is an argument (\<open>faults\<close>: the exception a call raises, if any); the order of the calls,
  the \<open>try\<close> and \<open>finally\<close> blocks, the pid files and the job store are the model's.
\<close>

subsection \<open>The host\<close>

datatype daemon_action = MakeScratch | StartPool | SetupRunner | BindSite | WritePid | AwaitSignal
  | RemovePid | CleanupRunner | ShutdownJobs | StopPool

text \<open>A file is its directory and its name; \<open>actions\<close> lists the calls made, failed ones included.\<close>

type_synonym path = "ustring \<times> ustring"

record host_state =
  files :: "path \<Rightarrow> ustring option"
  actions :: "daemon_action list"
  runner_made :: bool
  daemon_jobs :: store

definition pid_file :: "pool_config \<Rightarrow> path" where
  "pid_file c = (scratch_dir c, us ''daemon-'' @ show_int (port c) @ us ''.pid'')"

subsection \<open>Sequencing with exceptions\<close>

text \<open>
  A block of the coroutine yields the exception it raised, if any, and the state it left;
  \<open>None\<close> stands for a block that is still waiting.
\<close>

type_synonym block = "host_state \<Rightarrow> (exn option \<times> host_state) option"

definition attempt :: "daemon_action \<Rightarrow> exn option \<Rightarrow> (host_state \<Rightarrow> host_state) \<Rightarrow> block" where
  "attempt a fault effect h =
     (let h' = h\<lparr>actions := actions h @ [a]\<rparr>
      in Some (case fault of None \<Rightarrow> (None, effect h') | Some e \<Rightarrow> (Some e, h')))"

definition and_next :: "block \<Rightarrow> block \<Rightarrow> block" where
  "and_next m n h =
     (case m h of
        None \<Rightarrow> None
      | Some (Some e, h') \<Rightarrow> Some (Some e, h')
      | Some (None, h') \<Rightarrow> n h')"

text \<open>An exception of the \<open>finally\<close> block replaces the one under way.\<close>

definition try_finally :: "block \<Rightarrow> block \<Rightarrow> block" where
  "try_finally m n h =
     (case m h of
        None \<Rightarrow> None
      | Some (r, h') \<Rightarrow>
          (case n h' of
             None \<Rightarrow> None
           | Some (Some e, h'') \<Rightarrow> Some (Some e, h'')
           | Some (None, h'') \<Rightarrow> Some (r, h'')))"

subsection \<open>Waiting for a signal\<close>

text \<open>
  \<open>_wait_for_shutdown_signal\<close>: a signal whose handler cannot be installed is passed over, any other
  exception ends the wait. \<open>delivered\<close> are the signals that arrive, \<open>interrupt\<close> what cancels
  the wait when none of them sets the event.
\<close>

definition handler_unsupported :: "exn \<Rightarrow> bool" where
  "handler_unsupported e =
     (exn_class e \<in> set (map us [''NotImplementedError'', ''AttributeError'', ''ValueError'',
        ''UnicodeError'']))"

fun install_handlers :: "(ustring \<Rightarrow> exn option) \<Rightarrow> ustring list \<Rightarrow> exn + ustring list" where
  "install_handlers fault [] = Inr []"
| "install_handlers fault (sig # sigs) =
     (case fault sig of
        None \<Rightarrow> (case install_handlers fault sigs of Inl e \<Rightarrow> Inl e | Inr hs \<Rightarrow> Inr (sig # hs))
      | Some e \<Rightarrow> if handler_unsupported e then install_handlers fault sigs else Inl e)"

definition shutdown_signals :: "ustring list" where
  "shutdown_signals = [us ''SIGTERM'', us ''SIGINT'']"

text \<open>The exception the wait ends with, if any; \<open>None\<close> while it goes on.\<close>

definition wait_for_shutdown_signal :: "(ustring \<Rightarrow> exn option) \<Rightarrow> ustring list \<Rightarrow> exn option \<Rightarrow> exn option option" where
  "wait_for_shutdown_signal fault delivered interrupt =
     (case install_handlers fault shutdown_signals of
        Inl e \<Rightarrow> Some (Some e)
      | Inr hs \<Rightarrow>
          (if list_ex (\<lambda>sig. List.member hs sig) delivered then Some None
           else map_option Some interrupt))"

subsection \<open>The daemon\<close>

text \<open>
  \<open>serving\<close> is what the handlers did to the store while the daemon waited, \<open>job_end\<close> how the cancelled
  execution of a job ends, and \<open>stop_time\<close> when.
\<close>

record faults =
  mkdir_fault :: "exn option"
  pool_start_fault :: "exn option"
  setup_fault :: "exn option"
  bind_fault :: "exn option"
  write_fault :: "exn option"
  handler_fault :: "ustring \<Rightarrow> exn option"
  delivered :: "ustring list"
  interrupt :: "exn option"
  unlink_fault :: "exn option"
  cleanup_fault :: "exn option"
  shutdown_fault :: "exn option"
  pool_stop_fault :: "exn option"
  serving :: "store \<Rightarrow> store"
  prints_char :: "nat \<Rightarrow> bool"
  job_end :: "ustring \<Rightarrow> exec_end"
  stop_time :: "ustring \<Rightarrow> rat"

definition await_signal :: "faults \<Rightarrow> block" where
  "await_signal F h =
     (case wait_for_shutdown_signal (handler_fault F) (delivered F) (interrupt F) of
        None \<Rightarrow> None
      | Some fault \<Rightarrow>
          attempt AwaitSignal fault id (h\<lparr>daemon_jobs := serving F (daemon_jobs h)\<rparr>))"

text \<open>\<open>web.AppRunner(app)\<close> is made once the pool has started; its \<open>setup\<close> may fail.\<close>

definition start_serving :: "faults \<Rightarrow> pool_config \<Rightarrow> ustring \<Rightarrow> block" where
  "start_serving F c pid =
     and_next (attempt StartPool (pool_start_fault F) (\<lambda>h. h\<lparr>runner_made := True\<rparr>))
     (and_next (attempt SetupRunner (setup_fault F) id)
     (and_next (attempt BindSite (bind_fault F) id)
     (and_next (attempt WritePid (write_fault F) (\<lambda>h. h\<lparr>files := (files h)(pid_file c \<mapsto> pid)\<rparr>))
       (await_signal F))))"

definition cleanup :: "faults \<Rightarrow> block" where
  "cleanup F h = (if runner_made h then attempt CleanupRunner (cleanup_fault F) id h else Some (None, h))"

definition shut_down :: "faults \<Rightarrow> block" where
  "shut_down F =
     and_next (attempt ShutdownJobs (shutdown_fault F)
       (\<lambda>h. h\<lparr>daemon_jobs := shutdown_jobs (prints_char F) (job_end F) (stop_time F) (daemon_jobs h)\<rparr>))
     (attempt StopPool (pool_stop_fault F) id)"

definition wind_down :: "faults \<Rightarrow> pool_config \<Rightarrow> block" where
  "wind_down F c =
     and_next (attempt RemovePid (unlink_fault F) (\<lambda>h. h\<lparr>files := (files h)(pid_file c := None)\<rparr>))
     (try_finally (cleanup F) (shut_down F))"

definition run_daemon :: "faults \<Rightarrow> pool_config \<Rightarrow> ustring \<Rightarrow> block" where
  "run_daemon F c pid =
     and_next (attempt MakeScratch (mkdir_fault F) (\<lambda>h. h\<lparr>runner_made := False,
         daemon_jobs := new_store (job_retention_sec c) (max_jobs c)\<rparr>))
     (try_finally (start_serving F c pid) (wind_down F c))"

text \<open>\<open>main\<close>: a configuration that does not read raises before anything is done.\<close>

definition daemon_main :: "faults \<Rightarrow> ustring \<Rightarrow> environment \<Rightarrow> ustring \<Rightarrow> host_state \<Rightarrow> config_error + (exn option \<times> host_state) option" where
  "daemon_main F home env pid h =
     (case from_env home env of
        Inl e \<Rightarrow> Inl e
      | Inr c \<Rightarrow> Inr (run_daemon F c pid h))"

end
