(* ===== verification/DaemonCtl.thy ===== *)
theory DaemonCtl
  imports Daemon Client Apidocs PyRepr "HOL-Library.Sublist"
begin

text \<open>
  \<open>scripts/daemon_ctl.py\<close>: the commands that start, stop and inspect a daemon. The answers of
  the operating system are arguments, numbered where a command asks more than once.
\<close>

subsection \<open>Finding the daemon\<close>

text \<open>
  A read of the pid file is its text, or \<open>None\<close> when it cannot be read or decoded. \<open>ps\<close> is what the
  process listing for one pid brings: its output, or the exception \<open>subprocess.run\<close> raises when the
  program is not there or its output does not decode.
\<close>

datatype os_call = Runs "ustring list" | Signals int ustring

definition command_line_call :: "bool \<Rightarrow> int \<Rightarrow> os_call" where
  "command_line_call windows pid =
     Runs (if windows
           then [us ''powershell'', us ''-NoProfile'', us ''-Command'',
                 us (''(Get-CimInstance Win32_Process -Filter '' @ [CHR 0x27] @ ''ProcessId='') @ show_int pid @
                 us ([CHR 0x27] @ '').CommandLine'')]
           else [us ''ps'', us ''-p'', show_int pid, us ''-o'', us ''args=''])"

definition listing_call :: "bool \<Rightarrow> os_call" where
  "listing_call windows =
     Runs (if windows
           then [us ''powershell'', us ''-NoProfile'', us ''-Command'',
                 us (''Get-CimInstance Win32_Process -Filter '' @ [CHR 0x22] @ ''Name='' @ [CHR 0x27] @ ''python.exe'' @
                   [CHR 0x27, CHR 0x22] @ '' | Where-Object { $_.CommandLine -like '' @ [CHR 0x27] @
                   ''*claude_pool.daemon*'' @ [CHR 0x27] @ '' } | ForEach-Object { $_.ProcessId }'')]
           else [us ''pgrep'', us ''-f'', us ''claude_pool.daemon''])"

definition terminate_call :: "bool \<Rightarrow> int \<Rightarrow> os_call" where
  "terminate_call windows pid =
     (if windows then Runs [us ''taskkill'', us ''/F'', us ''/PID'', show_int pid]
      else Signals pid (us ''SIGTERM''))"

text \<open>
  What those calls bring is in the model's arguments: the output of \<open>command_line_call\<close> is a
  \<open>process_line\<close>, that of \<open>listing_call\<close> the \<open>process_list\<close>, and \<open>terminate_error\<close> the exception of
  \<open>terminate_call\<close>.
\<close>

definition read_pid :: "ustring option \<Rightarrow> int option" where
  "read_pid file_text = (case file_text of None \<Rightarrow> None | Some s \<Rightarrow> py_int (strip s))"

definition command_line :: "exn + ustring \<Rightarrow> exn + ustring" where
  "command_line out = (case out of Inl e \<Rightarrow> Inl e | Inr s \<Rightarrow> Inr (strip s))"

definition live_daemon_pid :: "ustring option \<Rightarrow> (int \<Rightarrow> exn + ustring) \<Rightarrow> exn + int option" where
  "live_daemon_pid file_text ps =
     (case read_pid file_text of
        None \<Rightarrow> Inr None
      | Some pid \<Rightarrow>
          (case command_line (ps pid) of
             Inl e \<Rightarrow> Inl e
           | Inr line \<Rightarrow> Inr (if sublist (us ''claude_pool.daemon'') line then Some pid else None)))"

fun int_lines :: "ustring list \<Rightarrow> exn + int list" where
  "int_lines [] = Inr []"
| "int_lines (w # ws) =
     (if isdigit (strip w)
      then (case py_int w of
              None \<Rightarrow> Inl bad_header
            | Some n \<Rightarrow> (case int_lines ws of Inl e \<Rightarrow> Inl e | Inr ns \<Rightarrow> Inr (n # ns)))
      else int_lines ws)"

definition daemon_pids_by_command_line :: "exn + ustring \<Rightarrow> exn + int list" where
  "daemon_pids_by_command_line out =
     (case out of Inl e \<Rightarrow> Inl e | Inr s \<Rightarrow> int_lines (split_space s))"

text \<open>\<open>_is_answering\<close>: the client is made without a launch, and any exception counts as silence.\<close>

definition is_answering :: "json result \<Rightarrow> bool" where
  "is_answering health = (case health of Done _ \<Rightarrow> True | _ \<Rightarrow> False)"

subsection \<open>What a command does\<close>

datatype ctl_end = ExitCode int | CtlRaises exn | StillLooping

record ctl_run =
  ends :: ctl_end
  printed :: "ustring list"
  complained :: "ustring list"
  terminated :: "int list"
  removed :: "path list"

definition quits :: "ctl_end \<Rightarrow> ustring list \<Rightarrow> ctl_run" where
  "quits e out = \<lparr>ends = e, printed = out, complained = [], terminated = [], removed = []\<rparr>"

text \<open>One command after another, with what both did.\<close>

definition followed_by :: "ctl_run \<Rightarrow> ctl_run \<Rightarrow> ctl_run" where
  "followed_by r q =
     \<lparr>ends = ends q, printed = printed r @ printed q, complained = complained r @ complained q,
      terminated = terminated r @ terminated q, removed = removed r @ removed q\<rparr>"

record ctl_world =
  on_windows :: bool
  pid_text :: "nat \<Rightarrow> ustring option"
  process_line :: "nat \<Rightarrow> int \<Rightarrow> exn + ustring"
  process_list :: "exn + ustring"
  health_reply :: "nat \<Rightarrow> json result"
  terminate_error :: "int \<Rightarrow> exn option"
  unlink_error :: "nat \<Rightarrow> exn option"
  monotonic :: "nat \<Rightarrow> rat"
  char_printable :: "nat \<Rightarrow> bool"
  float_text :: "pyfloat \<Rightarrow> ustring"

abbreviation live_pid :: "ctl_world \<Rightarrow> nat \<Rightarrow> exn + int option" where
  "live_pid W i \<equiv> live_daemon_pid (pid_text W i) (process_line W i)"

abbreviation text_of :: "ctl_world \<Rightarrow> json \<Rightarrow> ustring" where
  "text_of W \<equiv> str_json (char_printable W) (float_text W)"

subsection \<open>stop\<close>

definition STOP_TIMEOUT_SEC :: rat where
  "STOP_TIMEOUT_SEC = 10"

definition nothing_running :: "pool_config \<Rightarrow> ustring" where
  "nothing_running c = us ''stopped  (nothing running on port '' @ show_int (port c) @ us '')''"

definition stopped_line :: "int \<Rightarrow> ustring" where
  "stopped_line pid = us ''stopped  pid='' @ show_int pid"

definition failed_line :: "int \<Rightarrow> ustring" where
  "failed_line pid = us ''FAILED to stop pid='' @ show_int pid @ us '' within 10.0s''"

definition fallback_line :: "int \<Rightarrow> ustring" where
  "fallback_line pid =
     us ''no pid file; falling back to the only running daemon (pid='' @ show_int pid @ us '')''"

definition ambiguous_lines :: "bool \<Rightarrow> pool_config \<Rightarrow> int list \<Rightarrow> ustring list" where
  "ambiguous_lines windows c pids =
     (us ''port '' @ show_int (port c) @ us '' is answering, but no pid file and '' @
        show_int (int (length pids)) @ us '' daemon processes are running -- cannot tell '' @
        us ''which one serves this port. Stop it by hand:'') #
     map (\<lambda>pid. (if windows then us ''  taskkill /F /PID '' else us ''  kill '') @ show_int pid) pids"

text \<open>
  The loop after the signal, with fuel: reading \<open>i\<close> of the clock guards observation \<open>i\<close> of the pid
  file. An \<open>unlink\<close> that fails raises.
\<close>

definition remove_pid_file :: "ctl_world \<Rightarrow> nat \<Rightarrow> pool_config \<Rightarrow> ctl_run \<Rightarrow> ctl_run" where
  "remove_pid_file W i c r =
     (case unlink_error W i of
        Some e \<Rightarrow> quits (CtlRaises e) []
      | None \<Rightarrow> r\<lparr>removed := pid_file c # removed r\<rparr>)"

fun stop_loop :: "nat \<Rightarrow> ctl_world \<Rightarrow> pool_config \<Rightarrow> int \<Rightarrow> rat \<Rightarrow> nat \<Rightarrow> ctl_run" where
  "stop_loop 0 W c pid deadline i = quits StillLooping []"
| "stop_loop (Suc fuel) W c pid deadline i =
     (if monotonic W i < deadline
      then (case live_pid W i of
              Inl e \<Rightarrow> quits (CtlRaises e) []
            | Inr None \<Rightarrow> remove_pid_file W i c (quits (ExitCode 0) [stopped_line pid])
            | Inr (Some _) \<Rightarrow> stop_loop fuel W c pid deadline (Suc i))
      else quits (ExitCode 1) [failed_line pid])"

definition terminate_and_wait :: "nat \<Rightarrow> ctl_world \<Rightarrow> pool_config \<Rightarrow> int \<Rightarrow> ctl_run" where
  "terminate_and_wait fuel W c pid =
     (case terminate_error W pid of
        Some e \<Rightarrow> quits (CtlRaises e) []
      | None \<Rightarrow>
          followed_by ((quits (ExitCode 0) [])\<lparr>terminated := [pid]\<rparr>)
            (stop_loop fuel W c pid (monotonic W 0 + STOP_TIMEOUT_SEC) 1))"

definition ctl_stop :: "nat \<Rightarrow> ctl_world \<Rightarrow> pool_config \<Rightarrow> ctl_run" where
  "ctl_stop fuel W c =
     (case live_pid W 0 of
        Inl e \<Rightarrow> quits (CtlRaises e) []
      | Inr (Some pid) \<Rightarrow> terminate_and_wait fuel W c pid
      | Inr None \<Rightarrow>
          remove_pid_file W 0 c
            (if \<not> is_answering (health_reply W 0) then quits (ExitCode 0) [nothing_running c]
             else
               (case daemon_pids_by_command_line (process_list W) of
                  Inl e \<Rightarrow> quits (CtlRaises e) []
                | Inr pids \<Rightarrow>
                    (case pids of
                       [pid] \<Rightarrow> followed_by (quits (ExitCode 0) [fallback_line pid]) (terminate_and_wait fuel W c pid)
                     | _ \<Rightarrow> quits (ExitCode 1) (ambiguous_lines (on_windows W) c pids)))))"

subsection \<open>status\<close>

definition ctl_base_url :: "pool_config \<Rightarrow> ustring" where
  "ctl_base_url c = us ''http://'' @ host c @ us '':'' @ show_int (port c)"

text \<open>An f-string: literal parts and values that are looked up when their turn comes.\<close>

fun fstring :: "(json \<Rightarrow> ustring) \<Rightarrow> json result list \<Rightarrow> ustring result" where
  "fstring show_json [] = Done []"
| "fstring show_json (r # rs) =
     bind_result r (\<lambda>j. bind_result (fstring show_json rs) (\<lambda>t. Done (show_json j @ t)))"

abbreviation lit :: "string \<Rightarrow> json result" where
  "lit s \<equiv> Done (jstr s)"

definition pool_exn :: "(json \<Rightarrow> ustring) \<Rightarrow> client_error \<Rightarrow> exn" where
  "pool_exn show_json e = Exn (us ''ClaudePoolError'') (show_json (message e))"

text \<open>Printing line after line, up to the first that cannot be built.\<close>

fun print_lines :: "(json \<Rightarrow> ustring) \<Rightarrow> ustring result list \<Rightarrow> ctl_run" where
  "print_lines show_json [] = quits (ExitCode 0) []"
| "print_lines show_json (Throws e # ls) = quits (CtlRaises e) []"
| "print_lines show_json (Fails e # ls) = quits (CtlRaises (pool_exn show_json e)) []"
| "print_lines show_json (Done l # ls) =
     followed_by (quits (ExitCode 0) [l]) (print_lines show_json ls)"

definition worker_line :: "json \<Rightarrow> json result list" where
  "worker_line h =
     [lit ''  workers  '', item ''idle_alive'' h, lit ''/'', item ''idle'' h, lit '' idle alive, '',
      item ''busy'' h, lit '' busy  (min '', item ''min_workers'' h, lit '', max '',
      item ''max_workers'' h, lit '')'']"

definition job_line :: "json \<Rightarrow> json result list" where
  "job_line h =
     [lit ''  jobs     '', bind_result (item ''jobs'' h) (item ''running''), lit '' running, '',
      bind_result (item ''jobs'' h) (item ''total''), lit '' kept'']"

definition unhealthy_lines :: "json \<Rightarrow> ustring result list" where
  "unhealthy_lines h =
     (case item ''healthy'' h of
        Done v \<Rightarrow> if truthy v then [] else [Done (us ''  UNHEALTHY: pre-warmed workers are dying'')]
      | Fails e \<Rightarrow> [Fails e]
      | Throws e \<Rightarrow> [Throws e])"

definition error_lines :: "(json \<Rightarrow> ustring) \<Rightarrow> json \<Rightarrow> ustring result list" where
  "error_lines show_json h =
     (case h of
        JObj d \<Rightarrow>
          map (\<lambda>k. Done (us ''  '' @ us k @ us '': '' @ show_json (get d k)))
            (filter (\<lambda>k. truthy (get d k)) [''last_spawn_error'', ''last_error''])
      | _ \<Rightarrow> [Throws (no_get h)])"

definition pid_shown :: "int option \<Rightarrow> ustring" where
  "pid_shown pid = (case pid of None \<Rightarrow> us ''?'' | Some p \<Rightarrow> if p = 0 then us ''?'' else show_int p)"

definition ctl_status :: "ctl_world \<Rightarrow> nat \<Rightarrow> pool_config \<Rightarrow> ctl_run" where
  "ctl_status W i c =
     (case health_reply W i of
        Done h \<Rightarrow>
          (case live_pid W i of
             Inl e \<Rightarrow> quits (CtlRaises e) []
           | Inr pid \<Rightarrow>
               print_lines (text_of W)
                 ([Done (us ''running  pid='' @ pid_shown pid @ us ''  '' @ ctl_base_url c),
                   Done (us ''  model    '' @ model c),
                   fstring (text_of W) (worker_line h), fstring (text_of W) (job_line h)]
                  @ unhealthy_lines h @ error_lines (text_of W) h
                  @ [Done (us ''  docs     '' @ ctl_base_url c @ us ''/docs'')]))
      | _ \<Rightarrow> quits (ExitCode 1) [us ''stopped  ('' @ ctl_base_url c @ us '' is not answering)''])"

subsection \<open>start, restart and main\<close>

text \<open>
  \<open>made\<close> is how the client's constructor ends (\<open>init_client\<close>), \<open>i\<close> the number of the observation the
  status then makes.
\<close>

definition ctl_start :: "ctl_world \<Rightarrow> unit result option \<Rightarrow> nat \<Rightarrow> pool_config \<Rightarrow> ctl_run" where
  "ctl_start W made i c =
     (case made of
        None \<Rightarrow> quits StillLooping []
      | Some (Fails e) \<Rightarrow> quits (CtlRaises (pool_exn (text_of W) e)) []
      | Some (Throws e) \<Rightarrow> quits (CtlRaises e) []
      | Some (Done _) \<Rightarrow> ctl_status W i c)"

definition ctl_restart :: "nat \<Rightarrow> ctl_world \<Rightarrow> unit result option \<Rightarrow> nat \<Rightarrow> pool_config \<Rightarrow> ctl_run" where
  "ctl_restart fuel W made i c =
     (let r = ctl_stop fuel W c
      in case ends r of
           ExitCode n \<Rightarrow> if n = 0 then followed_by r (ctl_start W made i c) else r\<lparr>ends := ExitCode 1\<rparr>
         | _ \<Rightarrow> r)"

datatype ctl_command = CtlStart | CtlStop | CtlRestart | CtlStatus

definition COMMANDS :: "(ustring \<times> ctl_command) list" where
  "COMMANDS = [(us ''start'', CtlStart), (us ''stop'', CtlStop), (us ''restart'', CtlRestart),
     (us ''status'', CtlStatus)]"

definition usage_line :: "ustring \<Rightarrow> ustring" where
  "usage_line script = us ''usage: '' @ script @ us '' ['' @ intercalate (us ''|'') (map fst COMMANDS) @ us '']''"

definition run_command :: "nat \<Rightarrow> ctl_world \<Rightarrow> unit result option \<Rightarrow> nat \<Rightarrow> ctl_command \<Rightarrow> pool_config \<Rightarrow> ctl_run" where
  "run_command fuel W made i cmd c =
     (case cmd of
        CtlStart \<Rightarrow> ctl_start W made i c
      | CtlStop \<Rightarrow> ctl_stop fuel W c
      | CtlRestart \<Rightarrow> ctl_restart fuel W made i c
      | CtlStatus \<Rightarrow> ctl_status W i c)"

text \<open>\<open>config_exn\<close> is the exception a configuration error is raised as.\<close>

definition ctl_main :: "nat \<Rightarrow> ctl_world \<Rightarrow> unit result option \<Rightarrow> nat \<Rightarrow> ustring \<Rightarrow> environment \<Rightarrow> (config_error \<Rightarrow> exn) \<Rightarrow> ustring list \<Rightarrow> ctl_run" where
  "ctl_main fuel W made i home env config_exn argv =
     (let command = (if length argv > 1 then argv ! 1 else us ''status'')
      in case map_of COMMANDS command of
           None \<Rightarrow> \<lparr>ends = ExitCode 2, printed = [], complained = [usage_line (hd argv)], terminated = [], removed = []\<rparr>
         | Some cmd \<Rightarrow>
             (case from_env home env of
                Inl e \<Rightarrow> quits (CtlRaises (config_exn e)) []
              | Inr c \<Rightarrow> run_command fuel W made i cmd c))"

end
