(* ===== verification/DaemonProps.thy ===== *)
theory DaemonProps
  imports Daemon JobsProps
begin

text \<open>
  What the daemon's life shows: which calls it makes in which order whatever fails, what becomes
  of the pid files, and that the job store is wound down before the pool is.
\<close>

subsection \<open>Pid files\<close>

lemma show_nat_inj: "show_nat m = show_nat n \<Longrightarrow> m = n"
  by (metis digits_value_show_nat of_nat_eq_iff)

lemma show_nat_no_minus: "show_nat n \<noteq> 45 # t"
  using show_nat_digits [of n] by (auto simp: ascii_digit_def)

lemma show_int_inj: "show_int i = show_int j \<longleftrightarrow> i = j"
  using show_nat_inj [of "nat (- i)" "nat (- j)"] show_nat_inj [of "nat i" "nat j"]
    show_nat_no_minus [of "nat i" "show_nat (nat (- j))"] show_nat_no_minus [of "nat j" "show_nat (nat (- i))"]
  by (auto simp: show_int_def split: if_splits)

lemma pid_file_eq: "pid_file c = pid_file d \<longleftrightarrow> scratch_dir c = scratch_dir d \<and> port c = port d"
  by (auto simp: pid_file_def show_int_inj)

subsection \<open>The blocks\<close>

lemmas block_defs = attempt_def and_next_def try_finally_def


lemma wind_down_ends: "\<exists>r h'. wind_down F c h = Some (r, h')"
  by (cases "unlink_fault F"; cases "cleanup_fault F"; cases "shutdown_fault F"; cases "pool_stop_fault F"; cases "runner_made h")
    (simp_all add: wind_down_def cleanup_def shut_down_def block_defs Let_def)

text \<open>What the serving part leaves, wherever it stops.\<close>

lemma start_serving_leaves:
  assumes "start_serving F c pid h = Some (r, h')" "\<not> runner_made h"
  shows "\<exists>made. actions h' = actions h @ made \<and> set made \<subseteq> {StartPool, SetupRunner, BindSite, WritePid, AwaitSignal}
    \<and> (runner_made h' \<longleftrightarrow> pool_start_fault F = None)
    \<and> (files h')(pid_file c := None) = (files h)(pid_file c := None)
    \<and> daemon_jobs h' \<in> {daemon_jobs h, serving F (daemon_jobs h)}
    \<and> (WritePid \<in> set made \<longrightarrow> bind_fault F = None)"
  using assms
  by (cases "pool_start_fault F"; cases "setup_fault F"; cases "bind_fault F"; cases "write_fault F")
    (auto simp: start_serving_def await_signal_def block_defs Let_def split: option.splits)

lemma start_serving_waits:
  "start_serving F c pid h = None \<longleftrightarrow>
     pool_start_fault F = None \<and> setup_fault F = None \<and> bind_fault F = None \<and> write_fault F = None
     \<and> wait_for_shutdown_signal (handler_fault F) (delivered F) (interrupt F) = None"
  by (cases "pool_start_fault F"; cases "setup_fault F"; cases "bind_fault F"; cases "write_fault F")
    (auto simp: start_serving_def await_signal_def block_defs Let_def split: option.splits)

lemma run_daemon_split:
  assumes "run_daemon F c pid h = Some (r, h')" "mkdir_fault F = None"
  obtains r1 h1 where "start_serving F c pid (h\<lparr>actions := actions h @ [MakeScratch], runner_made := False,
         daemon_jobs := new_store (job_retention_sec c) (max_jobs c)\<rparr>) = Some (r1, h1)"
    and "\<exists>r2. wind_down F c h1 = Some (r2, h')"
  using assms by (auto simp: run_daemon_def and_next_def try_finally_def attempt_def split: option.splits)

section \<open>Properties\<close>

text \<open>The daemon serves until a signal: the only wait that may last is the one for a signal.\<close>

lemma finally_waits:
  assumes "\<And>h. \<exists>r h'. n h = Some (r, h')"
  shows "try_finally m n h = None \<longleftrightarrow> m h = None"
proof (cases "m h")
  case (Some x)
  obtain r h' where x: "x = (r, h')" by (cases x)
  obtain r2 h2 where "n h' = Some (r2, h2)" using assms by blast
  with Some x show ?thesis by (cases r2) (simp_all add: try_finally_def)
qed (simp add: try_finally_def)

lemma run_daemon_waits:
  "run_daemon F c pid h = None \<longleftrightarrow>
     mkdir_fault F = None \<and> pool_start_fault F = None \<and> setup_fault F = None \<and> bind_fault F = None
     \<and> write_fault F = None
     \<and> wait_for_shutdown_signal (handler_fault F) (delivered F) (interrupt F) = None"
proof -
  have "try_finally (start_serving F c pid) (wind_down F c) h' = None \<longleftrightarrow> start_serving F c pid h' = None" for h'
    by (rule finally_waits, rule wind_down_ends)
  then show ?thesis
    by (cases "mkdir_fault F") (simp_all add: run_daemon_def and_next_def attempt_def start_serving_waits)
qed

definition calm :: faults where
  "calm = \<lparr>mkdir_fault = None, pool_start_fault = None, setup_fault = None, bind_fault = None,
     write_fault = None, handler_fault = (\<lambda>_. None), delivered = [us ''SIGTERM''], interrupt = None,
     unlink_fault = None, cleanup_fault = None, shutdown_fault = None, pool_stop_fault = None,
     serving = id, prints_char = (\<lambda>_. True), job_end = (\<lambda>_. Cancelled), stop_time = (\<lambda>_. 0)\<rparr>"

definition address_in_use :: exn where
  "address_in_use = Exn (us ''OSError'') (us ''address already in use'')"

definition bare_host :: "(path \<Rightarrow> ustring option) \<Rightarrow> host_state" where
  "bare_host fs = \<lparr>files = fs, actions = [], runner_made = False, daemon_jobs = new_store (Finite 600) 500\<rparr>"

lemmas daemon_run_defs = run_daemon_def start_serving_def await_signal_def wind_down_def cleanup_def
  shut_down_def block_defs calm_def bare_host_def wait_for_shutdown_signal_def shutdown_signals_def



text \<open>Daemons on different ports do not touch each other's pid files, whatever fails: a pid file is
  named after its port, and a daemon writes and removes only its own.\<close>

theorem other_pid_files_kept:
  assumes "run_daemon F c pid h = Some (r, h')" "port d \<noteq> port c"
  shows "files h' (pid_file d) = files h (pid_file d)"
proof -
  have other: "pid_file d \<noteq> pid_file c" using assms(2) by (simp add: pid_file_eq)
  have wind: "files h'' (pid_file d) = files h1 (pid_file d)" if "wind_down F c h1 = Some (r2, h'')" for h1 r2 h''
    using that other
    by (cases "unlink_fault F"; cases "cleanup_fault F"; cases "shutdown_fault F"; cases "pool_stop_fault F"; cases "runner_made h1")
      (auto simp: wind_down_def cleanup_def shut_down_def block_defs Let_def)
  show ?thesis
  proof (cases "mkdir_fault F")
    case None
    obtain r1 h1 r2 where "start_serving F c pid (h\<lparr>actions := actions h @ [MakeScratch], runner_made := False,
         daemon_jobs := new_store (job_retention_sec c) (max_jobs c)\<rparr>) = Some (r1, h1)"
      and h1: "wind_down F c h1 = Some (r2, h')"
      by (rule run_daemon_split [OF assms(1) None]) blast
    from start_serving_leaves [OF this(1)] have "(files h1)(pid_file c := None) = (files h)(pid_file c := None)"
      by auto
    then have "files h1 (pid_file d) = files h (pid_file d)" using other by (metis fun_upd_apply)
    with wind [OF h1] show ?thesis by simp
  qed (use assms(1) in \<open>auto simp: run_daemon_def and_next_def attempt_def\<close>)
qed

theorem other_pid_files_kept_witness:
  "\<exists>h'. run_daemon calm (default_config (us ''/root'')) (us ''7'')
        (bare_host [pid_file ((default_config (us ''/root''))\<lparr>port := 9\<rparr>) \<mapsto> us ''3'']) = Some (None, h')
    \<and> files h' (pid_file ((default_config (us ''/root''))\<lparr>port := 9\<rparr>)) = Some (us ''3'')"
proof -
  let ?c = "default_config (us ''/root'')" and ?d = "(default_config (us ''/root''))\<lparr>port := 9\<rparr>"
  obtain h' where h': "run_daemon calm ?c (us ''7'') (bare_host [pid_file ?d \<mapsto> us ''3'']) = Some (None, h')"
    by (simp add: daemon_run_defs)
  have "port ?d \<noteq> port ?c" by (simp add: default_config_def)
  from other_pid_files_kept [OF h' this] h' show ?thesis by (simp add: bare_host_def)
qed

text \<open>C36.
  A start on a port that is taken costs the running daemon its pid file: the second daemon fails to
  bind, and its \<open>finally\<close> block removes the file all the same.\<close>

theorem failed_bind_removes_pid_file:
  assumes "mkdir_fault F = None" "pool_start_fault F = None" "setup_fault F = None"
    and "bind_fault F = Some e" "unlink_fault F = None"
    and "files h (pid_file c) = Some running_pid"
  shows "\<exists>r h'. run_daemon F c pid h = Some (r, h') \<and> r \<noteq> None \<and> files h' (pid_file c) = None"
  using assms
  by (cases "cleanup_fault F"; cases "shutdown_fault F"; cases "pool_stop_fault F")
    (simp_all add: run_daemon_def start_serving_def wind_down_def cleanup_def shut_down_def block_defs Let_def)

theorem failed_bind_removes_pid_file_witness:
  "\<exists>r h'. run_daemon (calm\<lparr>bind_fault := Some address_in_use\<rparr>) (default_config (us ''/root'')) (us ''7'')
      (bare_host [pid_file (default_config (us ''/root'')) \<mapsto> us ''3'']) = Some (r, h')
    \<and> r \<noteq> None \<and> files h' (pid_file (default_config (us ''/root''))) = None"
  by (rule failed_bind_removes_pid_file [where e = address_in_use and running_pid = "us ''3''"])
    (simp_all add: calm_def bare_host_def)

text \<open>
  A pid file that cannot be removed skips the rest of the \<open>finally\<close> block: neither the jobs nor
  the pool are shut down.
\<close>

theorem unlink_error_skips_shutdown:
  assumes "run_daemon F c pid h = Some (r, h')" "mkdir_fault F = None" "unlink_fault F = Some e"
  shows "r = Some e \<and> {ShutdownJobs, StopPool} \<inter> set (drop (length (actions h)) (actions h')) = {}"
proof -
  obtain r1 h1 r2 where serve: "start_serving F c pid (h\<lparr>actions := actions h @ [MakeScratch], runner_made := False,
       daemon_jobs := new_store (job_retention_sec c) (max_jobs c)\<rparr>) = Some (r1, h1)"
    and wind: "wind_down F c h1 = Some (r2, h')"
    by (rule run_daemon_split [OF assms(1,2)]) blast
  obtain made where "actions h1 = actions h @ MakeScratch # made"
      "set made \<subseteq> {StartPool, SetupRunner, BindSite, WritePid, AwaitSignal}"
    using start_serving_leaves [OF serve] by auto
  moreover have "actions h' = actions h1 @ [RemovePid]" using wind assms(3)
    by (auto simp: wind_down_def block_defs Let_def)
  moreover have "r = Some e" using assms serve wind
    by (auto simp: run_daemon_def wind_down_def block_defs Let_def)
  ultimately show ?thesis by auto
qed

end
