(* ===== verification/DaemonCtlProps.thy ===== *)
theory DaemonCtlProps
  imports DaemonCtl DaemonProps
begin

text \<open>
  What \<open>daemon_ctl stop\<close> signals and when it reports success: only a process that was identified,
  and, on the pid file path, only after it was seen gone. The fallback path has no such check.
\<close>

subsection \<open>The parts of stop\<close>

lemma live_daemon_pid_Some:
  "live_daemon_pid file_text ps = Inr (Some pid) \<longleftrightarrow>
     (\<exists>s line. file_text = Some s \<and> py_int (strip s) = Some pid \<and> ps pid = Inr line
        \<and> sublist (us ''claude_pool.daemon'') (strip line))"
  by (auto simp: live_daemon_pid_def read_pid_def command_line_def split: option.splits sum.splits)

lemma no_pid_file: "live_daemon_pid None ps = Inr None"
  by (simp add: live_daemon_pid_def read_pid_def)

lemma quits_fields [simp]:
  "ends (quits e out) = e" "printed (quits e out) = out" "complained (quits e out) = []"
  "terminated (quits e out) = []" "removed (quits e out) = []"
  by (simp_all add: quits_def)

lemma followed_by_fields [simp]:
  "ends (followed_by r q) = ends q" "printed (followed_by r q) = printed r @ printed q"
  "terminated (followed_by r q) = terminated r @ terminated q"
  "removed (followed_by r q) = removed r @ removed q"
  by (simp_all add: followed_by_def)

lemma remove_pid_file_fields:
  "terminated (remove_pid_file W i c r) \<in> {[], terminated r}"
  "set (removed (remove_pid_file W i c r)) \<subseteq> insert (pid_file c) (set (removed r))"
  "unlink_error W i = None \<Longrightarrow> ends (remove_pid_file W i c r) = ends r"
  "ends (remove_pid_file W i c r) = ExitCode n \<Longrightarrow>
     ends r = ExitCode n \<and> terminated (remove_pid_file W i c r) = terminated r
     \<and> removed (remove_pid_file W i c r) = pid_file c # removed r"
  by (auto simp: remove_pid_file_def split: option.splits)

lemma stop_loop_effects:
  "terminated (stop_loop fuel W c pid deadline i) = []"
  "set (removed (stop_loop fuel W c pid deadline i)) \<subseteq> {pid_file c}"
  by (induction fuel arbitrary: i) (auto simp: remove_pid_file_def split: option.splits sum.splits)

definition stop_turn :: "ctl_world \<Rightarrow> pool_config \<Rightarrow> int \<Rightarrow> rat \<Rightarrow> nat \<Rightarrow> ctl_run option" where
  "stop_turn W c pid deadline i =
     (if monotonic W i < deadline
      then (case live_pid W i of
              Inl e \<Rightarrow> Some (quits (CtlRaises e) [])
            | Inr None \<Rightarrow> Some (remove_pid_file W i c (quits (ExitCode 0) [stopped_line pid]))
            | Inr (Some _) \<Rightarrow> None)
      else Some (quits (ExitCode 1) [failed_line pid]))"

lemma not_stuck: "ends r \<noteq> StillLooping \<Longrightarrow> r \<noteq> quits StillLooping []"
  by auto

lemma stop_turn_ends:
  assumes "stop_turn W c pid deadline i = Some r"
  shows "ends r \<noteq> StillLooping"
    and "ends r = ExitCode 0 \<Longrightarrow> live_pid W i = Inr None \<and> monotonic W i < deadline \<and> removed r = [pid_file c]"
  using assms by (auto simp: stop_turn_def remove_pid_file_def split: if_splits option.splits sum.splits)

interpretation stopping: fuelled_loop "\<lambda>n i. stop_loop n W c pid deadline i" "quits StillLooping []" "stop_turn W c pid deadline"
  by unfold_locales (use stop_turn_ends(1) not_stuck in \<open>auto simp: stop_turn_def split: option.splits sum.splits\<close>)

lemma stop_loop_success:
  assumes "ends (stop_loop fuel W c pid deadline i) = ExitCode 0"
  shows "(\<exists>j \<ge> i. live_pid W j = Inr None \<and> monotonic W j < deadline)
    \<and> removed (stop_loop fuel W c pid deadline i) = [pid_file c]"
proof -
  have "stop_loop fuel W c pid deadline i \<noteq> quits StillLooping []" using assms by auto
  from stopping.loop_from [OF this] obtain m where
    "stop_turn W c pid deadline (i + m) = Some (stop_loop fuel W c pid deadline i)" by blast
  from stop_turn_ends(2) [OF this assms] show ?thesis by (auto intro!: exI [of _ "i + m"])
qed

lemma stop_loop_returns:
  assumes "deadline \<le> monotonic W (i + n)"
  shows "ends (stop_loop (Suc n) W c pid deadline i) \<noteq> StillLooping"
proof -
  have "stop_turn W c pid deadline (i + n) \<noteq> None" using assms by (simp add: stop_turn_def)
  from stopping.loop_from [OF stopping.loop_ends [OF this]] show ?thesis using stop_turn_ends(1) by blast
qed

lemma terminate_and_wait_effects:
  "terminated (terminate_and_wait fuel W c pid) \<in> {[], [pid]}"
  "set (removed (terminate_and_wait fuel W c pid)) \<subseteq> {pid_file c}"
  using stop_loop_effects [of fuel W c pid]
  by (auto simp: terminate_and_wait_def split: option.splits)

text \<open>The ways \<open>stop\<close> can go.\<close>

lemma ctl_stop_cases:
  obtains (unlisted) e where "live_pid W 0 = Inl e" "ctl_stop fuel W c = quits (CtlRaises e) []"
  | (known) pid where "live_pid W 0 = Inr (Some pid)" "ctl_stop fuel W c = terminate_and_wait fuel W c pid"
  | (silent) "live_pid W 0 = Inr None" "\<not> is_answering (health_reply W 0)"
      "ctl_stop fuel W c = remove_pid_file W 0 c (quits (ExitCode 0) [nothing_running c])"
  | (unreadable) e where "live_pid W 0 = Inr None"
      "ctl_stop fuel W c = remove_pid_file W 0 c (quits (CtlRaises e) [])"
  | (sole) pid where "live_pid W 0 = Inr None" "is_answering (health_reply W 0)"
      "daemon_pids_by_command_line (process_list W) = Inr [pid]"
      "ctl_stop fuel W c = remove_pid_file W 0 c
         (followed_by (quits (ExitCode 0) [fallback_line pid]) (terminate_and_wait fuel W c pid))"
  | (ambiguous) pids where "live_pid W 0 = Inr None" "is_answering (health_reply W 0)" "length pids \<noteq> 1"
      "daemon_pids_by_command_line (process_list W) = Inr pids"
      "ctl_stop fuel W c = remove_pid_file W 0 c (quits (ExitCode 1) (ambiguous_lines (on_windows W) c pids))"
proof (cases "live_pid W 0")
  case (Inr found)
  show thesis
  proof (cases found)
    case None
    with Inr have stop: "ctl_stop fuel W c = remove_pid_file W 0 c
       (if \<not> is_answering (health_reply W 0) then quits (ExitCode 0) [nothing_running c]
        else (case daemon_pids_by_command_line (process_list W) of
            Inl e \<Rightarrow> quits (CtlRaises e) []
          | Inr pids \<Rightarrow> (case pids of
               [pid] \<Rightarrow> followed_by (quits (ExitCode 0) [fallback_line pid]) (terminate_and_wait fuel W c pid)
             | _ \<Rightarrow> quits (ExitCode 1) (ambiguous_lines (on_windows W) c pids))))" (is "_ = remove_pid_file W 0 c ?r")
      by (simp add: ctl_stop_def)
    consider "\<not> is_answering (health_reply W 0)"
      | e where "is_answering (health_reply W 0)" "daemon_pids_by_command_line (process_list W) = Inl e"
      | pid where "is_answering (health_reply W 0)" "daemon_pids_by_command_line (process_list W) = Inr [pid]"
      | pids where "is_answering (health_reply W 0)" "length pids \<noteq> 1"
          "daemon_pids_by_command_line (process_list W) = Inr pids"
      by (metis length_0_conv length_Suc_conv One_nat_def sum.exhaust)
    then show thesis
    proof cases
      case (4 pids)
      then have "?r = quits (ExitCode 1) (ambiguous_lines (on_windows W) c pids)"
        by (auto split: list.splits)
      with 4 Inr None stop show thesis by (intro ambiguous [of pids]) simp_all
    qed (use Inr None stop in \<open>auto intro: silent unreadable sole\<close>)
  qed (use Inr in \<open>auto simp: ctl_stop_def intro: known\<close>)
qed (auto simp: ctl_stop_def intro: unlisted)

section \<open>Properties\<close>

definition one_daemon :: "ustring option \<Rightarrow> bool \<Rightarrow> (nat \<Rightarrow> exn + ustring) \<Rightarrow> ctl_world" where
  "one_daemon file_text up lines =
     \<lparr>on_windows = False, pid_text = (\<lambda>_. file_text), process_line = (\<lambda>i _. lines i),
      process_list = Inr (us ''7''), health_reply = (\<lambda>_. if up then Done (JObj []) else Throws json_error_exn),
      terminate_error = (\<lambda>_. None), unlink_error = (\<lambda>_. None), monotonic = of_nat,
      char_printable = (\<lambda>_. True), float_text = (\<lambda>_. [])\<rparr>"

definition daemon_line :: ustring where
  "daemon_line = us ''python -m claude_pool.daemon''"

lemma daemon_line_found: "sublist (us ''claude_pool.daemon'') (strip daemon_line)"
proof -
  have "strip daemon_line = daemon_line"
    by (rule strip_id) (simp add: daemon_line_def us_def char_class_defs)
  moreover have "daemon_line = us ''python -m '' @ us ''claude_pool.daemon'' @ []"
    by (simp add: daemon_line_def us_def)
  ultimately have "strip daemon_line = us ''python -m '' @ us ''claude_pool.daemon'' @ []" by (rule trans)
  then show ?thesis unfolding sublist_def by (intro exI)
qed

lemma seven: "py_int (strip (us ''7'')) = Some 7"
  by (simp add: us_def strip_def lstrip_def char_class_defs py_int_def is_decimal_def decimal_of_def
      decimal_zeros_def int_max_str_digits_def digits_value_def)

lemma one_daemon_live:
  "live_pid (one_daemon (Some (us ''7'')) up lines) i =
     (case lines i of
        Inl e \<Rightarrow> Inl e
      | Inr line \<Rightarrow> Inr (if sublist (us ''claude_pool.daemon'') (strip line) then Some 7 else None))"
  by (simp add: live_daemon_pid_def read_pid_def command_line_def one_daemon_def seven split: sum.split)

text \<open>C37.
  \<open>stop\<close> signals at most one process, and only one it has identified: the one the pid file names,
  if that is a daemon at that moment, or, on a port that answers without a usable pid file, the
  only daemon process there is. Whatever it finds and however it ends, it removes no other pid file than its
  own port's, and it leaves that one where it could not look at the process the file names.\<close>

theorem stop_targets:
  "set (removed (ctl_stop fuel W c)) \<subseteq> {pid_file c}
    \<and> ((\<exists>e. live_pid W 0 = Inl e) \<longrightarrow> removed (ctl_stop fuel W c) = [])
    \<and> (\<forall>pid \<in> set (terminated (ctl_stop fuel W c)). terminated (ctl_stop fuel W c) = [pid]
        \<and> ((\<exists>s. pid_text W 0 = Some s \<and> py_int (strip s) = Some pid
            \<and> (\<exists>line. process_line W 0 pid = Inr line \<and> sublist (us ''claude_pool.daemon'') (strip line)))
         \<or> (live_pid W 0 = Inr None \<and> is_answering (health_reply W 0)
            \<and> daemon_pids_by_command_line (process_list W) = Inr [pid])))"
proof (cases rule: ctl_stop_cases [of W fuel c])
  case (known p)
  moreover from this have "\<nexists>e. live_pid W 0 = Inl e" by simp
  ultimately show ?thesis using terminate_and_wait_effects [of fuel W c p]
    by (auto simp: live_daemon_pid_Some)
next
  case (sole p)
  let ?r = "followed_by (quits (ExitCode 0) [fallback_line p]) (terminate_and_wait fuel W c p)"
  have "terminated ?r \<in> {[], [p]}" "set (removed ?r) \<subseteq> {pid_file c}"
    using terminate_and_wait_effects [of fuel W c p] by auto
  then have "terminated (ctl_stop fuel W c) \<in> {[], [p]}" "set (removed (ctl_stop fuel W c)) \<subseteq> {pid_file c}"
    using remove_pid_file_fields(1,2) [of W 0 c ?r] sole(4) by auto
  with sole show ?thesis by auto
next
  case silent
  with remove_pid_file_fields [of W 0 c "quits (ExitCode 0) [nothing_running c]"] show ?thesis by auto
next
  case (unreadable e)
  with remove_pid_file_fields [of W 0 c "quits (CtlRaises e) []"] show ?thesis by auto
next
  case (ambiguous pids)
  with remove_pid_file_fields [of W 0 c "quits (ExitCode 1) (ambiguous_lines (on_windows W) c pids)"]
  show ?thesis by auto
qed simp

theorem stop_targets_witness:
  "terminated (ctl_stop 2 (one_daemon (Some (us ''7'')) True (\<lambda>i. Inr (if i = 0 then daemon_line else []))) (default_config [])) = [7]"
proof -
  let ?W = "one_daemon (Some (us ''7'')) True (\<lambda>i. Inr (if i = 0 then daemon_line else []))"
  have "live_pid ?W 0 = Inr (Some 7)" using daemon_line_found by (simp add: one_daemon_live)
  then have "7 \<in> set (terminated (ctl_stop 2 ?W (default_config [])))"
    by (simp add: ctl_stop_def terminate_and_wait_def one_daemon_def followed_by_def)
  with stop_targets [of 2 ?W "default_config []"] show ?thesis by blast
qed

text \<open>C38.
  Stopping a daemon that its pid file names comes to an end: with a clock that advances the loop ends within a
  computable number of rounds. Exit code 0 means that the signal was sent and that a later look, before the deadline,
  found one of three things: the pid file was not there or not readable, it held no number, or the process it named
  had no daemon's command line. That the signalled process has ended it does not mean.\<close>

theorem stop_settles:
  assumes "\<forall>i. monotonic W i + step \<le> monotonic W (Suc i)" "0 < step"
    and "live_pid W 0 = Inr (Some pid)" "n = nat \<lceil>(monotonic W 0 + 10 - monotonic W 1) / step\<rceil>"
  shows "ends (ctl_stop (Suc n) W c) \<noteq> StillLooping
    \<and> (ends (ctl_stop (Suc n) W c) = ExitCode 0 \<longrightarrow>
         terminated (ctl_stop (Suc n) W c) = [pid] \<and> removed (ctl_stop (Suc n) W c) = [pid_file c]
         \<and> (\<exists>i > 0. monotonic W i < monotonic W 0 + 10 \<and>
              (case pid_text W i of
                 None \<Rightarrow> True
               | Some s \<Rightarrow>
                   (case py_int (strip s) of
                      None \<Rightarrow> True
                    | Some p \<Rightarrow> \<exists>line. process_line W i p = Inr line \<and>
                        \<not> sublist (us ''claude_pool.daemon'') (strip line)))))"
proof -
  have stop: "ctl_stop (Suc n) W c = terminate_and_wait (Suc n) W c pid"
    using assms(3) by (simp add: ctl_stop_def)
  let ?now = "\<lambda>i. monotonic W (Suc i)"
  have "monotonic W 0 + 10 \<le> ?now (nat \<lceil>(monotonic W 0 + 10 - ?now 0) / step\<rceil>)"
    by (rule clock_reaches) (use assms(1,2) in auto)
  then have "monotonic W 0 + STOP_TIMEOUT_SEC \<le> monotonic W (1 + n)"
    by (simp add: assms(4) STOP_TIMEOUT_SEC_def)
  from stop_loop_returns [OF this, of c pid]
  have "ends (ctl_stop (Suc n) W c) \<noteq> StillLooping"
    unfolding stop by (auto simp: terminate_and_wait_def split: option.splits)
  moreover have "terminated (ctl_stop (Suc n) W c) = [pid] \<and> removed (ctl_stop (Suc n) W c) = [pid_file c]
      \<and> (\<exists>i > 0. live_pid W i = Inr None \<and> monotonic W i < monotonic W 0 + 10)"
    if success: "ends (ctl_stop (Suc n) W c) = ExitCode 0"
  proof -
    let ?loop = "stop_loop (Suc n) W c pid (monotonic W 0 + STOP_TIMEOUT_SEC) 1"
    have run: "terminate_and_wait (Suc n) W c pid = followed_by ((quits (ExitCode 0) [])\<lparr>terminated := [pid]\<rparr>) ?loop"
      using success stop by (auto simp: terminate_and_wait_def split: option.splits)
    then have "ends ?loop = ExitCode 0" using success stop by (simp only: followed_by_fields)
    from stop_loop_success [OF this] stop_loop_effects(1) [of "Suc n" W c pid] show ?thesis
      unfolding stop run STOP_TIMEOUT_SEC_def by (auto dest: Suc_le_lessD simp del: stop_loop.simps)
  qed
  moreover have "case pid_text W i of
      None \<Rightarrow> True
    | Some s \<Rightarrow> (case py_int (strip s) of
          None \<Rightarrow> True
        | Some p \<Rightarrow> \<exists>line. process_line W i p = Inr line \<and> \<not> sublist (us ''claude_pool.daemon'') (strip line))"
    if "live_pid W i = Inr None" for i
    using that by (auto simp: live_daemon_pid_def read_pid_def command_line_def split: option.splits sum.splits if_splits)
  ultimately show ?thesis by blast
qed

theorem stop_settles_witness:
  "removed (ctl_stop 10 (one_daemon (Some (us ''7'')) True (\<lambda>i. Inr (if i = 0 then daemon_line else []))) (default_config []))
    = [pid_file (default_config [])]"
proof -
  let ?W = "one_daemon (Some (us ''7'')) True (\<lambda>i. Inr (if i = 0 then daemon_line else []))"
  have up: "live_pid ?W 0 = Inr (Some 7)" using daemon_line_found by (simp add: one_daemon_live)
  have gone: "live_pid ?W 1 = Inr None"
    by (subst one_daemon_live) (simp add: strip_def lstrip_def)
  have clock: "\<forall>i. monotonic ?W i + 1 \<le> monotonic ?W (Suc i)" by (simp add: one_daemon_def)
  have "(9::nat) = nat \<lceil>(monotonic ?W 0 + 10 - monotonic ?W 1) / 1\<rceil>" by (simp add: one_daemon_def)
  note settled = stop_settles [OF clock zero_less_one up this, of "default_config []"]
  have nums: "terminate_error ?W 7 = None" "unlink_error ?W 1 = None" "monotonic ?W 1 = 1" "monotonic ?W 0 = 0"
    by (simp_all add: one_daemon_def)
  have "ends (stop_loop (Suc 9) ?W (default_config []) 7 10 1) = ExitCode 0"
    using gone nums by (subst stop_loop.simps) (simp add: remove_pid_file_def)
  then have "ends (ctl_stop (Suc 9) ?W (default_config [])) = ExitCode 0"
    using up nums by (simp add: ctl_stop_def terminate_and_wait_def STOP_TIMEOUT_SEC_def del: stop_loop.simps)
  with settled show ?thesis by simp
qed

text \<open>
  On the fallback path success is no observation: there is no pid file to watch, so the first
  round already finds none and reports the process stopped, running or not.
\<close>

theorem fallback_stop_unverified:
  assumes "pid_text W 0 = None" "pid_text W 1 = None" "is_answering (health_reply W 0)"
    and "daemon_pids_by_command_line (process_list W) = Inr [pid]"
    and "terminate_error W pid = None" "unlink_error W 0 = None" "unlink_error W 1 = None"
    and "monotonic W 1 < monotonic W 0 + 10"
  shows "ends (ctl_stop (Suc n) W c) = ExitCode 0
    \<and> printed (ctl_stop (Suc n) W c) = [fallback_line pid, stopped_line pid]"
proof -
  have "live_pid W 0 = Inr None" "live_pid W 1 = Inr None" using assms(1,2) by (simp_all add: no_pid_file)
  with assms(3-8) show ?thesis
    by (simp add: ctl_stop_def terminate_and_wait_def remove_pid_file_def STOP_TIMEOUT_SEC_def)
qed

text \<open>
  Every command needs the process listing. Where \<open>ps\<close> is not installed, a daemon that is up and has
  its pid file can neither be stopped nor shown.
\<close>

theorem listing_error_escapes:
  assumes "pid_text W i = Some s" "py_int (strip s) = Some pid" "process_line W i pid = Inl e"
  shows "ctl_status W i c = (case health_reply W i of Done h \<Rightarrow> quits (CtlRaises e) [] | _ \<Rightarrow> ctl_status W i c)
    \<and> (i = 0 \<longrightarrow> ctl_stop fuel W c = quits (CtlRaises e) [])"
proof -
  have "live_pid W i = Inl e" using assms by (simp add: live_daemon_pid_def read_pid_def command_line_def)
  then show ?thesis by (auto simp: ctl_status_def ctl_stop_def split: result.split)
qed

end
