(* ===== verification/Ask.thy ===== *)
theory Ask
  imports DaemonCtl
begin

text \<open>
  \<open>scripts/ask.py\<close>: one prompt from the command line. The client's constructor (\<open>made\<close>) and its
  exchange with the daemon (\<open>post\<close>) are arguments; the answer is printed, a failure goes to the
  error stream with the daemon's classification.
\<close>

definition USAGE :: ustring where
  "USAGE = us (''usage: python scripts/ask.py '' @ [CHR 0x22] @ ''<prompt>'' @ [CHR 0x22])"

definition ask_prompt :: "ustring list \<Rightarrow> ustring" where
  "ask_prompt args = strip (intercalate (us '' '') args)"

definition failure_line :: "(json \<Rightarrow> ustring) \<Rightarrow> client_error \<Rightarrow> ustring" where
  "failure_line show_json e =
     (let detail = us ''kind='' @ show_json (error_kind e) @ us '' retryable='' @ show_json (JBool (is_retryable e)) @
            (if retry_after e = JNull then [] else us '' retry_after_sec='' @ show_json (retry_after e))
      in show_json (message e) @ us '' ('' @ detail @ us '')'')"

definition complains :: "int \<Rightarrow> ustring \<Rightarrow> ctl_run" where
  "complains n l = (quits (ExitCode n) [])\<lparr>complained := [l]\<rparr>"

definition ask_main :: "(json \<Rightarrow> ustring) \<Rightarrow> unit result option \<Rightarrow> (ustring \<Rightarrow> exchange) \<Rightarrow> ustring list \<Rightarrow> ctl_run" where
  "ask_main show_json made post args =
     (let prompt = ask_prompt args
      in if prompt = [] then complains 2 USAGE
         else (case made of
                 None \<Rightarrow> quits StillLooping []
               | Some c \<Rightarrow>
                   (case bind_result c (\<lambda>_. client_generate (post prompt)) of
                      Done t \<Rightarrow> quits (ExitCode 0) [show_json t]
                    | Fails e \<Rightarrow> complains 1 (failure_line show_json e)
                    | Throws x \<Rightarrow> quits (CtlRaises x) [])))"

text \<open>The exit code tells the three ends apart, and a failure names its kind on the error stream.\<close>

lemma bind_result_Done: "bind_result c f = Done t \<longleftrightarrow> (\<exists>a. c = Done a \<and> f a = Done t)"
  by (cases c) auto

lemma ask_exit_codes:
  "ends (ask_main show_json made post args) = ExitCode 2 \<longleftrightarrow> ask_prompt args = []"
  "ends (ask_main show_json made post args) = ExitCode 0 \<longleftrightarrow>
     ask_prompt args \<noteq> [] \<and> (\<exists>t. made = Some (Done ()) \<and> client_generate (post (ask_prompt args)) = Done t)"
proof -
  let ?r = "\<lambda>c. bind_result c (\<lambda>_. client_generate (post (ask_prompt args)))"
  show "ends (ask_main show_json made post args) = ExitCode 2 \<longleftrightarrow> ask_prompt args = []"
    by (cases made; cases "?r (the made)") (simp_all add: ask_main_def Let_def complains_def quits_def)
  have "ends (ask_main show_json made post args) = ExitCode 0 \<longleftrightarrow>
     ask_prompt args \<noteq> [] \<and> (\<exists>c t. made = Some c \<and> ?r c = Done t)"
    by (cases made; cases "?r (the made)") (simp_all add: ask_main_def Let_def complains_def quits_def)
  then show "ends (ask_main show_json made post args) = ExitCode 0 \<longleftrightarrow>
     ask_prompt args \<noteq> [] \<and> (\<exists>t. made = Some (Done ()) \<and> client_generate (post (ask_prompt args)) = Done t)"
    by (simp add: bind_result_Done)
qed

end
