(* ===== verification/Bench.thy ===== *)
theory Bench
  imports PyBytes Worker
begin






subsection \<open>One run\<close>






subsection \<open>Statistics and formatting\<close>





subsection \<open>main\<close>





subsection \<open>What is measured\<close>











subsection \<open>The script as a whole\<close>





end
