(* ===== verification/Investigate.thy ===== *)
theory Investigate
  imports Worker PyRepr
begin

text \<open>
  \<open>scripts/investigate_stream_json_timeout.py\<close>: a process started, left alone for a while and then
  given its prompt as the daemon gives it; what it printed is reported line by line. What the process
  does is an argument: \<open>spawn\<close> is the pid an argument list brings, or what
  \<open>create_subprocess_exec\<close> raised, and \<open>talk\<close> what \<open>communicate\<close> brings for an input and a timeout,
  as for \<open>Worker.run\<close>.
\<close>

definition FEED_MODEL :: ustring where
  "FEED_MODEL = us ''haiku''"

definition FEED_ARGV :: "ustring list" where
  "FEED_ARGV =
     map us [''claude'', ''-p'', ''--input-format'', ''stream-json'', ''--output-format'', ''stream-json'',
       ''--verbose'', ''--no-session-persistence'', ''--tools'', [], ''--strict-mcp-config'',
       ''--safe-mode'', ''--model''] @ [FEED_MODEL]"

definition feed_message :: json where
  "feed_message =
     JObj [(us ''type'', jstr ''user''),
       (us ''message'',
        JObj [(us ''role'', jstr ''user''), (us ''content'', jstr ''reply with the single word OK'')])]"

definition feed_payload :: "(pyfloat \<Rightarrow> ustring) \<Rightarrow> bytes option" where
  "feed_payload float_repr = utf8_encode (dumps float_repr feed_message @ [10])"

subsection \<open>The report\<close>

text \<open>
  One line of the output: what is printed for it, or the exception that ends the script. The line
  is not stripped, so an empty one is reported as unparseable.
\<close>

definition report_line :: "(nat \<Rightarrow> bool) \<Rightarrow> (pyfloat \<Rightarrow> ustring) \<Rightarrow> ustring \<Rightarrow> exn + ustring" where
  "report_line is_printable float_repr line =
     (case loads line of
        JSONDecodeError \<Rightarrow> Inr (us ''UNPARSEABLE LINE: '' @ take 300 line)
      | IntTooLong \<Rightarrow> Inl int_too_long
      | Loaded (JObj d) \<Rightarrow>
          (if get d ''type'' = jstr ''result'' then Inr (us ''RESULT: '' @ dumps float_repr (JObj d))
           else Inr (us ''line type: '' @ str_json is_printable float_repr (get d ''type'') @ us '' '' @
                  str_json is_printable float_repr (get d ''subtype'')))
      | Loaded j \<Rightarrow> Inl (no_get j))"

fun report_lines :: "(nat \<Rightarrow> bool) \<Rightarrow> (pyfloat \<Rightarrow> ustring) \<Rightarrow> ustring list \<Rightarrow> exn option \<times> ustring list" where
  "report_lines is_printable float_repr [] = (None, [])"
| "report_lines is_printable float_repr (line # rest) =
     (case report_line is_printable float_repr line of
        Inl e \<Rightarrow> (Some e, [])
      | Inr l \<Rightarrow> (let (e, out) = report_lines is_printable float_repr rest in (e, l # out)))"

definition report :: "(nat \<Rightarrow> bool) \<Rightarrow> (pyfloat \<Rightarrow> ustring) \<Rightarrow> bytes \<Rightarrow> bytes \<Rightarrow> int \<Rightarrow> exn option \<times> ustring list" where
  "report is_printable float_repr out err rc =
     (let (e, ls) = report_lines is_printable float_repr (splitlines (utf8_decode out));
          begins = [us ''returncode='' @ show_int rc,
                    us (''stdout lines (type field only, plus full '' @ [CHR 0x27] @ ''result'' @ [CHR 0x27] @ '' line):'')]
      in case e of
           Some x \<Rightarrow> (Some x, begins @ ls)
         | None \<Rightarrow> (None, begins @ ls @ [us ''stderr:'', take 2000 (utf8_decode err)]))"

text \<open>
  \<open>try_delayed_feed\<close>: the exception it ends with if any, the lines printed, and the process table
  after it. The message is ASCII, so that it cannot be encoded is a branch that is never taken.
\<close>

definition unencodable :: exn where
  "unencodable = Exn (us ''UnicodeEncodeError'') (us ''surrogates not allowed'')"

definition try_delayed_feed ::
    "(nat \<Rightarrow> bool) \<Rightarrow> (pyfloat \<Rightarrow> ustring) \<Rightarrow> pyfloat \<Rightarrow> (ustring list \<Rightarrow> exn + nat) \<Rightarrow> (bytes \<Rightarrow> rat \<Rightarrow> comm) \<Rightarrow>
       ptable \<Rightarrow> exn option \<times> ustring list \<times> ptable" where
  "try_delayed_feed is_printable float_repr delay_sec spawn talk T =
     (let banner = us (CHR 0x0A # ''=== delay='') @ float_repr delay_sec @ us ''s ===''
      in case spawn FEED_ARGV of
           Inl e \<Rightarrow> (Some e, [banner], T)
         | Inr p \<Rightarrow>
             (let w = new_worker\<lparr>proc := Some p\<rparr>; T' = T(p \<mapsto> Running)
              in case feed_payload float_repr of
                   None \<Rightarrow> (Some unencodable, [banner], T')
                 | Some payload \<Rightarrow>
                     (case talk payload 30 of
                        CommTimeout \<Rightarrow>
                          (None, [banner, us ''TIMED OUT waiting for process to respond''],
                           awaited w (signalled w T'))
                      | CommDone out err rc \<Rightarrow>
                          (let (e, ls) = report is_printable float_repr out err rc
                           in (e, banner # ls, T'(p \<mapsto> Reaped rc))))))"

definition investigate_main ::
    "(nat \<Rightarrow> bool) \<Rightarrow> (pyfloat \<Rightarrow> ustring) \<Rightarrow> (ustring list \<Rightarrow> exn + nat) \<Rightarrow> (bytes \<Rightarrow> rat \<Rightarrow> comm) \<Rightarrow> ptable \<Rightarrow>
       exn option \<times> ustring list \<times> ptable" where
  "investigate_main is_printable float_repr spawn talk T =
     try_delayed_feed is_printable float_repr (Finite 15) spawn talk T"

subsection \<open>It exercises what the daemon does\<close>

text \<open>The argument list is the daemon's for the command and model the script has, the payload a prompt's line.\<close>

lemma feed_argv_is_build_argv:
  "claude_cmd c = JList [jstr ''claude''] \<Longrightarrow> model c = us ''haiku'' \<Longrightarrow> FEED_ARGV = build_argv c"
  by (simp add: FEED_ARGV_def FEED_MODEL_def build_argv_def)

lemma feed_payload_is_input_line:
  "feed_payload fr = utf8_encode (input_line fr (us ''reply with the single word OK''))"
  by (simp add: feed_payload_def feed_message_def input_line_def prompt_message_def)

lemma feed_payload_encodes: "feed_payload fr \<noteq> None"
  by (simp add: feed_payload_is_input_line input_line_encodes)

text \<open>Whatever happens to it, the process the script started is reaped when it ends.\<close>

lemma feed_reaps:
  assumes "try_delayed_feed pr fr delay spawn talk T = (e, out, T')" "spawn FEED_ARGV = Inr p"
  shows "reaped T' p" "q \<noteq> p \<Longrightarrow> T' q = T q"
  using assms awaited_reaps [of "new_worker\<lparr>proc := Some p\<rparr>" p] signalled_stops [of "new_worker\<lparr>proc := Some p\<rparr>" p]
    feed_payload_encodes [of fr]
  by (auto simp: try_delayed_feed_def Let_def awaited_other signalled_other split: comm.splits prod.splits)

definition result_line :: "ustring \<Rightarrow> bool" where
  "result_line l \<longleftrightarrow> take 8 l = us ''RESULT: ''"

lemma report_line_kinds:
  assumes "report_line pr fr line = Inr l"
  obtains (noise) "loads line = JSONDecodeError" "\<not> result_line l"
  | (other) d where "loads line = Loaded (JObj d)" "\<not> is_result d" "\<not> result_line l"
  | (result) d where "loads line = Loaded (JObj d)" "is_result d" "l = us ''RESULT: '' @ dumps fr (JObj d)"
  using assms
  by (auto simp: report_line_def is_result_def result_line_def us_def split: loaded.splits json.splits if_splits)

lemma loads_Nil: "loads [] = JSONDecodeError"
  by code_simp

text \<open>
  If the report runs through, the first result line in it is the object the daemon would have
  answered with; without one the daemon would have raised a WorkerError. Lines with white space
  around them are excluded, for the daemon strips them and the script does not.
\<close>

lemma report_agrees:
  assumes "report_lines pr fr ls = (None, out)" "\<forall>l \<in> set ls. strip l = l"
  shows "\<exists>r code'. read_lines code ls = Inr (r, code') \<and>
    find result_line out = map_option (\<lambda>d. us ''RESULT: '' @ dumps fr (JObj d)) r"
  using assms
proof (induction ls arbitrary: out code)
  case (Cons line rest)
  from Cons.prems(1) obtain l out' where l: "report_line pr fr line = Inr l"
    and rest: "report_lines pr fr rest = (None, out')" and out: "out = l # out'"
    by (auto split: sum.splits prod.splits)
  have s: "strip line = line" using Cons.prems(2) by simp
  have ih: "\<exists>r code'. read_lines code rest = Inr (r, code') \<and>
    find result_line out' = map_option (\<lambda>d. us ''RESULT: '' @ dumps fr (JObj d)) r" for code
    using Cons.IH [OF rest] Cons.prems(2) by simp
  from l show ?case
  proof (cases rule: report_line_kinds)
    case noise
    then show ?thesis using ih [of code] by (simp add: s out Let_def)
  next
    case (other d)
    then have "line \<noteq> []" by (auto simp: loads_Nil)
    with other show ?thesis using ih [of "code_after code d"] by (simp add: s out Let_def)
  next
    case (result d)
    then have "line \<noteq> []" by (auto simp: loads_Nil)
    moreover have "result_line l" by (simp add: result(3) result_line_def us_def)
    ultimately show ?thesis using result by (simp add: s out Let_def)
  qed
qed simp

text \<open>C39.
  The experiment exercises what the daemon does. For the configuration with the script's command and
  model it starts the worker's argument vector and writes the worker's input line; and whenever its
  report runs through, the first result it prints is the one \<open>Worker.run\<close> returns for the same
  output, and it prints none exactly when \<open>run\<close> raises a WorkerError. Either way the process is reaped.
\<close>

theorem delayed_feed_matches_worker:
  assumes "claude_cmd c = JList [jstr ''claude'']" "model c = us ''haiku''"
    and "try_delayed_feed pr fr delay spawn talk T = (None, printed, T')" "spawn FEED_ARGV = Inr p"
    and "feed_payload fr = Some payload" "talk payload 30 = CommDone out err rc"
    and "\<forall>l \<in> set (splitlines (utf8_decode out)). strip l = l" "proc w = Some p"
  shows "FEED_ARGV = build_argv c \<and>
    feed_payload fr = utf8_encode (input_line fr (us ''reply with the single word OK'')) \<and>
    (\<exists>ls. drop 3 printed = ls @ [us ''stderr:'', take 2000 (utf8_decode err)] \<and>
      (case find result_line ls of
         None \<Rightarrow> fst (Worker.run w (CommDone out err rc) T) = RanWorkerError (no_result_text rc err)
       | Some l \<Rightarrow> \<exists>d code. l = us ''RESULT: '' @ dumps fr (JObj d) \<and>
           fst (Worker.run w (CommDone out err rc) T) = RanResult (result_of d code))) \<and>
    reaped T' p"
proof (intro conjI)
  show "FEED_ARGV = build_argv c" using assms(1,2) by (rule feed_argv_is_build_argv)
  show "feed_payload fr = utf8_encode (input_line fr (us ''reply with the single word OK''))"
    by (rule feed_payload_is_input_line)
  show "reaped T' p" using assms(3,4) by (rule feed_reaps)
  from assms(3-6) obtain ls where r: "report_lines pr fr (splitlines (utf8_decode out)) = (None, ls)"
    and printed: "drop 3 printed = ls @ [us ''stderr:'', take 2000 (utf8_decode err)]"
    by (auto simp: try_delayed_feed_def report_def Let_def split: prod.splits option.splits)
  from report_agrees [OF r assms(7), of "[]"] obtain res code where
    "parse_stream out = Inr (res, code)"
    "find result_line ls = map_option (\<lambda>d. us ''RESULT: '' @ dumps fr (JObj d)) res"
    unfolding parse_stream_def by blast
  with assms(8) printed show "\<exists>ls. drop 3 printed = ls @ [us ''stderr:'', take 2000 (utf8_decode err)] \<and>
      (case find result_line ls of
         None \<Rightarrow> fst (Worker.run w (CommDone out err rc) T) = RanWorkerError (no_result_text rc err)
       | Some l \<Rightarrow> \<exists>d code. l = us ''RESULT: '' @ dumps fr (JObj d) \<and>
           fst (Worker.run w (CommDone out err rc) T) = RanResult (result_of d code))"
    by (intro exI [of _ ls]) (auto simp: Worker.run_def split: option.split)
qed

text \<open>A system line and a result line.\<close>

definition sample_lines :: "ustring list" where
  "sample_lines =
     [us (''{'' @ [CHR 0x22] @ ''type'' @ [CHR 0x22] @ '':'' @ [CHR 0x22] @ ''system'' @ [CHR 0x22] @ ''}''),
      us (''{'' @ [CHR 0x22] @ ''type'' @ [CHR 0x22] @ '':'' @ [CHR 0x22] @ ''result'' @ [CHR 0x22] @ ''}'')]"

lemma sample_lines_plain:
  "list_all (list_all (\<lambda>c. c < 128 \<and> \<not> is_linebreak c)) sample_lines"
  "list_all (\<lambda>l. strip l = l) sample_lines"
  by (simp_all add: sample_lines_def us_def char_class_defs strip_def lstrip_def)

lemma sample_report:
  "report_lines (\<lambda>_. True) (\<lambda>_. []) sample_lines =
     (None, [us ''line type: system None'',
       us (''RESULT: {'' @ [CHR 0x22] @ ''type'' @ [CHR 0x22] @ '': '' @ [CHR 0x22] @ ''result'' @ [CHR 0x22] @ ''}'')])"
  by code_simp

definition sample_output :: bytes where
  "sample_output = map of_nat (join_lines sample_lines)"

lemma sample_output_lines: "splitlines (utf8_decode sample_output) = sample_lines"
proof -
  have "list_all (\<lambda>c. c < 128) (join_lines sample_lines)"
    using sample_lines_plain(1) by (auto simp: join_lines_def list_all_iff)
  from utf8_roundtrip [OF utf8_encode_ascii [OF this]] have "utf8_decode sample_output = join_lines sample_lines"
    by (simp add: sample_output_def)
  moreover have "list_all (list_all (\<lambda>c. \<not> is_linebreak c)) sample_lines"
    using sample_lines_plain(1) by (auto simp: list_all_iff)
  ultimately show ?thesis by (simp add: splitlines_join_lines)
qed

theorem delayed_feed_matches_worker_witness:
  "\<exists>c printed T'. FEED_ARGV = build_argv c \<and> reaped T' 7 \<and>
     investigate_main (\<lambda>_. True) (\<lambda>_. []) (\<lambda>_. Inr 7) (\<lambda>_ _. CommDone sample_output [] 0) Map.empty
       = (None, printed, T') \<and>
     (\<exists>d code. fst (Worker.run (new_worker\<lparr>proc := Some 7\<rparr>) (CommDone sample_output [] 0) Map.empty)
        = RanResult (result_of d code))"
proof -
  let ?c = "(default_config [])\<lparr>model := us ''haiku''\<rparr>"
  let ?f = "investigate_main (\<lambda>_. True) (\<lambda>_. []) (\<lambda>_. Inr 7) (\<lambda>_ _. CommDone sample_output [] 0) Map.empty"
  from feed_payload_encodes obtain payload where payload: "feed_payload (\<lambda>_. []) = Some payload" by blast
  then obtain printed T' where f: "?f = (None, printed, T')"
    and p: "drop 3 printed = snd (report_lines (\<lambda>_. True) (\<lambda>_. []) sample_lines) @ [us ''stderr:'', take 2000 (utf8_decode [])]"
    by (simp add: investigate_main_def try_delayed_feed_def report_def sample_output_lines sample_report)
  have c: "claude_cmd ?c = JList [jstr ''claude'']" "model ?c = us ''haiku''"
    by (simp_all add: default_config_def)
  have w: "proc (new_worker\<lparr>proc := Some 7\<rparr>) = Some 7" by simp
  have l: "\<forall>l \<in> set (splitlines (utf8_decode sample_output)). strip l = l"
    using sample_lines_plain(2) by (simp add: sample_output_lines list_all_iff)
  note applied = delayed_feed_matches_worker
    [OF c f [unfolded investigate_main_def] refl payload refl l w]
  have "find result_line (snd (report_lines (\<lambda>_. True) (\<lambda>_. []) sample_lines)) \<noteq> None"
    by (simp add: sample_report result_line_def us_def)
  moreover from applied p obtain ls where
    "ls = snd (report_lines (\<lambda>_. True) (\<lambda>_. []) sample_lines)"
    "case find result_line ls of
       None \<Rightarrow> fst (Worker.run (new_worker\<lparr>proc := Some 7\<rparr>) (CommDone sample_output [] 0) Map.empty) =
         RanWorkerError (no_result_text 0 [])
     | Some l \<Rightarrow> \<exists>d code. l = us ''RESULT: '' @ dumps (\<lambda>_. []) (JObj d) \<and>
         fst (Worker.run (new_worker\<lparr>proc := Some 7\<rparr>) (CommDone sample_output [] 0) Map.empty) =
           RanResult (result_of d code)"
    by auto
  ultimately have "\<exists>d code. fst (Worker.run (new_worker\<lparr>proc := Some 7\<rparr>) (CommDone sample_output [] 0) Map.empty)
      = RanResult (result_of d code)"
    by (cases "find result_line ls") (simp, auto simp del: dumps.simps)
  with applied f show ?thesis by blast
qed

end
