(* ===== verification/Spec2Isabelle.thy ===== *)
theory Spec2Isabelle
  imports PoolLive JobSystem ServerProps DaemonCtlProps Ask Winjob Bench Investigate
begin

text \<open>
  \<^bold>\<open>claude-pool\<close>: a local daemon that serves the authenticated \<^verbatim>\<open>claude\<close> command line tool over
  HTTP. A pool keeps worker processes warm; a request takes one, hands it a prompt, reads the
  stream it prints and retires it. Jobs run the same executions in the background. A client
  library, a control script and a one-shot script use the daemon. The sources are
  \<^verbatim>\<open>src/src/claude_pool/*.py\<close> and \<^verbatim>\<open>src/scripts/*.py\<close>; this development models them shallowly,
  one group of definitions per file, and this theory holds what spans several of them.

  \<^bold>\<open>How the parts interact.\<close> \<open>Config\<close> reads the environment; \<open>Daemon.run_daemon\<close> starts the pool and
  the server and winds both down. A request passes \<open>Server.require_loopback_host\<close>, is parsed by
  \<open>read_prompt_request\<close> and handed to \<open>Runner.execute\<close>, directly or through \<open>Jobs.submit\<close>.
  \<open>execute\<close> acquires a worker of \<open>Pool\<close>, runs it (\<open>Worker.run\<close>), classifies the result
  (\<open>Errors.classify\<close>) and starts the release. \<open>Client\<close> maps the answers back.

  \<^bold>\<open>Theories.\<close>
  \<^item> \<open>Prelude\<close>: code-point strings, exceptions, insertion-ordered dictionaries (locale
    \<open>keyed_store\<close>), reachability, and as locales the invariant rule (\<open>invariant_of\<close>), refinement
    (\<open>simulation\<close>) and the polling loop (\<open>fuelled_loop\<close>, which the client's two loops and the one
    of \<open>stop\<close> interpret).
  \<^item> \<open>PyText\<close>, \<open>PyNumber\<close>, \<open>PyCodec\<close>, \<open>PyRepr\<close>, \<open>Json\<close>, \<open>PyBytes\<close>, \<open>IpAddress\<close>: what the code uses of
    CPython 3.11's library: text methods, \<open>int\<close> and \<open>float\<close> of text, UTF-8 with replacement, \<open>repr\<close>, the
    \<open>json\<close> module on text and on bytes, \<open>ipaddress\<close>. \<open>JsonFacts\<close>: \<open>loads\<close> after \<open>dumps\<close> is the identity, \<open>dumps\<close> writes
    one line of ASCII, the scanner's fuel suffices.
  \<^item> \<open>Errors\<close> (\<^verbatim>\<open>errors.py\<close>), \<open>Config\<close> (\<^verbatim>\<open>config.py\<close>), \<open>Worker\<close> (\<^verbatim>\<open>worker.py\<close>): functions over JSON values,
    environments and byte streams; a table of processes stands for the children. \<open>start\<close> puts its process into the
    job object of \<open>Winjob\<close>, which may raise when the process already runs; \<open>read_lines_reference\<close> says what
    decides a stream.
  \<^item> \<open>Pool\<close> (\<^verbatim>\<open>pool.py\<close>): the attributes of \<open>WorkerPool\<close> as a record and each stretch of code between
    two awaits as a function. \<open>PoolSystem\<close>: the coroutines as tasks at their awaits and the step
    relation that interleaves them, with the lock, notification and cancellation of asyncio and
    with processes that die; a task that spawns carries how far its child is, and \<open>orphans\<close> holds the processes a
    job object refused. \<open>PoolCounts\<close> (counters, bounds), \<open>PoolOwners\<close> (who owns which
    process) and \<open>PoolStop\<close> (shutdown) are its invariants, each an interpretation of
    \<open>invariant_of\<close>; \<open>PoolTraces\<close> has small reachable states, \<open>PoolProps\<close> the properties,
    \<open>PoolLife\<close> the refinement of an abstract worker life, whose stages are a \<open>linorder\<close>, and
    \<open>PoolLive\<close> a bound on the steps a shutdown still needs.
  \<^item> \<open>Runner\<close> (\<^verbatim>\<open>runner.py\<close>), \<open>Jobs\<close> (\<^verbatim>\<open>jobs.py\<close>, each operation as one function), \<open>JobsProps\<close> (the store as a
    step relation over them, its invariant and the fate of a job in a step), \<open>JobSystem\<close> (\<open>cancel\<close> and
    \<open>shutdown\<close> split at their waits, with the \<open>Job\<close> objects on a heap that the dictionary, the tasks and the
    waiting callers share; it refines the abstract \<open>job_life\<close>, and \<open>cancel_scheduled\<close> and
    \<open>shutdown_scheduled\<close> show the functions of \<open>Jobs\<close> to be its uninterrupted schedules).
  \<^item> \<open>Apidocs\<close> (\<^verbatim>\<open>apidocs.py\<close>, character for character), \<open>ApiFacts\<close>; \<open>Server\<close> (\<^verbatim>\<open>server.py\<close>), \<open>ServerProps\<close>;
    \<open>Client\<close> (\<^verbatim>\<open>client.py\<close>).
  \<^item> \<open>Daemon\<close> (\<^verbatim>\<open>daemon.py\<close>), \<open>DaemonProps\<close>: the calls of \<open>run_daemon\<close> in their \<open>try\<close> and \<open>finally\<close> blocks, an
    exception possible at each. \<open>DaemonCtl\<close> (\<^verbatim>\<open>daemon_ctl.py\<close>), \<open>DaemonCtlProps\<close>, \<open>Ask\<close> (\<^verbatim>\<open>ask.py\<close>): the
    commands with their output and exit codes. \<open>Winjob\<close> (\<^verbatim>\<open>winjob.py\<close>): the kill-on-close job.
  \<^item> \<open>Bench\<close> (\<^verbatim>\<open>bench_cold_vs_warm.py\<close>), \<open>Investigate\<close> (\<^verbatim>\<open>investigate_stream_json_timeout.py\<close>): the two
    measuring scripts with what they start, feed, print and raise.

  \<^bold>\<open>What is shown.\<close> Of the pool, in every reachable state: counters agree with what exists,
  processes are bounded and owned once, a busy worker is left alone, a used one never returns,
  a shutdown can always finish and is then final, and the whole implements the abstract life of \<open>PoolLife\<close>; three
  reachable states contradict what the code intends, one of them with a job object only. Of executions and streams: what decides an
  outcome, for any output, what each end of a run comes to, and that the worker is given back. Of the store: the life of a job under any interleaving, what a
  cancellation answers, the store's bound and its order. Of the server: exactly which hosts pass, which bodies are bad requests and that they cost
  nothing, what an answer says, and that its failures are the documented ones. Of the client and the scripts: that their loops
  end, what they report and whom they signal; of the measuring scripts: that they measure what they name
  and exercise the daemon's own exchange. Of the daemon: the order of its shutdown under
  every fault and what becomes of the pid files.

  \<^bold>\<open>Parameters and bounds.\<close> The child process (\<open>comm\<close>), the HTTP exchange, the clock, \<open>ps\<close> and \<open>pgrep\<close>,
  the file system and \<open>float.__repr__\<close> are arguments of the definitions that use them; floats are
  exact rationals with the infinities. Fuel: \<open>loads\<close> takes twice the length of the text plus one, which
  \<open>json_fuel_enough\<close> proves sufficient; the polling loops of the client and of \<open>stop\<close> take fuel, and
  \<open>wait_returns\<close> and \<open>stop_settles\<close> compute enough of it from the clock's step.

  \<^bold>\<open>Not modelled.\<close> aiohttp's parsing and routing, urllib, the recursion limit of \<open>json\<close>, the rounding of
  floats, the encoding of the terminal that printed text goes to, and what a call writes before it raises
  (a pid file left truncated).
\<close>

subsection \<open>From the caller to the answer\<close>

text \<open>
  What aiohttp makes of a handler's response and urllib of what arrives: the status, the
  \<open>Retry-After\<close> header and the body, UTF-8 encoded; what \<open>json.dumps\<close> wrote is ASCII.
\<close>

definition body_on_wire :: "(pyfloat \<Rightarrow> ustring) \<Rightarrow> body \<Rightarrow> ustring" where
  "body_on_wire float_repr b = (case b of JsonBody j \<Rightarrow> dumps float_repr j | HtmlBody t \<Rightarrow> t)"

definition on_wire :: "(pyfloat \<Rightarrow> ustring) \<Rightarrow> response \<Rightarrow> exchange" where
  "on_wire float_repr r =
     Replied \<lparr>reply_status = response_status r,
       retry_after_header = map_of (response_headers r) (us ''Retry-After''),
       reply_body = Inr (the (utf8_encode (body_on_wire float_repr (response_body r))))\<rparr>"

lemma known_kind_clean: "known_failure f \<Longrightarrow> clean (kind f)"
  by (auto simp: known_failure_def us_def high_surrogate_def)

lemma short_number: "length (show_nat 60) \<le> 4300"
  using show_nat_length [of 60 2] by simp

text \<open>A failed outcome, answered by the server and read by the client.\<close>

lemma failure_on_wire:
  assumes "failed_as out = Some f" "known_failure f" "plain (error_text out)" "plain (took_ms out)"
  shows "\<exists>r. failure_response out = Responds r \<and> call (on_wire fr r) = Fails
    \<lparr>message = error_text out, error_kind = JStr (kind f), is_retryable = retryable f,
     retry_after = (if kind f = us ''rate_limited'' then JInt 60 else JNull)\<rparr>"
proof -
  let ?d = "[(us ''error'', error_text out), (us ''kind'', JStr (kind f)), (us ''retryable'', JBool (retryable f))] @
    (if truthy (took_ms out) then [(us ''duration_ms'', took_ms out)] else [])"
  let ?hs = "if kind f = us ''rate_limited'' then [(us ''Retry-After'', show_int 60)] else []"
  let ?n = "if kind f = us ''rate_limited'' then Some (60 :: nat) else None"
  let ?r = "\<lparr>response_status = status f, response_headers = ?hs, response_body = JsonBody (JObj ?d)\<rparr>"
  let ?p = "\<lparr>reply_status = status f, retry_after_header = map_of ?hs (us ''Retry-After''),
    reply_body = Inr (the (utf8_encode (dumps fr (JObj ?d))))\<rparr>"
  have resp: "failure_response out = Responds ?r"
    using failure_response_known [OF assms(1,2)] by (simp add: json_response_def)
  have wire: "on_wire fr ?r = Replied ?p" by (simp add: on_wire_def body_on_wire_def)
  have "plain (JObj ?d)" using assms(3,4) known_kind_clean [OF assms(2)]
    by (simp add: us_def high_surrogate_def)
  then have loads: "loads_bytes (the (utf8_encode (dumps fr (JObj ?d)))) = Inr (JObj ?d)"
    by (rule loads_bytes_dumps)
  have bad: "\<not> (200 \<le> status f \<and> status f < 300)" using assms(2) by (auto simp: known_failure_def)
  have "call (Replied ?p) = Fails
    \<lparr>message = get_or ?d ''error'' (JStr (us ''HTTP '' @ show_int (reply_status ?p))),
     error_kind = get_or ?d ''kind'' (jstr ''unknown''),
     is_retryable = truthy (get_or ?d ''retryable'' (JBool False)),
     retry_after = (if get ?d ''retry_after_sec'' = JNull
                    then (case ?n of None \<Rightarrow> JNull | Some m \<Rightarrow> JInt (int m)) else get ?d ''retry_after_sec'')\<rparr>"
    by (rule error_reply_reported [where bs = "the (utf8_encode (dumps fr (JObj ?d)))"])
      (use bad loads short_number in \<open>auto simp: show_int_def\<close>)
  then show ?thesis using resp wire by (auto simp: get_def get_or_def)
qed

text \<open>A completion, answered by the server and read by the client.\<close>

lemma answer_on_wire:
  assumes "plain (answer out)" "plain (took_ms out)"
  shows "client_generate (on_wire fr
      \<lparr>response_status = 200, response_headers = [],
       response_body = JsonBody (JObj [(us ''text'', answer out), (us ''duration_ms'', took_ms out)])\<rparr>) = Done (answer out)"
proof -
  have "plain (JObj [(us ''text'', answer out), (us ''duration_ms'', took_ms out)])"
    using assms by (simp add: us_def high_surrogate_def)
  from loads_bytes_dumps [OF this, of fr] show ?thesis
    by (simp add: client_generate_def call_def on_wire_def body_on_wire_def get_json_def item_def del: dumps.simps)
qed

text \<open>C17.
  What \<open>generate\<close> of the client returns or raises is the outcome of the execution its prompt got: the
  request it sends is read as that prompt, and the answer it gets back is the text, or a
  ClaudePoolError with the failure's own message, kind, \<open>retryable\<close> and waiting time.\<close>

theorem generate_end_to_end:
  assumes "clean prompt" "prompt \<noteq> []"
    and "exec prompt default_timeout = Returned out" "Returned out = fst (execute a r severed P)"
    and "plain (answer out)" "plain (error_text out)" "plain (took_ms out)"
  shows "\<exists>rsp. handle_generate default_timeout (Inr (request_body fr (prompt_payload prompt None))) exec = Responds rsp
    \<and> client_generate (on_wire fr rsp) =
      (case failed_as out of
         None \<Rightarrow> Done (answer out)
       | Some f \<Rightarrow> Fails \<lparr>message = error_text out, error_kind = JStr (kind f), is_retryable = retryable f,
            retry_after = (if kind f = us ''rate_limited'' then JInt 60 else JNull)\<rparr>)"
proof -
  have read: "read_prompt_request default_timeout (Inr (request_body fr (prompt_payload prompt None)))
      = Prompt prompt default_timeout"
    unfolding request_body_def using assms(1,2) by (rule client_prompt_read)
  have sound: "sound_outcome out" using execute_sound assms(4) by metis
  show ?thesis
  proof (cases "failed_as out")
    case None
    with sound have "succeeded out" by (simp add: sound_outcome_def)
    with read assms(3) None answer_on_wire [OF assms(5,7), of fr] show ?thesis
      by (simp add: handle_generate_def json_response_def)
  next
    case (Some f)
    with sound have f: "known_failure f" "\<not> succeeded out" by (simp_all add: sound_outcome_def)
    from failure_on_wire [OF Some f(1) assms(6,7), of fr] obtain rsp where
      "failure_response out = Responds rsp" "call (on_wire fr rsp) = Fails
        \<lparr>message = error_text out, error_kind = JStr (kind f), is_retryable = retryable f,
         retry_after = (if kind f = us ''rate_limited'' then JInt 60 else JNull)\<rparr>" by blast
    with read assms(3) Some f(2) show ?thesis by (simp add: handle_generate_def client_generate_def)
  qed
qed

theorem generate_end_to_end_witness:
  "\<exists>rsp. handle_generate (Finite 120) (Inr (request_body (\<lambda>_. []) (prompt_payload (us ''PONG'') None)))
        (\<lambda>_ _. Returned (failed_outcome (jstr ''busy'') pool_unavailable (JInt 0))) = Responds rsp
    \<and> client_generate (on_wire (\<lambda>_. []) rsp) = Fails \<lparr>message = jstr ''busy'',
        error_kind = jstr ''pool_unavailable'', is_retryable = True, retry_after = JNull\<rparr>"
proof -
  have "Returned (failed_outcome (jstr ''busy'') pool_unavailable (JInt 0)) =
      fst (execute (NoWorker (us ''busy'')) RunCancelled False (new_pool (default_config []) None 0))"
    by (simp add: Let_def)
  note e2e = generate_end_to_end [OF pong_clean _ refl this, of "Finite 120" "\<lambda>_. []"]
  have "length (show_nat 0) \<le> 4300" using show_nat_length [of 0 1] by simp
  then show ?thesis using e2e
    by (simp add: failed_outcome_def pool_unavailable_def us_def high_surrogate_def int_max_str_digits_def)
qed

subsection \<open>From the prompt to the CLI and back\<close>

text \<open>C16.
  The CLI gets the prompt as it was given: what \<open>run\<close> writes to its input is one line of ASCII
  whatever the prompt holds (quotes, line breaks, other scripts), it can always be encoded, and
  reads back as the user message with that prompt.\<close>

theorem prompt_reaches_cli:
  assumes "clean prompt"
  shows "\<exists>sent line. utf8_encode (input_line fr prompt) = Some sent \<and> splitlines (utf8_decode sent) = [line]
    \<and> list_all (\<lambda>c. c < 128) line \<and> loads line = Loaded (prompt_message prompt)"
proof -
  let ?line = "dumps fr (prompt_message prompt)"
  have "utf8_decode (map of_nat (input_line fr prompt)) = input_line fr prompt"
    by (rule utf8_roundtrip [OF input_line_encodes])
  then have "splitlines (utf8_decode (map of_nat (input_line fr prompt))) = [?line]"
    by (simp only: input_line_one_line)
  moreover have "list_all (\<lambda>c. c < 128) ?line"
    by (rule list.pred_mono_strong [OF dumps_prompt_printable]) (simp add: printable_def)
  moreover have "loads ?line = Loaded (prompt_message prompt)"
    by (rule loads_dumps [OF prompt_message_plain [OF assms]])
  ultimately show ?thesis using input_line_encodes by blast
qed

theorem prompt_reaches_cli_witness:
  "\<exists>sent line. utf8_encode (input_line (\<lambda>_. []) [0x22, 0x0A, 0x1F600]) = Some sent
    \<and> splitlines (utf8_decode sent) = [line] \<and> list_all (\<lambda>c. c < 128) line
    \<and> loads line = Loaded (prompt_message [0x22, 0x0A, 0x1F600])"
  by (rule prompt_reaches_cli) (simp add: high_surrogate_def)

text \<open>C15.
  What \<open>run\<close> makes of the output, for arbitrary bytes. Lines are passed over up to the first one
  that is a result object or that \<open>parse_stream\<close> cannot take (JSON other than an object, an integer too
  long). A result decides: its text is the answer, or, when it reports an error, the failure that its
  \<open>api_error_status\<close> and the last API error code of the objects up to and including it are classified
  as. Any other such line raises. Without one the run has failed, and the error tells the exit code and the
  error output, which play no part otherwise; nor does anything printed after that line.\<close>

theorem stream_decides_outcome:
  assumes "proc w = Some p"
  shows "run_outcome (fst (run w (CommDone out err rc) T)) =
    (let ls = splitlines (utf8_decode out);
         code = foldl code_after [] (List.map_filter line_object (takeWhile passed_over ls))
     in case dropWhile passed_over ls of
          [] \<Rightarrow> Inr (failed_outcome (JStr (no_result_text rc err)) classify_nothing (JInt 0))
        | l # _ \<Rightarrow>
            (case decisive l of
               Inl e \<Rightarrow> Inl e
             | Inr res \<Rightarrow>
                 (if truthy (get_or res ''is_error'' (JBool False))
                  then map_sum id (\<lambda>f. failed_outcome (get_or res ''result'' (JStr [])) f (get_or res ''duration_ms'' (JInt 0)))
                         (classify (get res ''api_error_status'') (code_after code res))
                  else Inr (ok_outcome (get_or res ''result'' (JStr [])) (get_or res ''duration_ms'' (JInt 0))))))"
proof -
  have run: "fst (run w (CommDone out err rc) T) =
      (case parse_stream out of
         Inl e \<Rightarrow> RanRaised e
       | Inr (None, code) \<Rightarrow> RanWorkerError (no_result_text rc err)
       | Inr (Some d, code) \<Rightarrow> RanResult (result_of d code))"
    using assms by (simp add: run_def)
  show ?thesis unfolding run parse_stream_def read_lines_reference [of "[]"] Let_def
    by (cases "dropWhile passed_over (splitlines (utf8_decode out))", simp_all only: list.case)
      (auto simp: run_outcome_def result_of_def split: sum.split)
qed

text \<open>The stream the CLI prints when it is not logged in: the event with the error code, then the result.\<close>

definition stream_of :: "(pyfloat \<Rightarrow> ustring) \<Rightarrow> (ustring, json) dict list \<Rightarrow> ustring" where
  "stream_of fr ds = join_lines (map (\<lambda>d. dumps fr (JObj d)) ds)"

lemma stream_lines:
  assumes "list_all (\<lambda>d. plain (JObj d)) ds"
  shows "splitlines (stream_of fr ds @ rest) = map (\<lambda>d. dumps fr (JObj d)) ds @ splitlines rest"
proof -
  have "list_all (\<lambda>c. \<not> is_linebreak c) (dumps fr (JObj d))" if "d \<in> set ds" for d
  proof -
    have "plain (JObj d)" using assms that by (simp only: list_all_iff)
    then show ?thesis by (rule list.pred_mono_strong [OF dumps_printable]) (rule printable_not_linebreak)
  qed
  then show ?thesis unfolding stream_of_def
    by (intro splitlines_join_lines_append) (simp add: list_all_iff)
qed

lemma stream_ascii:
  assumes "list_all (\<lambda>d. plain (JObj d)) ds"
  shows "list_all (\<lambda>c. c < 128) (stream_of fr ds)"
proof -
  have "c < 128" if "c \<in> set (dumps fr (JObj d))" "d \<in> set ds" for c d
  proof -
    have "plain (JObj d)" using assms that(2) by (simp only: list_all_iff)
    from dumps_printable [OF this, of fr] that(1) show ?thesis by (auto simp: list_all_iff printable_def)
  qed
  then show ?thesis by (auto simp: stream_of_def join_lines_def list_all_iff simp del: dumps.simps)
qed

definition login_event :: "(ustring, json) dict" where
  "login_event = [(us ''is_api_error_message'', JBool True), (us ''error'', jstr ''authentication_failed'')]"

definition error_line :: "(ustring, json) dict" where
  "error_line = [(us ''type'', jstr ''result''), (us ''is_error'', JBool True), (us ''result'', jstr ''no'')]"

theorem stream_decides_outcome_witness:
  "\<exists>out. run_outcome (fst (run w0 (CommDone out [] 1) Map.empty)) =
     Inr (failed_outcome (jstr ''no'') \<lparr>kind = us ''not_authenticated'', status = 503, retryable = False,
       retry_after_sec = None\<rparr> (JInt 0))"
proof -
  have plain: "plain (JObj login_event)" "plain (JObj error_line)"
    by (simp_all add: login_event_def error_line_def us_def high_surrogate_def)
  then have all: "list_all (\<lambda>d. plain (JObj d)) [login_event, error_line]" by (simp del: plain.simps)
  from utf8_encode_ascii [OF stream_ascii [OF all, of "\<lambda>_. []"]] obtain out
    where out: "utf8_encode (stream_of (\<lambda>_. []) [login_event, error_line]) = Some out" by blast
  then have lines: "splitlines (utf8_decode out) = map (\<lambda>d. dumps (\<lambda>_. []) (JObj d)) [login_event, error_line]"
    using stream_lines [OF all, of "\<lambda>_. []" "[]"] utf8_roundtrip by (simp del: dumps.simps plain.simps)
  have kinds: "\<not> is_result login_event" "is_result error_line"
    by (simp_all add: login_event_def error_line_def is_result_def get_def get_or_def)
  have "proc w0 = Some 0" by (simp add: w0_def)
  from stream_decides_outcome [OF this, of out "[]" 1 Map.empty]
  have "run_outcome (fst (run w0 (CommDone out [] 1) Map.empty)) =
      map_sum id (\<lambda>f. failed_outcome (jstr ''no'') f (JInt 0)) (classify JNull (us ''authentication_failed''))"
    unfolding lines
    by (simp add: dumped_line plain kinds List.map_filter_simps decisive_def del: dumps.simps plain.simps)
      (simp add: login_event_def error_line_def get_or_def get_def code_after_def)
  then have "run_outcome (fst (run w0 (CommDone out [] 1) Map.empty)) =
     Inr (failed_outcome (jstr ''no'') \<lparr>kind = us ''not_authenticated'', status = 503, retryable = False,
       retry_after_sec = None\<rparr> (JInt 0))"
    by (simp add: classify_null)
  then show ?thesis by blast
qed

subsection \<open>Executions and configuration\<close>

text \<open>C14.
  An execution gives back every worker it was handed, however it ends, and none it was not. It is
  cancelled exactly if the acquire, the run or the wait for the release was. Otherwise it returns what the
  run came to: the result's own text and time, as the answer or, when the result reports an error, as the failure
  its status and code are classified as; the fixed failures of a full pool, a timeout and a worker
  without a result; and \<open>last_error\<close> then tells of it. The one thing it lets out is an exception of the run
  or, for a result whose status is a list or an object, of \<open>classify\<close>; \<open>last_error\<close> then stays.\<close>

theorem execute_reports:
  assumes "execute a r severed P = (e, released, P')"
  shows "released = (case a of Acquired w \<Rightarrow> Some w | NoWorker msg \<Rightarrow> None | AcquireCancelled \<Rightarrow> None)
    \<and> (e = Cancelled \<longleftrightarrow> a = AcquireCancelled \<or> (\<exists>w. a = Acquired w) \<and> (r = RunCancelled \<or> severed))
    \<and> (case e of
         Returned out \<Rightarrow>
           P' = P\<lparr>last_error := (if succeeded out then None else Some (error_text out))\<rparr>
           \<and> (case failed_as out of None \<Rightarrow> succeeded out | Some f \<Rightarrow> \<not> succeeded out \<and> known_failure f)
           \<and> (case (a, r) of
                (Acquired w, RunEnds (RanResult res)) \<Rightarrow>
                  took_ms out = duration_ms res
                  \<and> (if is_error res
                     then Inr (the (failed_as out)) = classify (api_error_status res) (api_error_code res)
                       \<and> failed_as out \<noteq> None \<and> error_text out = result_text res
                     else succeeded out \<and> answer out = result_text res)
              | (Acquired w, RunEnds RanTimeout) \<Rightarrow> failed_as out = Some timed_out
              | (Acquired w, RunEnds (RanWorkerError msg)) \<Rightarrow>
                  failed_as out = Some classify_nothing \<and> error_text out = JStr msg
              | (NoWorker msg, _) \<Rightarrow> failed_as out = Some pool_unavailable \<and> error_text out = JStr msg
              | _ \<Rightarrow> False)
       | Raised x \<Rightarrow> P' = P
           \<and> (case r of
                RunEnds (RanRaised y) \<Rightarrow> x = y
              | RunEnds (RanResult res) \<Rightarrow> is_error res \<and> \<not> hashable (api_error_status res)
              | _ \<Rightarrow> False)
       | Cancelled \<Rightarrow> P' = P\<lparr>last_error := last_error P'\<rparr>)"
proof -
  have sound: "case failed_as out of None \<Rightarrow> succeeded out | Some f \<Rightarrow> \<not> succeeded out \<and> known_failure f"
    if "e = Returned out" for out
    using execute_sound [of a r severed P out] assms that by (auto simp: sound_outcome_def split: option.splits)
  have raised: "\<not> hashable j" if "classify j code = Inl x" for j code x
    using classify_total [of j code] that by auto
  show ?thesis
  proof (cases "(a, r, severed, P)" rule: execute.cases)
    case (4 w ran severed' P0)
    then show ?thesis using assms sound
      by (cases ran) (auto simp: run_outcome_def note_outcome_def note_success_def note_failure_def ok_outcome_def
          failed_outcome_def dest: raised split: if_splits sum.splits)
  qed (use assms sound in \<open>auto simp: Let_def note_outcome_def note_failure_def failed_outcome_def\<close>)
qed

theorem execute_reports_witness:
  "\<exists>out P'. execute (Acquired new_worker) (RunEnds (RanResult (result_of error_line (us ''authentication_failed'')))) False
        (new_pool (default_config []) None 0) = (Returned out, Some new_worker, P')
     \<and> error_text out = jstr ''no'' \<and> map_option kind (failed_as out) = Some (us ''not_authenticated'')
     \<and> last_error P' = Some (jstr ''no'')"
proof -
  let ?res = "result_of error_line (us ''authentication_failed'')"
  let ?P = "new_pool (default_config []) None 0"
  obtain e w P' where run: "execute (Acquired new_worker) (RunEnds (RanResult ?res)) False ?P = (e, w, P')"
    by (metis prod_cases3)
  have res: "is_error ?res" "result_text ?res = jstr ''no''" "api_error_status ?res = JNull"
      "api_error_code ?res = us ''authentication_failed''"
    by (simp_all add: result_of_def error_line_def get_or_def get_def)
  then have "e \<noteq> Cancelled" "\<forall>x. e \<noteq> Raised x"
    using execute_reports [OF run] by (auto split: exec_end.splits)
  then obtain out where e: "e = Returned out" by (cases e) auto
  have "w = Some new_worker \<and> failed_as out \<noteq> None \<and> \<not> succeeded out \<and> error_text out = jstr ''no''
      \<and> Inr (the (failed_as out)) = classify JNull (us ''authentication_failed'')
      \<and> P' = ?P\<lparr>last_error := Some (error_text out)\<rparr>"
    using execute_reports [OF run] res unfolding e by (auto split: option.splits)
  with run e show ?thesis by (auto simp: classify_null)
qed

text \<open>C34.
  Whatever the environment says, a configuration that is accepted binds to a loopback address,
  \<open>localhost\<close>, 127.x.y.z or ::1, and its command is a non-empty list of strings, which starts the
  argument vector of every worker as it stands; the model ends it.\<close>

theorem configured_on_loopback:
  assumes "from_env home env = Inr c"
  shows "is_loopback_host (host c)
    \<and> (host c = us ''localhost'' \<or> parse_octet (hd (split_on 46 (host c))) = Some 127 \<or> parse_ipv6 (host c) = Some 1)
    \<and> (\<exists>cmd. claude_cmd c = JList (map JStr cmd) \<and> cmd \<noteq> [] \<and> take (length cmd) (build_argv c) = cmd
        \<and> last (build_argv c) = model c)"
proof -
  from from_env_validated [OF assms] obtain cmd where ok: "is_loopback_host (host c)"
    "claude_cmd c = JList (map JStr cmd)" "cmd \<noteq> []"
    unfolding post_init_ok by blast
  have "cmd_parts (claude_cmd c) = cmd" using ok(2) by (simp add: o_def)
  then have "take (length cmd) (build_argv c) = cmd" "last (build_argv c) = model c"
    by (simp_all add: build_argv_def)
  with ok loopback_forms [OF ok(1)] show ?thesis by blast
qed

theorem configured_on_loopback_witness:
  "\<exists>cmd. cmd \<noteq> [] \<and> take (length cmd) (build_argv (default_config [])) = cmd"
  using configured_on_loopback [OF from_env_empty, of "[]"] by blast

end
